(* ===== verification/Prelude.thy ===== *)
theory Prelude
  imports Main "HOL-Library.AList"
begin

text \<open>
  What every component shares: the exceptions of the program, the computations that may
  raise while they change a state (a Python handler keeps what it wrote before it raised),
  the frame rules by which an operation is shown to keep an invariant or to stay inside
  its part of the state, the Python string operations the sources use, and dictionaries
  as association lists in insertion order.

  A Python \<^verbatim>\<open>str\<close> is a \<^typ>\<open>string\<close> whose characters are the code points
  0 to 255, so that \<^verbatim>\<open>len\<close>, slicing and \<^verbatim>\<open>split\<close> count what Python counts.
\<close>

named_theorems framed \<open>operations that stay inside a frame\<close>
named_theorems run_simps \<open>evaluation of the computations\<close>

section \<open>Exceptions\<close>

text \<open>
  One constructor for every exception class that a handler of the sources tells apart.
  \<open>Raised c m\<close> is any other exception, of class \<open>c\<close> and message \<open>m\<close>.
\<close>

datatype exc =
    KeyError string
  | TypeError
  | ValueError
  | IndexError
  | AttributeError
  | RecursionError
  | DoesNotExist
  | MultipleObjectsReturned
  | DatabaseError
  | TimeLimitExceeded
  | SoftTimeLimitExceeded
  | WorkflowNotFound string
  | WorkflowSyntaxError "string option"
  | Raised string string

section \<open>Computations that change a state and may raise\<close>

type_synonym ('s, 'a) comp = "'s \<Rightarrow> (exc + 'a) \<times> 's"

definition ret :: "'a \<Rightarrow> ('s, 'a) comp" where
  "ret x s = (Inr x, s)"

definition throw :: "exc \<Rightarrow> ('s, 'a) comp" where
  "throw e s = (Inl e, s)"

definition bind :: "('s, 'a) comp \<Rightarrow> ('a \<Rightarrow> ('s, 'b) comp) \<Rightarrow> ('s, 'b) comp" where
  "bind m f s = (case m s of (Inl e, t) \<Rightarrow> (Inl e, t) | (Inr x, t) \<Rightarrow> f x t)"

definition seq :: "('s, 'a) comp \<Rightarrow> ('s, 'b) comp \<Rightarrow> ('s, 'b) comp" where
  "seq m k = bind m (\<lambda>_. k)"

text \<open>\<^verbatim>\<open>try: m except Exception as e: h(e)\<close>\<close>

definition catch :: "('s, 'a) comp \<Rightarrow> (exc \<Rightarrow> ('s, 'a) comp) \<Rightarrow> ('s, 'a) comp" where
  "catch m h s = (case m s of (Inl e, t) \<Rightarrow> h e t | (Inr x, t) \<Rightarrow> (Inr x, t))"

definition lift :: "exc + 'a \<Rightarrow> ('s, 'a) comp" where
  "lift r s = (r, s)"

definition query :: "('s \<Rightarrow> 'a) \<Rightarrow> ('s, 'a) comp" where
  "query f s = (Inr (f s), s)"

definition modify :: "('s \<Rightarrow> 's) \<Rightarrow> ('s, unit) comp" where
  "modify f s = (Inr (), f s)"

fun for_each :: "'a list \<Rightarrow> ('a \<Rightarrow> ('s, unit) comp) \<Rightarrow> ('s, unit) comp" where
  "for_each [] f = ret ()"
| "for_each (x # xs) f = seq (f x) (for_each xs f)"

text \<open>A list comprehension whose elements are computed in order, with effects.\<close>

fun map_each :: "('a \<Rightarrow> ('s, 'b) comp) \<Rightarrow> 'a list \<Rightarrow> ('s, 'b list) comp" where
  "map_each f [] = ret []"
| "map_each f (x # xs) = bind (f x) (\<lambda>y. bind (map_each f xs) (\<lambda>ys. ret (y # ys)))"

definition or_raise :: "'a option \<Rightarrow> exc \<Rightarrow> exc + 'a" where
  "or_raise x e = (case x of None \<Rightarrow> Inl e | Some v \<Rightarrow> Inr v)"

definition state_of :: "(exc + 'a) \<times> 's \<Rightarrow> 's" where
  "state_of r = snd r"

lemma ret_run [simp, run_simps]: "ret x s = (Inr x, s)"
  by (simp add: ret_def)

lemma throw_run [simp, run_simps]: "throw e s = (Inl e, s)"
  by (simp add: throw_def)

lemma lift_run [simp, run_simps]: "lift r s = (r, s)"
  by (simp add: lift_def)

lemma query_run [simp, run_simps]: "query f s = (Inr (f s), s)"
  by (simp add: query_def)

lemma modify_run [simp, run_simps]: "modify f s = (Inr (), f s)"
  by (simp add: modify_def)

lemma or_raise_simps [simp, run_simps]:
  "or_raise None e = Inl e" "or_raise (Some v) e = Inr v"
  by (simp_all add: or_raise_def)

lemma or_raise_Inr [simp]: "or_raise x e = Inr v \<longleftrightarrow> x = Some v"
  by (cases x) simp_all

lemma or_raise_Inl [simp]: "or_raise x e = Inl e' \<longleftrightarrow> x = None \<and> e' = e"
  by (cases x) auto

lemma bind_raise [run_simps]: "m s = (Inl e, t) \<Longrightarrow> bind m f s = (Inl e, t)"
  by (simp add: bind_def)

lemma bind_value [run_simps]: "m s = (Inr x, t) \<Longrightarrow> bind m f s = f x t"
  by (simp add: bind_def)

lemma seq_raise [run_simps]: "m s = (Inl e, t) \<Longrightarrow> seq m k s = (Inl e, t)"
  by (simp add: seq_def bind_raise)

lemma seq_value [run_simps]: "m s = (Inr x, t) \<Longrightarrow> seq m k s = k t"
  by (simp add: seq_def bind_value)

lemma catch_raise [run_simps]: "m s = (Inl e, t) \<Longrightarrow> catch m h s = h e t"
  by (simp add: catch_def)

lemma catch_value [run_simps]: "m s = (Inr x, t) \<Longrightarrow> catch m h s = (Inr x, t)"
  by (simp add: catch_def)

lemma bind_run: "bind m f s = (Inr y, u) \<longleftrightarrow> (\<exists>x t. m s = (Inr x, t) \<and> f x t = (Inr y, u))"
  by (auto simp: bind_def split: prod.splits sum.splits)

lemma seq_run: "seq m k s = (Inr y, u) \<longleftrightarrow> (\<exists>x t. m s = (Inr x, t) \<and> k t = (Inr y, u))"
  by (simp add: seq_def bind_run)

lemma catch_run:
  "catch m h s = (Inr y, u) \<longleftrightarrow> m s = (Inr y, u) \<or> (\<exists>e t. m s = (Inl e, t) \<and> h e t = (Inr y, u))"
  by (auto simp: catch_def split: prod.splits sum.splits)

lemma bind_assoc: "bind (bind m f) g = bind m (\<lambda>x. bind (f x) g)"
  by (rule ext) (simp add: bind_def split: prod.splits sum.splits)

lemma bind_ret [simp]: "bind (ret x) f = f x"
  by (rule ext) (simp add: bind_def)

section \<open>Frames\<close>

text \<open>
  \<open>within R m\<close>: whatever \<open>m\<close> does from a state, raising or not, the state it leaves is
  related to the state it started from.  The frame rules below hold for every reflexive and
  transitive relation, so one walk over a handler's text proves any of its frames.
\<close>

definition within :: "('s \<Rightarrow> 's \<Rightarrow> bool) \<Rightarrow> ('s, 'a) comp \<Rightarrow> bool" where
  "within R m \<longleftrightarrow> (\<forall>s. R s (snd (m s)))"

lemma withinI: "(\<And>s. R s (snd (m s))) \<Longrightarrow> within R m"
  by (simp add: within_def)

lemma withinD: "within R m \<Longrightarrow> R s (snd (m s))"
  by (simp add: within_def)

lemma within_run: "within R m \<Longrightarrow> m s = (r, t) \<Longrightarrow> R s t"
  by (metis snd_conv within_def)

locale frame =
  fixes R :: "'s \<Rightarrow> 's \<Rightarrow> bool"
  assumes keep: "R s s"
    and step: "R s t \<Longrightarrow> R t u \<Longrightarrow> R s u"
begin

lemma ret [framed]: "within R (ret x)"
  by (simp add: within_def keep)

lemma throw [framed]: "within R (throw e)"
  by (simp add: within_def keep)

lemma lift [framed]: "within R (lift r)"
  by (simp add: within_def keep)

lemma query [framed]: "within R (query f)"
  by (simp add: within_def keep)

lemma bind [framed]:
  assumes "within R m" and "\<And>x. within R (f x)"
  shows "within R (bind m f)"
proof (rule withinI)
  fix s
  obtain r t where r: "m s = (r, t)" by force
  with assms(1) have st: "R s t" by (rule within_run)
  show "R s (snd (bind m f s))"
  proof (cases r)
    case (Inl e)
    with r st show ?thesis by (simp add: bind_raise)
  next
    case (Inr x)
    with r have "bind m f s = f x t" by (simp add: bind_value)
    then show ?thesis using step [OF st withinD [OF assms(2)]] by simp
  qed
qed

lemma seq [framed]: "within R m \<Longrightarrow> within R k \<Longrightarrow> within R (seq m k)"
  unfolding seq_def by (rule bind)

lemma catch [framed]:
  assumes "within R m" and "\<And>e. within R (h e)"
  shows "within R (catch m h)"
proof (rule withinI)
  fix s
  obtain r t where r: "m s = (r, t)" by force
  with assms(1) have st: "R s t" by (rule within_run)
  show "R s (snd (catch m h s))"
  proof (cases r)
    case (Inl e)
    with r have "catch m h s = h e t" by (simp add: catch_raise)
    then show ?thesis using step [OF st withinD [OF assms(2)]] by simp
  next
    case (Inr x)
    with r st show ?thesis by (simp add: catch_value)
  qed
qed

lemma for_each [framed]:
  assumes "\<And>x. x \<in> set xs \<Longrightarrow> within R (f x)"
  shows "within R (for_each xs f)"
  using assms by (induction xs) (simp_all add: ret seq)

lemma map_each [framed]:
  assumes "\<And>x. x \<in> set xs \<Longrightarrow> within R (f x)"
  shows "within R (map_each f xs)"
  using assms by (induction xs) (simp_all add: ret bind)

lemma if_branch [framed]: "within R m \<Longrightarrow> within R k \<Longrightarrow> within R (if b then m else k)"
  by simp

lemma option_branch [framed]:
  "within R m \<Longrightarrow> (\<And>y. within R (k y)) \<Longrightarrow> within R (case x of None \<Rightarrow> m | Some y \<Rightarrow> k y)"
  by (cases x) simp_all

lemma sum_branch [framed]:
  "(\<And>y. within R (m y)) \<Longrightarrow> (\<And>y. within R (k y)) \<Longrightarrow> within R (case x of Inl y \<Rightarrow> m y | Inr y \<Rightarrow> k y)"
  by (cases x) simp_all

lemma prod_branch [framed]: "(\<And>y z. within R (m y z)) \<Longrightarrow> within R (case x of (y, z) \<Rightarrow> m y z)"
  by (cases x) simp_all

lemma list_branch [framed]:
  "within R m \<Longrightarrow> (\<And>y ys. within R (k y ys)) \<Longrightarrow> within R (case x of [] \<Rightarrow> m | y # ys \<Rightarrow> k y ys)"
  by (cases x) simp_all

lemma let_branch [framed]: "(\<And>y. within R (m y)) \<Longrightarrow> within R (let y = x in m y)"
  by simp

end

text \<open>Keeping an invariant is staying inside the frame of the states that keep it.\<close>

definition keeping :: "('s \<Rightarrow> bool) \<Rightarrow> 's \<Rightarrow> 's \<Rightarrow> bool" where
  "keeping P s t \<longleftrightarrow> (P s \<longrightarrow> P t)"

lemma keepingI: "(P s \<Longrightarrow> P t) \<Longrightarrow> keeping P s t"
  by (simp add: keeping_def)

lemma frame_keeping: "frame (keeping P)"
  by unfold_locales (auto simp: keeping_def)

section \<open>Python strings\<close>

definition startswith :: "string \<Rightarrow> string \<Rightarrow> bool" where
  "startswith s p \<longleftrightarrow> take (length p) s = p"

definition endswith :: "string \<Rightarrow> string \<Rightarrow> bool" where
  "endswith s p \<longleftrightarrow> length p \<le> length s \<and> drop (length s - length p) s = p"

text \<open>The substring test \<^verbatim>\<open>p in s\<close>.\<close>

fun contains :: "string \<Rightarrow> string \<Rightarrow> bool" where
  "contains p [] \<longleftrightarrow> p = []"
| "contains p (c # s) \<longleftrightarrow> startswith (c # s) p \<or> contains p s"

text \<open>\<^verbatim>\<open>s.split(c)\<close> for a separator of one character: never the empty list.\<close>

fun split_on :: "char \<Rightarrow> string \<Rightarrow> string list" where
  "split_on c [] = [[]]"
| "split_on c (x # s) =
     (if x = c then [] # split_on c s
      else case split_on c s of [] \<Rightarrow> [[x]] | w # ws \<Rightarrow> (x # w) # ws)"

fun join :: "string \<Rightarrow> string list \<Rightarrow> string" where
  "join sep [] = []"
| "join sep [w] = w"
| "join sep (w # v # ws) = w @ sep @ join sep (v # ws)"

definition replace_char :: "char \<Rightarrow> char \<Rightarrow> string \<Rightarrow> string" where
  "replace_char a b = map (\<lambda>x. if x = a then b else x)"

text \<open>\<^verbatim>\<open>s.rsplit(c, maxsplit=1)\<close>\<close>

definition rsplit1 :: "char \<Rightarrow> string \<Rightarrow> string list" where
  "rsplit1 c s =
     (let ws = split_on c s
      in if length ws = 1 then ws else [join [c] (butlast ws), last ws])"

text \<open>\<^verbatim>\<open>s.replace(old, new)\<close> for a pattern that is not empty: leftmost occurrences, not overlapping.\<close>

function replace_str :: "string \<Rightarrow> string \<Rightarrow> string \<Rightarrow> string" where
  "replace_str old new s =
     (if s = [] \<or> old = [] then s
      else if startswith s old then new @ replace_str old new (drop (length old) s)
      else hd s # replace_str old new (tl s))"
  by pat_completeness auto
termination
  by (relation "measure (\<lambda>(old, new, s). length s)") auto

declare replace_str.simps [simp del]

definition ascii_lower :: "string \<Rightarrow> string" where
  "ascii_lower = map (\<lambda>c. if 65 \<le> (of_char c :: nat) \<and> of_char c \<le> (90 :: nat) then char_of (of_char c + 32 :: nat) else c)"

lemma split_on_nonempty [simp]: "split_on c s \<noteq> []"
  by (induction s) (auto split: list.splits)

lemma join_split_on [simp]: "join [c] (split_on c s) = s"
proof (induction s)
  case (Cons x s)
  obtain w ws where ws: "split_on c s = w # ws"
    by (meson neq_Nil_conv split_on_nonempty)
  with Cons show ?case by (cases ws) auto
qed simp

lemma join_snoc: "ws \<noteq> [] \<Longrightarrow> join sep (ws @ [w]) = join sep ws @ sep @ w"
  by (induction sep ws rule: join.induct) auto

lemma join_nonempty: "ws \<noteq> [] \<Longrightarrow> \<forall>w \<in> set ws. w \<noteq> [] \<Longrightarrow> join sep ws \<noteq> []"
  by (induction sep ws rule: join.induct) auto

lemma split_on_no_sep: "c \<notin> set s \<Longrightarrow> split_on c s = [s]"
  by (induction s) auto

lemma split_on_append: "c \<notin> set w \<Longrightarrow> split_on c (w @ c # s) = w # split_on c s"
  by (induction w) auto

lemma split_on_pieces: "w \<in> set (split_on c s) \<Longrightarrow> c \<notin> set w"
  by (induction s arbitrary: w) (auto split: if_splits list.splits)

lemma startswith_append [simp]: "startswith (p @ s) p"
  by (simp add: startswith_def)

lemma startswith_iff: "startswith s p \<longleftrightarrow> (\<exists>r. s = p @ r)"
  by (metis append_eq_conv_conj append_take_drop_id startswith_def)

lemma endswith_iff: "endswith s p \<longleftrightarrow> (\<exists>r. s = r @ p)"
proof
  assume "endswith s p"
  then have "s = take (length s - length p) s @ p"
    by (metis append_take_drop_id endswith_def)
  then show "\<exists>r. s = r @ p" by blast
next
  assume "\<exists>r. s = r @ p"
  then show "endswith s p" by (auto simp: endswith_def)
qed

lemma contains_iff: "contains p s \<longleftrightarrow> (\<exists>a b. s = a @ p @ b)"
proof (induction s)
  case (Cons c s)
  show ?case
  proof
    assume "contains p (c # s)"
    then show "\<exists>a b. c # s = a @ p @ b"
      using Cons by (auto simp: startswith_iff) (metis append_Cons append_Nil)+
  next
    assume "\<exists>a b. c # s = a @ p @ b"
    then obtain a b where ab: "c # s = a @ p @ b" by blast
    show "contains p (c # s)"
    proof (cases a)
      case Nil
      with ab have "startswith (c # s) p" by (simp add: startswith_iff)
      then show ?thesis by simp
    next
      case (Cons x a')
      with ab have "s = a' @ p @ b" by simp
      with Cons.IH show ?thesis by auto
    qed
  qed
qed auto

lemma replace_str_absent: "\<not> contains old s \<Longrightarrow> replace_str old new s = s"
proof (induction s)
  case (Cons c s)
  then show ?case by (subst replace_str.simps) auto
qed (simp add: replace_str.simps)

section \<open>Dictionaries\<close>

text \<open>
  A \<^verbatim>\<open>dict\<close> is an association list with distinct keys in insertion order:
  \<^const>\<open>map_of\<close> reads it, \<^const>\<open>AList.update\<close> stores (in place when the key is there, at
  the end when it is new), as Python does.
\<close>

type_synonym ('k, 'v) dict = "('k \<times> 'v) list"

definition keys :: "('k, 'v) dict \<Rightarrow> 'k list" where
  "keys d = map fst d"

definition dict_ok :: "('k, 'v) dict \<Rightarrow> bool" where
  "dict_ok d \<longleftrightarrow> distinct (map fst d)"

text \<open>\<^verbatim>\<open>{k: v for ...}\<close>: later pairs overwrite earlier ones, in the earlier position.\<close>

definition dict_of :: "('k \<times> 'v) list \<Rightarrow> ('k, 'v) dict" where
  "dict_of ps = foldl (\<lambda>d (k, v). AList.update k v d) [] ps"

lemma map_of_foldl_update:
  "map_of (foldl (\<lambda>d (k, v). AList.update k v d) d ps) k
    = (case map_of (rev ps) k of None \<Rightarrow> map_of d k | Some v \<Rightarrow> Some v)"
  by (induction ps arbitrary: d)
    (auto simp: update_conv' map_add_def split: option.splits)

lemma map_of_dict_of: "map_of (dict_of ps) k = map_of (rev ps) k"
  by (simp add: dict_of_def map_of_foldl_update split: option.splits)

lemma distinct_foldl_update:
  "distinct (map fst d) \<Longrightarrow> distinct (map fst (foldl (\<lambda>d (k, v). AList.update k v d) d ps))"
  by (induction ps arbitrary: d) (auto simp: distinct_update)

lemma dict_ok_dict_of [simp]: "dict_ok (dict_of ps)"
  by (simp add: dict_ok_def dict_of_def distinct_foldl_update)

lemma update_new: "k \<notin> fst ` set d \<Longrightarrow> AList.update k v d = d @ [(k, v)]"
  by (induction d) auto

lemma dict_ok_update: "dict_ok d \<Longrightarrow> dict_ok (AList.update k v d)"
  by (simp add: dict_ok_def distinct_update)

lemma update_fresh: "k \<notin> fst ` set d \<Longrightarrow> AList.update k v d = d @ [(k, v)]"
  by (induction d) auto

lemma foldl_update_distinct:
  "distinct (map fst (d @ ps)) \<Longrightarrow> foldl (\<lambda>d (k, v). AList.update k v d) d ps = d @ ps"
proof (induction ps arbitrary: d)
  case (Cons p ps)
  obtain k v where p: "p = (k, v)" by force
  from Cons.prems p have "k \<notin> fst ` set d" by auto
  then have "AList.update k v d = d @ [(k, v)]" by (rule update_fresh)
  moreover from Cons.prems p have "distinct (map fst ((d @ [(k, v)]) @ ps))" by simp
  ultimately show ?case using Cons.IH [of "d @ [(k, v)]"] p by simp
qed simp

lemma dict_of_distinct: "dict_ok d \<Longrightarrow> dict_of d = d"
  using foldl_update_distinct [of "[]" d] by (simp add: dict_of_def dict_ok_def)

lemma map_of_filter_key: "map_of (filter (\<lambda>(k, v). P k) d) k = (if P k then map_of d k else None)"
  by (induction d) auto

end
