(* ===== verification/Json.thy ===== *)
theory Json
  imports Prelude "HOL-Library.Multiset" "HOL-Library.Char_ord" "HOL-Library.List_Lexorder"
begin

text \<open>
  JSON values as Python sees them, and the part of the standard library's \<^verbatim>\<open>json\<close> module
  the sources use: \<^verbatim>\<open>json.dumps(v, sort_keys=True)\<close>, \<^verbatim>\<open>json.dumps(v, sort_keys=True,
  indent=1)\<close> and \<^verbatim>\<open>json.loads\<close>, as a printer and a parser of text with their round trip.
  Numbers are the integers; a text that holds a fraction or an exponent, or an escape
  beyond the code point 255, is outside the model and is refused by \<open>json_loads\<close>.
\<close>

section \<open>Values\<close>

datatype json =
    JNull
  | JBool bool
  | JInt int
  | JStr string
  | JList "json list"
  | JObj "(string \<times> json) list"

text \<open>\<^verbatim>\<open>bool(v)\<close>\<close>

fun truthy :: "json \<Rightarrow> bool" where
  "truthy JNull = False"
| "truthy (JBool b) = b"
| "truthy (JInt i) = (i \<noteq> 0)"
| "truthy (JStr s) = (s \<noteq> [])"
| "truthy (JList vs) = (vs \<noteq> [])"
| "truthy (JObj ps) = (ps \<noteq> [])"

text \<open>\<^verbatim>\<open>v[k]\<close> for a string \<open>k\<close>\<close>

fun subscript :: "json \<Rightarrow> string \<Rightarrow> exc + json" where
  "subscript (JObj ps) k = or_raise (map_of ps k) (KeyError k)"
| "subscript _ k = Inl TypeError"

text \<open>\<^verbatim>\<open>k in v\<close> for a string \<open>k\<close>\<close>

fun is_in :: "string \<Rightarrow> json \<Rightarrow> exc + bool" where
  "is_in k (JObj ps) = Inr (k \<in> fst ` set ps)"
| "is_in k (JList vs) = Inr (JStr k \<in> set vs)"
| "is_in k (JStr s) = Inr (contains k s)"
| "is_in k _ = Inl TypeError"

text \<open>\<^verbatim>\<open>v.get(k)\<close>: only a \<^verbatim>\<open>dict\<close> has the method.\<close>

fun get_or_none :: "json \<Rightarrow> string \<Rightarrow> exc + json" where
  "get_or_none (JObj ps) k = Inr (case map_of ps k of None \<Rightarrow> JNull | Some v \<Rightarrow> v)"
| "get_or_none _ k = Inl AttributeError"

text \<open>Dictionaries have distinct keys, at every level.\<close>

fun jwf :: "json \<Rightarrow> bool" where
  "jwf (JList vs) = list_all jwf vs"
| "jwf (JObj ps) = (distinct (map fst ps) \<and> list_all (\<lambda>p. jwf (snd p)) ps)"
| "jwf _ = True"

text \<open>What \<^verbatim>\<open>sort_keys=True\<close> prints.\<close>

fun jsort :: "json \<Rightarrow> json" where
  "jsort (JList vs) = JList (map jsort vs)"
| "jsort (JObj ps) = JObj (sort_key fst (map (\<lambda>p. (fst p, jsort (snd p))) ps))"
| "jsort v = v"

lemma jwf_jsort: "jwf v \<Longrightarrow> jwf (jsort v)"
proof (induction v rule: jsort.induct)
  case (2 ps)
  have "set (sort_key fst (map (\<lambda>p. (fst p, jsort (snd p))) ps)) = (\<lambda>p. (fst p, jsort (snd p))) ` set ps"
    by simp
  moreover have "distinct (map fst (sort_key fst (map (\<lambda>p. (fst p, jsort (snd p))) ps)))"
  proof -
    have "mset (map fst (sort_key fst (map (\<lambda>p. (fst p, jsort (snd p))) ps))) = mset (map fst ps)"
      by (simp add: image_mset.compositionality comp_def)
    with 2 show ?thesis by (metis jwf.simps(2) mset_eq_imp_distinct_iff)
  qed
  ultimately show ?case using 2 by (auto simp: list_all_iff)
qed (auto simp: list_all_iff)

lemma truthy_jsort [simp]: "truthy (jsort v) = truthy v"
  by (cases v) (auto dest: arg_cong [of "sort_key _ _" "[]" length])

section \<open>Printing\<close>

definition digit_char :: "nat \<Rightarrow> char" where
  "digit_char d = char_of (48 + d)"

fun show_nat :: "nat \<Rightarrow> string" where
  "show_nat n = (if n < 10 then [digit_char n] else show_nat (n div 10) @ [digit_char (n mod 10)])"

declare show_nat.simps [simp del]

definition show_int :: "int \<Rightarrow> string" where
  "show_int i = (if i < 0 then CHR ''-'' # show_nat (nat (- i)) else show_nat (nat i))"

definition hex_char :: "nat \<Rightarrow> char" where
  "hex_char d = (if d < 10 then char_of (48 + d) else char_of (87 + d))"

definition escape :: "char \<Rightarrow> string" where
  "escape c =
     (if c = CHR 0x22 then [CHR 0x5C, CHR 0x22]
      else if c = CHR 0x5C then [CHR 0x5C, CHR 0x5C]
      else if c = CHR 0x0A then [CHR 0x5C, CHR ''n'']
      else if c = CHR 0x0D then [CHR 0x5C, CHR ''r'']
      else if c = CHR 0x09 then [CHR 0x5C, CHR ''t'']
      else if c = CHR 0x0C then [CHR 0x5C, CHR ''f'']
      else if c = CHR 0x08 then [CHR 0x5C, CHR ''b'']
      else if 32 \<le> (of_char c :: nat) \<and> of_char c \<le> (126 :: nat) then [c]
      else [CHR 0x5C, CHR ''u'', CHR ''0'', CHR ''0'',
            hex_char (of_char c div 16), hex_char (of_char c mod 16)])"

definition dump_str :: "string \<Rightarrow> string" where
  "dump_str s = CHR 0x22 # concat (map escape s) @ [CHR 0x22]"

definition newline :: "nat option \<Rightarrow> nat \<Rightarrow> string" where
  "newline ind l = (case ind of None \<Rightarrow> [] | Some k \<Rightarrow> CHR 0x0A # replicate (k * l) (CHR '' ''))"

definition item_sep :: "nat option \<Rightarrow> nat \<Rightarrow> string" where
  "item_sep ind l = (case ind of None \<Rightarrow> '', '' | Some k \<Rightarrow> CHR '','' # newline ind l)"

fun dump :: "nat option \<Rightarrow> nat \<Rightarrow> json \<Rightarrow> string" where
  "dump ind l JNull = ''null''"
| "dump ind l (JBool b) = (if b then ''true'' else ''false'')"
| "dump ind l (JInt i) = show_int i"
| "dump ind l (JStr s) = dump_str s"
| "dump ind l (JList vs) =
     (if vs = [] then ''[]''
      else CHR ''['' # newline ind (Suc l)
        @ join (item_sep ind (Suc l)) (map (dump ind (Suc l)) vs) @ newline ind l @ '']'')"
| "dump ind l (JObj ps) =
     (if ps = [] then ''{}''
      else CHR ''{'' # newline ind (Suc l)
        @ join (item_sep ind (Suc l)) (map (\<lambda>p. dump_str (fst p) @ '': '' @ dump ind (Suc l) (snd p)) ps)
        @ newline ind l @ ''}'')"

text \<open>\<^verbatim>\<open>json.dumps(v, sort_keys=True)\<close> and \<^verbatim>\<open>json.dumps(v, sort_keys=True, indent=1)\<close>\<close>

definition dumps_sorted :: "json \<Rightarrow> string" where
  "dumps_sorted v = dump None 0 (jsort v)"

definition dumps_indent1 :: "json \<Rightarrow> string" where
  "dumps_indent1 v = dump (Some 1) 0 (jsort v)"

text \<open>\<^verbatim>\<open>json.dumps(v)\<close>, keys in insertion order.\<close>

definition dumps_plain :: "json \<Rightarrow> string" where
  "dumps_plain v = dump None 0 v"

section \<open>Parsing\<close>

definition is_ws :: "char \<Rightarrow> bool" where
  "is_ws c \<longleftrightarrow> c = CHR '' '' \<or> c = CHR 0x09 \<or> c = CHR 0x0A \<or> c = CHR 0x0D"

abbreviation skip_ws :: "string \<Rightarrow> string" where
  "skip_ws \<equiv> dropWhile is_ws"

definition is_digit :: "char \<Rightarrow> bool" where
  "is_digit c \<longleftrightarrow> 48 \<le> (of_char c :: nat) \<and> of_char c \<le> (57 :: nat)"

definition nat_of_digits :: "string \<Rightarrow> nat" where
  "nat_of_digits = foldl (\<lambda>n c. 10 * n + (of_char c - 48)) 0"

definition hex_val :: "char \<Rightarrow> nat option" where
  "hex_val c =
     (let n = (of_char c :: nat) in
      if 48 \<le> n \<and> n \<le> 57 then Some (n - 48)
      else if 97 \<le> n \<and> n \<le> 102 then Some (n - 87)
      else if 65 \<le> n \<and> n \<le> 70 then Some (n - 55) else None)"

definition unescape :: "char \<Rightarrow> char option" where
  "unescape e =
     (if e = CHR 0x22 then Some (CHR 0x22)
      else if e = CHR 0x5C then Some (CHR 0x5C)
      else if e = CHR ''/'' then Some (CHR ''/'')
      else if e = CHR ''n'' then Some (CHR 0x0A)
      else if e = CHR ''r'' then Some (CHR 0x0D)
      else if e = CHR ''t'' then Some (CHR 0x09)
      else if e = CHR ''f'' then Some (CHR 0x0C)
      else if e = CHR ''b'' then Some (CHR 0x08) else None)"

definition latin1_escape :: "char \<Rightarrow> char \<Rightarrow> char \<Rightarrow> char \<Rightarrow> char option" where
  "latin1_escape a b c d =
     (case (hex_val a, hex_val b, hex_val c, hex_val d) of
        (Some 0, Some 0, Some h, Some k) \<Rightarrow> Some (char_of (16 * h + k))
      | _ \<Rightarrow> None)"

fun pstr :: "string \<Rightarrow> (string \<times> string) option" where
  "pstr [] = None"
| "pstr (c # cs) =
     (if c = CHR 0x22 then Some ([], cs)
      else if c = CHR 0x5C then
        (case cs of
           [] \<Rightarrow> None
         | e # r \<Rightarrow>
             if e = CHR ''u'' then
               (case r of
                  h1 # h2 # h3 # h4 # r' \<Rightarrow>
                    (case latin1_escape h1 h2 h3 h4 of
                       None \<Rightarrow> None
                     | Some x \<Rightarrow> map_option (apfst ((#) x)) (pstr r'))
                | _ \<Rightarrow> None)
             else
               (case unescape e of
                  None \<Rightarrow> None
                | Some x \<Rightarrow> map_option (apfst ((#) x)) (pstr r)))
      else if of_char c < (32 :: nat) then None
      else map_option (apfst ((#) c)) (pstr cs))"

definition pnat :: "string \<Rightarrow> (nat \<times> string) option" where
  "pnat s =
     (case s of
        [] \<Rightarrow> None
      | c # cs \<Rightarrow>
          if c = CHR ''0'' then Some (0, cs)
          else if is_digit c then Some (nat_of_digits (takeWhile is_digit s), dropWhile is_digit s)
          else None)"

definition pint :: "string \<Rightarrow> (json \<times> string) option" where
  "pint s =
     (case s of
        [] \<Rightarrow> None
      | c # cs \<Rightarrow>
          if c = CHR ''-'' then map_option (apfst (\<lambda>n. JInt (- int n))) (pnat cs)
          else map_option (apfst (\<lambda>n. JInt (int n))) (pnat s))"

fun pval :: "nat \<Rightarrow> string \<Rightarrow> (json \<times> string) option"
  and pelems :: "nat \<Rightarrow> string \<Rightarrow> (json list \<times> string) option"
  and pmembers :: "nat \<Rightarrow> string \<Rightarrow> ((string \<times> json) list \<times> string) option"
where
  "pval 0 s = None"
| "pval (Suc n) s =
     (case skip_ws s of
        [] \<Rightarrow> None
      | c # cs \<Rightarrow>
          if c = CHR 0x22 then map_option (apfst JStr) (pstr cs)
          else if c = CHR ''['' then
            (case skip_ws cs of
               [] \<Rightarrow> None
             | d # ds \<Rightarrow> if d = CHR '']'' then Some (JList [], ds)
                 else map_option (apfst JList) (pelems n cs))
          else if c = CHR ''{'' then
            (case skip_ws cs of
               [] \<Rightarrow> None
             | d # ds \<Rightarrow> if d = CHR ''}'' then Some (JObj [], ds)
                 else map_option (apfst (\<lambda>ps. JObj (dict_of ps))) (pmembers n cs))
          else if startswith (c # cs) ''null'' then Some (JNull, drop 4 (c # cs))
          else if startswith (c # cs) ''true'' then Some (JBool True, drop 4 (c # cs))
          else if startswith (c # cs) ''false'' then Some (JBool False, drop 5 (c # cs))
          else pint (c # cs))"
| "pelems 0 s = None"
| "pelems (Suc n) s =
     (case pval n s of
        None \<Rightarrow> None
      | Some (v, r) \<Rightarrow>
          (case skip_ws r of
             [] \<Rightarrow> None
           | c # cs \<Rightarrow>
               if c = CHR '']'' then Some ([v], cs)
               else if c = CHR '','' then map_option (apfst ((#) v)) (pelems n cs)
               else None))"
| "pmembers 0 s = None"
| "pmembers (Suc n) s =
     (case skip_ws s of
        [] \<Rightarrow> None
      | q # qs \<Rightarrow>
          if q \<noteq> CHR 0x22 then None
          else
            (case pstr qs of
               None \<Rightarrow> None
             | Some (k, r) \<Rightarrow>
                 (case skip_ws r of
                    [] \<Rightarrow> None
                  | c # cs \<Rightarrow>
                      if c \<noteq> CHR '':'' then None
                      else
                        (case pval n cs of
                           None \<Rightarrow> None
                         | Some (v, r') \<Rightarrow>
                             (case skip_ws r' of
                                [] \<Rightarrow> None
                              | d # ds \<Rightarrow>
                                  if d = CHR ''}'' then Some ([(k, v)], ds)
                                  else if d = CHR '','' then map_option (apfst ((#) (k, v))) (pmembers n ds)
                                  else None)))))"

text \<open>\<^verbatim>\<open>json.loads(s)\<close>; a failure is a \<^verbatim>\<open>JSONDecodeError\<close>, which is a \<^verbatim>\<open>ValueError\<close>.\<close>

definition json_loads :: "string \<Rightarrow> exc + json" where
  "json_loads s =
     (case pval (2 * length s + 2) s of
        None \<Rightarrow> Inl ValueError
      | Some (v, r) \<Rightarrow> if skip_ws r = [] then Inr v else Inl ValueError)"

section \<open>Round trip\<close>

lemma of_char_char_of_small [simp]: "n < 256 \<Longrightarrow> (of_char (char_of n) :: nat) = n"
  by (simp add: of_char_of)

lemma is_digit_digit_char [simp]: "d < 10 \<Longrightarrow> is_digit (digit_char d)"
  by (simp add: is_digit_def digit_char_def)

lemma of_char_digit_char [simp]: "d < 10 \<Longrightarrow> (of_char (digit_char d) :: nat) = 48 + d"
  by (simp add: digit_char_def)

lemma show_nat_digits: "c \<in> set (show_nat n) \<Longrightarrow> is_digit c"
proof (induction n rule: show_nat.induct)
  case (1 n)
  then show ?case by (cases "n < 10") (auto simp: show_nat.simps [of n])
qed

lemma show_nat_nonempty [simp]: "show_nat n \<noteq> []"
  by (simp add: show_nat.simps [of n])

lemma nat_of_show_nat [simp]: "nat_of_digits (show_nat n) = n"
proof (induction n rule: show_nat.induct)
  case (1 n)
  then show ?case
    by (cases "n < 10") (auto simp: show_nat.simps [of n] nat_of_digits_def)
qed

lemma digit_char_0: "digit_char 0 = CHR ''0''"
  by code_simp

lemma hd_show_nat: "hd (show_nat n) = CHR ''0'' \<longleftrightarrow> n = 0"
proof (induction n rule: show_nat.induct)
  case (1 n)
  have d: "digit_char n = CHR ''0'' \<longleftrightarrow> n = 0" if "n < 10"
  proof
    assume "digit_char n = CHR ''0''"
    then have "(of_char (digit_char n) :: nat) = of_char (CHR ''0'')" by simp
    with that show "n = 0" by simp
  qed (simp add: digit_char_0)
  show ?case
  proof (cases "n < 10")
    case True
    with d show ?thesis by (simp add: show_nat.simps [of n])
  next
    case False
    with 1 show ?thesis by (simp add: show_nat.simps [of n])
  qed
qed

definition delimited :: "string \<Rightarrow> bool" where
  "delimited r \<longleftrightarrow> (case r of [] \<Rightarrow> True | c # _ \<Rightarrow> \<not> is_digit c)"

lemma takeWhile_digits:
  "delimited r \<Longrightarrow> takeWhile is_digit (show_nat n @ r) = show_nat n"
  "delimited r \<Longrightarrow> dropWhile is_digit (show_nat n @ r) = r"
proof -
  have d: "\<And>c. c \<in> set (show_nat n) \<Longrightarrow> is_digit c" by (rule show_nat_digits)
  assume r: "delimited r"
  then have "takeWhile is_digit r = []" "dropWhile is_digit r = r"
    by (cases r; simp add: delimited_def)+
  with d show "takeWhile is_digit (show_nat n @ r) = show_nat n"
    and "dropWhile is_digit (show_nat n @ r) = r"
    by (simp_all add: takeWhile_append dropWhile_append)
qed

lemma pnat_show_nat: "delimited r \<Longrightarrow> pnat (show_nat n @ r) = Some (n, r)"
proof -
  assume r: "delimited r"
  obtain c cs where c: "show_nat n = c # cs" by (meson neq_Nil_conv show_nat_nonempty)
  show ?thesis
  proof (cases "n = 0")
    case True
    with c show ?thesis by (auto simp: pnat_def show_nat.simps [of 0] digit_char_0)
  next
    case False
    with c hd_show_nat [of n] have "c \<noteq> CHR ''0''" by simp
    moreover from c have "is_digit c" using show_nat_digits [of c n] by simp
    ultimately show ?thesis
      using c takeWhile_digits [OF r, of n] nat_of_show_nat [of n]
      by (simp add: pnat_def)
  qed
qed

lemma show_nat_hd_not: "\<not> is_digit x \<Longrightarrow> show_nat n = c # cs \<Longrightarrow> c \<noteq> x"
  using show_nat_digits [of c n] by auto

lemma pint_show_int: "delimited r \<Longrightarrow> pint (show_int i @ r) = Some (JInt i, r)"
proof -
  assume r: "delimited r"
  obtain c cs where c: "show_nat (nat i) = c # cs" by (meson neq_Nil_conv show_nat_nonempty)
  have "\<not> is_digit CHR ''-''" by (simp add: is_digit_def)
  with c have "c \<noteq> CHR ''-''" by (rule show_nat_hd_not [rotated])
  with c r pnat_show_nat [OF r, of "nat i"] pnat_show_nat [OF r, of "nat (- i)"]
  show ?thesis by (auto simp: pint_def show_int_def)
qed

lemma hex_val_hex_char: "d < 16 \<Longrightarrow> hex_val (hex_char d) = Some d"
  by (simp add: hex_val_def hex_char_def)

lemma latin1_escape_hex:
  "latin1_escape CHR ''0'' CHR ''0'' (hex_char (of_char c div 16)) (hex_char (of_char c mod 16)) = Some c"
proof -
  have c: "(of_char c :: nat) < 256" using nat_of_char_less_256 by auto
  then have "(of_char c :: nat) div 16 < 16" by (simp add: less_mult_imp_div_less)
  then have "hex_val (hex_char (of_char c div 16)) = Some (of_char c div 16)"
    by (rule hex_val_hex_char)
  moreover have "hex_val (hex_char (of_char c mod 16)) = Some (of_char c mod 16)"
    by (rule hex_val_hex_char) simp
  moreover have "hex_val CHR ''0'' = Some 0" by (simp add: hex_val_def)
  ultimately show ?thesis by (simp add: latin1_escape_def)
qed

lemma pstr_escape: "pstr (escape c @ s) = map_option (apfst ((#) c)) (pstr s)"
  by (auto simp: escape_def unescape_def latin1_escape_hex)

lemma pstr_dump: "pstr (concat (map escape s) @ CHR 0x22 # r) = Some (s, r)"
  by (induction s) (simp_all add: pstr_escape)

text \<open>
  Every printed value starts with a visible character other than a closing bracket, so the
  parser never takes the value of a non-empty list or object for its end.
\<close>

definition opens_value :: "string \<Rightarrow> bool" where
  "opens_value s \<longleftrightarrow>
     (case s of [] \<Rightarrow> False | c # _ \<Rightarrow> \<not> is_ws c \<and> c \<noteq> CHR '']'' \<and> c \<noteq> CHR ''}'')"

lemma opens_value_digits: "opens_value (show_nat n)"
proof -
  obtain c cs where c: "show_nat n = c # cs" by (meson neq_Nil_conv show_nat_nonempty)
  then have "is_digit c" using show_nat_digits [of c n] by simp
  with c show ?thesis by (auto simp: opens_value_def is_ws_def is_digit_def)
qed

lemma opens_value_dump: "opens_value (dump ind l v)"
  using opens_value_digits
  by (cases v) (simp_all add: show_int_def dump_str_def, simp_all add: opens_value_def is_ws_def)

lemma opens_value_append: "opens_value s \<Longrightarrow> opens_value (s @ r)"
  by (cases s) (simp_all add: opens_value_def)

lemma skip_ws_opens: "opens_value s \<Longrightarrow> skip_ws s = s"
  by (cases s) (simp_all add: opens_value_def)

definition blank :: "string \<Rightarrow> bool" where
  "blank w \<longleftrightarrow> list_all is_ws w"

lemma blank_newline [simp]: "blank (newline ind l)"
  by (cases ind) (auto simp: blank_def newline_def is_ws_def list_all_iff)

lemma skip_ws_blank: "blank w \<Longrightarrow> skip_ws (w @ s) = skip_ws s"
  by (simp add: blank_def list_all_iff)

lemma pval_blank: "blank w \<Longrightarrow> pval n (w @ s) = pval n s"
  by (cases n) (simp_all add: skip_ws_blank)

lemma pmembers_blank: "blank w \<Longrightarrow> pmembers n (w @ s) = pmembers n s"
  by (cases n) (simp_all add: skip_ws_blank)

text \<open>An item separator is a comma followed by white space.\<close>

lemma item_sep_comma: "\<exists>w. item_sep ind l = CHR '','' # w \<and> blank w"
  by (cases ind) (auto simp: item_sep_def blank_def is_ws_def newline_def list_all_iff)

lemma delimited_after: "delimited (newline ind l @ c # r)" if "\<not> is_digit c"
  using that by (cases ind) (auto simp: delimited_def newline_def is_digit_def)

lemma delimited_sep: "delimited (item_sep ind l @ r)"
  using item_sep_comma [of ind l] by (auto simp: delimited_def is_digit_def)

lemma pelems_blank: "blank w \<Longrightarrow> pelems n (w @ s) = pelems n s"
  by (cases n) (simp_all add: pval_blank)

text \<open>The parser reads back one printed value and leaves what follows it.\<close>

definition reads_back :: "nat option \<Rightarrow> nat \<Rightarrow> json \<Rightarrow> bool" where
  "reads_back ind l v \<longleftrightarrow>
     (\<forall>m r. delimited r \<longrightarrow> 2 * length (dump ind l v) + 1 \<le> m
        \<longrightarrow> pval m (dump ind l v @ r) = Some (v, r))"

lemma reads_backD:
  "reads_back ind l v \<Longrightarrow> delimited r \<Longrightarrow> 2 * length (dump ind l v) + 1 \<le> m
    \<Longrightarrow> pval m (dump ind l v @ r) = Some (v, r)"
  by (simp add: reads_back_def)

lemma closing_after: "\<not> is_ws c \<Longrightarrow> skip_ws (newline ind l @ c # r) = c # r"
  by (simp add: skip_ws_blank)

lemma not_digit_closing [simp]: "\<not> is_digit CHR '']''" "\<not> is_digit CHR ''}''" "\<not> is_digit CHR '',''"
  by (simp_all add: is_digit_def)

lemma not_ws_closing [simp]: "\<not> is_ws CHR '']''" "\<not> is_ws CHR ''}''" "\<not> is_ws CHR '',''" "\<not> is_ws CHR '':''"
    "\<not> is_ws CHR ''[''" "\<not> is_ws CHR ''{''" "\<not> is_ws CHR 0x22"
  by (simp_all add: is_ws_def)

lemma pelems_dump:
  assumes "\<forall>v \<in> set vs. reads_back ind l v" and "vs \<noteq> []"
    and "2 * length (join (item_sep ind l) (map (dump ind l) vs)) + 2 \<le> m"
  shows "pelems m (join (item_sep ind l) (map (dump ind l) vs) @ newline ind k @ CHR '']'' # r) = Some (vs, r)"
  using assms
proof (induction vs arbitrary: m)
  case (Cons v vs)
  from Cons.prems(3) obtain n where m: "m = Suc n" by (cases m) auto
  show ?case
  proof (cases vs)
    case Nil
    have "delimited (newline ind k @ CHR '']'' # r)" by (rule delimited_after) simp
    with Cons.prems Nil m
    have "pval n (dump ind l v @ newline ind k @ CHR '']'' # r) = Some (v, newline ind k @ CHR '']'' # r)"
      by (intro reads_backD) auto
    with Nil m show ?thesis by (simp add: closing_after)
  next
    case (Cons w ws)
    let ?rest = "join (item_sep ind l) (map (dump ind l) vs) @ newline ind k @ CHR '']'' # r"
    obtain b where b: "item_sep ind l = CHR '','' # b" "blank b" using item_sep_comma by blast
    have "pval n (dump ind l v @ item_sep ind l @ ?rest) = Some (v, item_sep ind l @ ?rest)"
      using Cons.prems Cons m delimited_sep by (intro reads_backD) auto
    moreover have "pelems n (b @ ?rest) = Some (vs, r)"
      using Cons.prems Cons m b by (subst pelems_blank [OF b(2)], intro Cons.IH) auto
    ultimately show ?thesis using m Cons b by simp
  qed
qed simp

definition dump_member :: "nat option \<Rightarrow> nat \<Rightarrow> string \<times> json \<Rightarrow> string" where
  "dump_member ind l p = dump_str (fst p) @ '': '' @ dump ind l (snd p)"

lemma pmembers_dump:
  assumes "\<forall>p \<in> set ps. reads_back ind l (snd p)" and "ps \<noteq> []"
    and "2 * length (join (item_sep ind l) (map (dump_member ind l) ps)) + 2 \<le> m"
  shows "pmembers m (join (item_sep ind l) (map (dump_member ind l) ps) @ newline ind k @ CHR ''}'' # r) = Some (ps, r)"
  using assms
proof (induction ps arbitrary: m)
  case (Cons p ps)
  from Cons.prems(3) obtain n where m: "m = Suc n" by (cases m) auto
  have sp: "pval n (CHR '' '' # s) = pval n s" for s
    using pval_blank [of "[CHR '' '']" n s] by (simp add: blank_def is_ws_def)
  show ?case
  proof (cases ps)
    case Nil
    have "delimited (newline ind k @ CHR ''}'' # r)" by (rule delimited_after) simp
    with Cons.prems Nil m
    have "pval n (dump ind l (snd p) @ newline ind k @ CHR ''}'' # r) = Some (snd p, newline ind k @ CHR ''}'' # r)"
      by (intro reads_backD) (auto simp: dump_member_def)
    with Nil m show ?thesis
      by (simp add: dump_member_def dump_str_def pstr_dump closing_after sp)
  next
    case (Cons q qs)
    let ?rest = "join (item_sep ind l) (map (dump_member ind l) ps) @ newline ind k @ CHR ''}'' # r"
    obtain b where b: "item_sep ind l = CHR '','' # b" "blank b" using item_sep_comma by blast
    have "pval n (dump ind l (snd p) @ item_sep ind l @ ?rest) = Some (snd p, item_sep ind l @ ?rest)"
      using Cons.prems Cons m delimited_sep by (intro reads_backD) (auto simp: dump_member_def)
    moreover have "pmembers n (b @ ?rest) = Some (ps, r)"
      using Cons.prems Cons m b by (subst pmembers_blank [OF b(2)], intro Cons.IH) auto
    ultimately show ?thesis using m Cons b
      by (simp add: dump_member_def [of ind l p] dump_str_def pstr_dump sp)
  qed
qed simp

lemma pval_opening:
  "pval (Suc n) (CHR ''['' # s) =
     (if opens_value (skip_ws s) then map_option (apfst JList) (pelems n s) else pval (Suc n) (CHR ''['' # s))"
  "pval (Suc n) (CHR ''{'' # s) =
     (if opens_value (skip_ws s) then map_option (apfst (\<lambda>ps. JObj (dict_of ps))) (pmembers n s)
      else pval (Suc n) (CHR ''{'' # s))"
  by (auto simp: opens_value_def split: list.splits)

lemma opens_value_join:
  "vs \<noteq> [] \<Longrightarrow> (\<And>v. v \<in> set vs \<Longrightarrow> opens_value (f v)) \<Longrightarrow> opens_value (join sep (map f vs) @ r)"
  by (cases vs; cases "tl vs") (simp_all add: opens_value_append)

lemma skip_ws_newline_opens: "opens_value s \<Longrightarrow> opens_value (skip_ws (newline ind l @ s))"
  by (simp add: skip_ws_blank skip_ws_opens)

lemma reads_back_int: "reads_back ind l (JInt i)"
proof -
  have hd: "\<exists>c cs. show_int i = c # cs \<and> (c = CHR ''-'' \<or> is_digit c)"
  proof -
    obtain c cs d ds where "show_nat (nat i) = c # cs" "show_nat (nat (- i)) = d # ds"
      by (meson neq_Nil_conv show_nat_nonempty)
    then show ?thesis using show_nat_digits [of c "nat i"] by (auto simp: show_int_def)
  qed
  then obtain c cs where c: "show_int i = c # cs" "c = CHR ''-'' \<or> is_digit c" by blast
  then have "\<not> is_ws c" "c \<noteq> CHR 0x22" "c \<noteq> CHR ''[''" "c \<noteq> CHR ''{''" "c \<noteq> CHR ''n''" "c \<noteq> CHR ''t''" "c \<noteq> CHR ''f''"
    by (auto simp: is_ws_def is_digit_def)
  then have "pval (Suc n) (show_int i @ r) = pint (show_int i @ r)" for n r
    using c by (simp add: startswith_def)
  then have "pval m (show_int i @ r) = pint (show_int i @ r)" if "1 \<le> m" for m r
    using that by (cases m) auto
  then show ?thesis using pint_show_int by (auto simp: reads_back_def)
qed

lemma reads_back_dump: "jwf v \<Longrightarrow> reads_back ind l v"
proof (induction ind l v rule: dump.induct)
  case (1 ind l)
  show ?case unfolding reads_back_def
  proof (intro allI impI)
    fix m r assume "2 * length (dump ind l JNull) + 1 \<le> m"
    then show "pval m (dump ind l JNull @ r) = Some (JNull, r)"
      by (cases m) (simp_all add: is_ws_def startswith_def)
  qed
next
  case (2 ind l b)
  show ?case unfolding reads_back_def
  proof (intro allI impI)
    fix m r assume "2 * length (dump ind l (JBool b)) + 1 \<le> m"
    then show "pval m (dump ind l (JBool b) @ r) = Some (JBool b, r)"
      by (cases m) (auto simp: is_ws_def startswith_def)
  qed
next
  case (3 ind l i)
  show ?case by (rule reads_back_int)
next
  case (4 ind l s)
  show ?case unfolding reads_back_def
  proof (intro allI impI)
    fix m r assume "2 * length (dump ind l (JStr s)) + 1 \<le> m"
    then show "pval m (dump ind l (JStr s) @ r) = Some (JStr s, r)"
      by (cases m) (simp_all add: dump_str_def pstr_dump)
  qed
next
  case (5 ind l vs)
  show ?case unfolding reads_back_def
  proof (intro allI impI)
    fix m r assume m: "2 * length (dump ind l (JList vs)) + 1 \<le> m"
    then obtain n where n: "m = Suc n" by (cases m) auto
    let ?items = "join (item_sep ind (Suc l)) (map (dump ind (Suc l)) vs)"
    show "pval m (dump ind l (JList vs) @ r) = Some (JList vs, r)"
    proof (cases "vs = []")
      case False
      let ?s = "?items @ newline ind l @ CHR '']'' # r"
      have "pelems n ?s = Some (vs, r)"
        using 5 False m n by (intro pelems_dump) (auto simp: list_all_iff)
      moreover have "opens_value ?s" using False by (intro opens_value_join opens_value_dump)
      ultimately show ?thesis using False n
        by (simp add: pelems_blank pval_opening(1) skip_ws_newline_opens del: pval.simps)
    qed (simp add: n)
  qed
next
  case (6 ind l ps)
  show ?case unfolding reads_back_def
  proof (intro allI impI)
    fix m r assume m: "2 * length (dump ind l (JObj ps)) + 1 \<le> m"
    then obtain n where n: "m = Suc n" by (cases m) auto
    have eq: "(\<lambda>p. dump_str (fst p) @ CHR '':'' # CHR '' '' # dump ind (Suc l) (snd p)) = dump_member ind (Suc l)"
      by (simp add: dump_member_def fun_eq_iff)
    let ?items = "join (item_sep ind (Suc l)) (map (dump_member ind (Suc l)) ps)"
    show "pval m (dump ind l (JObj ps) @ r) = Some (JObj ps, r)"
    proof (cases "ps = []")
      case False
      let ?s = "?items @ newline ind l @ CHR ''}'' # r"
      have "pmembers n ?s = Some (ps, r)"
        using 6 False m n by (intro pmembers_dump) (auto simp: list_all_iff eq)
      moreover have "opens_value ?s" using False
        by (intro opens_value_join) (auto simp: dump_member_def dump_str_def opens_value_def is_ws_def)
      moreover have "dict_of ps = ps" using 6 by (intro dict_of_distinct) (simp add: dict_ok_def)
      ultimately show ?thesis using False n
        by (simp add: pmembers_blank pval_opening(2) skip_ws_newline_opens eq del: pval.simps)
    qed (simp add: n)
  qed
qed

lemma loads_dump: "jwf v \<Longrightarrow> json_loads (dump ind l v) = Inr v"
  using reads_backD [OF reads_back_dump, of v "[]" ind l "2 * length (dump ind l v) + 2"]
  by (simp add: json_loads_def delimited_def)

text \<open>
  The interface the models rely on: what a text column holds after a value was stored in
  it reads back as that value.  Both printers of the models provide it.
\<close>

locale json_codec =
  fixes dumps :: "json \<Rightarrow> string"
    and norm :: "json \<Rightarrow> json"
  assumes loads_dumps: "jwf v \<Longrightarrow> json_loads (dumps v) = Inr (norm v)"
    and norm_truthy: "truthy (norm v) = truthy v"
    and norm_idem: "jwf v \<Longrightarrow> norm (norm v) = norm v"
    and norm_wf: "jwf v \<Longrightarrow> jwf (norm v)"
begin

lemma dumps_inj: "jwf v \<Longrightarrow> jwf w \<Longrightarrow> dumps v = dumps w \<Longrightarrow> norm v = norm w"
  using loads_dumps [of v] loads_dumps [of w] by simp

lemma dumps_nonempty: "jwf v \<Longrightarrow> dumps v \<noteq> []"
  using loads_dumps [of v] by (auto simp: json_loads_def)

lemma reload: "jwf v \<Longrightarrow> json_loads (dumps (norm v)) = Inr (norm v)"
  by (simp add: loads_dumps norm_idem norm_wf)

end

lemma jsort_idem: "jwf v \<Longrightarrow> jsort (jsort v) = jsort v"
proof (induction v rule: jsort.induct)
  case (2 ps)
  let ?f = "\<lambda>p. (fst p, jsort (snd p))"
  let ?s = "sort_key fst (map ?f ps)"
  have "map ?f ?s = ?s"
    using 2 by (intro map_idI) (auto simp: list_all_iff)
  then show ?case by (simp add: sort_key_id_if_sorted)
qed (auto simp: list_all_iff)

interpretation text_compact: json_codec dumps_sorted jsort
  by unfold_locales (simp_all add: dumps_sorted_def loads_dump jwf_jsort jsort_idem)

interpretation text_indented: json_codec dumps_indent1 jsort
  by unfold_locales (simp_all add: dumps_indent1_def loads_dump jwf_jsort jsort_idem)

interpretation text_plain: json_codec dumps_plain "\<lambda>v. v"
  by unfold_locales (simp_all add: dumps_plain_def loads_dump)

end
