(* ===== verification/Models.thy ===== *)
theory Models
  imports Json
begin

text \<open>
  The data of \<^verbatim>\<open>workflow/models.py\<close>: the rows of every model with the statuses, the JSON
  accessors the models define over their text columns, and the database: one set of tables
  per PostgreSQL schema (one schema per space), of which the connection's search path
  selects one.  The world also holds what the handlers share besides the database: the
  broker's queue, the messages sent outside, the registry of workflow definitions and the
  local files of the process, the clock and the supply of task ids.

  A table is a list in the order of creation, so that the model's ordering by
  \<^verbatim>\<open>-created_at\<close> is the reversed list.  An id drawn by \<^verbatim>\<open>uuid()\<close> is a number from a supply
  that never repeats.
\<close>

section \<open>Statuses\<close>

datatype wf_status = WInit | WProgress | WWait | WSuccess | WError | WTimeout | WCanceled

datatype task_status = TInit | TProgress | TNestedProgress | TSuccess | TError | TTimeout | TCanceled

fun wf_status_str :: "wf_status \<Rightarrow> string" where
  "wf_status_str WInit = ''init''"
| "wf_status_str WProgress = ''progress''"
| "wf_status_str WWait = ''wait''"
| "wf_status_str WSuccess = ''success''"
| "wf_status_str WError = ''error''"
| "wf_status_str WTimeout = ''timeout''"
| "wf_status_str WCanceled = ''canceled''"

fun task_status_str :: "task_status \<Rightarrow> string" where
  "task_status_str TInit = ''init''"
| "task_status_str TProgress = ''progress''"
| "task_status_str TNestedProgress = ''nested-progress''"
| "task_status_str TSuccess = ''success''"
| "task_status_str TError = ''error''"
| "task_status_str TTimeout = ''timeout''"
| "task_status_str TCanceled = ''canceled''"

lemma wf_status_str_inj: "wf_status_str a = wf_status_str b \<Longrightarrow> a = b"
  by (cases a; cases b) simp_all

lemma task_status_str_inj: "task_status_str a = task_status_str b \<Longrightarrow> a = b"
  by (cases a; cases b) simp_all

section \<open>Rows\<close>

record user_row =
  user_id :: nat
  username :: string
  password :: string
  language :: string
  timezone :: string
  two_factor_verification :: bool
  json_data :: "string option"
  is_verified :: bool
  is_bot :: bool
  is_staff :: bool
  is_superuser :: bool

record space_row =
  space_id :: nat
  space_name :: "string option"
  realm_code :: "string option"
  space_code :: string

record template_row =
  tp_id :: nat
  tp_name :: "string option"
  tp_user_code :: "string option"
  tp_notes :: "string option"
  tp_data :: json
  tp_space :: nat
  tp_owner :: nat
  tp_created_at :: nat

record workflow_row =
  wf_id :: nat
  wf_name :: "string option"
  workflow_template :: "nat option"
  current_node_id :: "string option"
  last_task_output :: json
  wf_node_id :: "string option"
  wf_user_code :: "string option"
  wf_status :: wf_status
  wf_payload_data :: "string option"
  periodic :: bool
  is_manager :: bool
  platform_task_id :: "int option"
  wf_space :: nat
  wf_owner :: nat
  wf_crontab :: "nat option"
  wf_finished_at :: "nat option"
  parent :: "nat option"

record task_row =
  task_id :: nat
  task_workflow :: nat
  task_node_id :: "string option"
  celery_task_id :: "nat option"
  task_name :: "string option"
  source_code :: "string option"
  task_status :: task_status
  worker_name :: "string option"
  task_type :: "string option"
  task_payload_data :: "string option"
  result_data :: "string option"
  progress_data :: "string option"
  task_log :: "string option"
  task_notes :: "string option"
  error_message :: "string option"
  verbose_name :: "string option"
  verbose_result :: "string option"
  previous_data :: "string option"
  is_hook :: bool
  task_finished_at :: "nat option"
  task_space :: "nat option"

record crontab_row =
  cron_id :: nat
  cron_minute :: string
  cron_hour :: string
  cron_day_of_month :: string
  cron_month_of_year :: string
  cron_day_of_week :: string

text \<open>\<^verbatim>\<open>Schedule\<close> with the columns of \<^verbatim>\<open>PeriodicTask\<close> its operations use.\<close>

record schedule_row =
  sched_id :: nat
  sched_name :: string
  sched_enabled :: bool
  sched_queue :: "string option"
  sched_task :: string
  sched_args :: string
  sched_kwargs :: string
  sched_crontab :: "nat option"
  sched_last_run_at :: "nat option"
  sched_user_code :: string
  sched_notes :: "string option"
  sched_payload :: json
  sched_is_manager :: bool
  sched_space :: nat
  sched_owner :: nat
  workflow_user_code :: string

text \<open>The tables of one schema, with the sequences their ids are drawn from.\<close>

record schema_db =
  spaces :: "space_row list"
  users :: "user_row list"
  templates :: "template_row list"
  workflows :: "workflow_row list"
  tasks :: "task_row list"
  schedules :: "schedule_row list"
  crontabs :: "crontab_row list"
  wf_seq :: nat
  task_seq :: nat
  row_seq :: nat

section \<open>JSON accessors\<close>

text \<open>\<^verbatim>\<open>Workflow.payload\<close>: an absent or unreadable text reads as the empty dictionary, and a
  value that is false in Python is not stored.\<close>

definition payload :: "workflow_row \<Rightarrow> json" where
  "payload w =
     (case wf_payload_data w of
        None \<Rightarrow> JObj []
      | Some s \<Rightarrow> if s = [] then JObj [] else (case json_loads s of Inl _ \<Rightarrow> JObj [] | Inr v \<Rightarrow> v))"

definition set_payload :: "json \<Rightarrow> workflow_row \<Rightarrow> workflow_row" where
  "set_payload v w = w\<lparr>wf_payload_data := if truthy v then Some (dumps_sorted v) else None\<rparr>"

text \<open>\<^verbatim>\<open>User.data\<close> is alike but reads as \<^verbatim>\<open>None\<close>.\<close>

definition user_data :: "user_row \<Rightarrow> json" where
  "user_data u =
     (case json_data u of
        None \<Rightarrow> JNull
      | Some s \<Rightarrow> if s = [] then JNull else (case json_loads s of Inl _ \<Rightarrow> JNull | Inr v \<Rightarrow> v))"

definition set_user_data :: "json \<Rightarrow> user_row \<Rightarrow> user_row" where
  "set_user_data v u = u\<lparr>json_data := if truthy v then Some (dumps_sorted v) else None\<rparr>"

text \<open>The accessors of \<^verbatim>\<open>Task\<close> store every value but \<^verbatim>\<open>None\<close>, and reading may raise.\<close>

definition read_json_text :: "string option \<Rightarrow> exc + json" where
  "read_json_text d = (case d of None \<Rightarrow> Inr JNull | Some s \<Rightarrow> json_loads s)"

definition json_text :: "json \<Rightarrow> string option" where
  "json_text v = (if v = JNull then None else Some (dumps_indent1 v))"

definition task_payload :: "task_row \<Rightarrow> exc + json" where
  "task_payload t = read_json_text (task_payload_data t)"

definition set_task_payload :: "json \<Rightarrow> task_row \<Rightarrow> task_row" where
  "set_task_payload v t = t\<lparr>task_payload_data := json_text v\<rparr>"

definition result :: "task_row \<Rightarrow> exc + json" where
  "result t = read_json_text (result_data t)"

definition set_result :: "json \<Rightarrow> task_row \<Rightarrow> task_row" where
  "set_result v t = t\<lparr>result_data := json_text v\<rparr>"

definition progress :: "task_row \<Rightarrow> exc + json" where
  "progress t = read_json_text (progress_data t)"

definition set_progress :: "json \<Rightarrow> task_row \<Rightarrow> task_row" where
  "set_progress v t = t\<lparr>progress_data := json_text v\<rparr>"

definition previous :: "task_row \<Rightarrow> exc + json" where
  "previous t = read_json_text (previous_data t)"

definition set_previous :: "json \<Rightarrow> task_row \<Rightarrow> task_row" where
  "set_previous v t = t\<lparr>previous_data := json_text v\<rparr>"

definition opt_str :: "string option \<Rightarrow> json" where
  "opt_str x = (case x of None \<Rightarrow> JNull | Some s \<Rightarrow> JStr s)"

text \<open>\<^verbatim>\<open>Workflow.to_dict\<close>\<close>

definition to_dict :: "bool \<Rightarrow> workflow_row \<Rightarrow> json" where
  "to_dict with_payload w =
     JObj ([(''id'', JInt (int (wf_id w))), (''name'', opt_str (wf_name w)),
            (''user_code'', opt_str (wf_user_code w)),
            (''status'', JStr (wf_status_str (wf_status w))),
            (''periodic'', JBool (periodic w))]
       @ (if with_payload then [(''payload'', payload w)] else []))"

text \<open>\<^verbatim>\<open>str(workflow)\<close>: an f-string prints \<^verbatim>\<open>None\<close> for an absent code.\<close>

definition workflow_str :: "workflow_row \<Rightarrow> string" where
  "workflow_str w = (case wf_user_code w of None \<Rightarrow> ''None'' | Some c \<Rightarrow> c)"

text \<open>\<^verbatim>\<open>Task.mark_task_as_finished\<close>, at the time \<^verbatim>\<open>now()\<close>.\<close>

definition mark_task_as_finished :: "nat \<Rightarrow> task_row \<Rightarrow> task_row" where
  "mark_task_as_finished time t = t\<lparr>task_finished_at := Some time\<rparr>"

lemma payload_set_payload:
  "jwf v \<Longrightarrow> payload (set_payload v w) = (if truthy v then jsort v else JObj [])"
  by (simp add: payload_def set_payload_def text_compact.dumps_nonempty text_compact.loads_dumps)

lemma user_data_set_user_data:
  "jwf v \<Longrightarrow> user_data (set_user_data v u) = (if truthy v then jsort v else JNull)"
  by (simp add: user_data_def set_user_data_def text_compact.dumps_nonempty text_compact.loads_dumps)

lemma read_json_text_json_text [simp]: "jwf v \<Longrightarrow> read_json_text (json_text v) = Inr (jsort v)"
  by (simp add: read_json_text_def json_text_def text_indented.loads_dumps)

lemma task_accessors:
  assumes "jwf v"
  shows "task_payload (set_task_payload v t) = Inr (jsort v)"
    and "result (set_result v t) = Inr (jsort v)"
    and "progress (set_progress v t) = Inr (jsort v)"
    and "previous (set_previous v t) = Inr (jsort v)"
  using assms
  by (simp_all add: task_payload_def set_task_payload_def result_def set_result_def
      progress_def set_progress_def previous_def set_previous_def)

lemma jsort_null [simp]: "jsort v = JNull \<longleftrightarrow> v = JNull"
  by (cases v) simp_all

text \<open>
  The JSON columns of a workflow, a user and a task read back what was stored in them, up to
  the order of keys (an empty payload as the empty dictionary), and storing again what was
  read changes no row.
\<close>

lemma json_columns_read_back:
  assumes "jwf v"
  shows "payload (set_payload v w) = (if truthy v then jsort v else JObj []) \<and>
    user_data (set_user_data v u) = (if truthy v then jsort v else JNull) \<and>
    task_payload (set_task_payload v t) = Inr (jsort v) \<and> result (set_result v t) = Inr (jsort v) \<and>
    progress (set_progress v t) = Inr (jsort v) \<and> previous (set_previous v t) = Inr (jsort v) \<and>
    set_payload (payload (set_payload v w)) (set_payload v w) = set_payload v w \<and>
    set_result (jsort v) (set_result v t) = set_result v t"
  using assms task_accessors [OF assms]
  by (simp add: payload_set_payload user_data_set_user_data)
    (simp add: set_payload_def set_result_def json_text_def dumps_sorted_def dumps_indent1_def jsort_idem)

lemma json_columns_sample:
  "\<forall>t. result (set_result (JObj [(''b'', JInt 1), (''a'', JNull)]) t) = Inr (JObj [(''a'', JNull), (''b'', JInt 1)])"
proof -
  have "jwf (JObj [(''b'', JInt 1), (''a'', JNull)])" by simp
  moreover have "jsort (JObj [(''b'', JInt 1), (''a'', JNull)]) = JObj [(''a'', JNull), (''b'', JInt 1)]" by code_simp
  ultimately show ?thesis using json_columns_read_back by metis
qed

lemma payload_wf: "jwf (payload w)" if "\<And>s v. wf_payload_data w = Some s \<Longrightarrow> json_loads s = Inr v \<Longrightarrow> jwf v"
  using that by (auto simp: payload_def split: option.splits sum.splits)

end
