(* ===== verification/Graph.thy ===== *)
theory Graph
  imports Json
begin

text \<open>
  The graph of a version 2 workflow, as the handlers read it from the template's JSON
  (\<^verbatim>\<open>workflow_template.data["workflow"]\<close>): the dictionary of nodes, the list of connections,
  the adjacency list, the start nodes, the branch a condition takes, and the inputs of a
  node.  The same construction of the adjacency list appears in
  \<^verbatim>\<open>tasks/workflows.py:execute_workflow_v2\<close>, \<^verbatim>\<open>models.py:Task.handle_task_success\<close> and
  \<^verbatim>\<open>views.py:resume_workflow\<close>.
\<close>

section \<open>Reading JSON that may have the wrong shape\<close>

definition rbind :: "exc + 'a \<Rightarrow> ('a \<Rightarrow> exc + 'b) \<Rightarrow> exc + 'b" where
  "rbind r f = (case r of Inl e \<Rightarrow> Inl e | Inr x \<Rightarrow> f x)"

lemma rbind_simps [simp]: "rbind (Inl e) f = Inl e" "rbind (Inr x) f = f x"
  by (simp_all add: rbind_def)

lemma rbind_Inr: "rbind r f = Inr y \<longleftrightarrow> (\<exists>x. r = Inr x \<and> f x = Inr y)"
  by (cases r) simp_all

fun traverse :: "('a \<Rightarrow> exc + 'b) \<Rightarrow> 'a list \<Rightarrow> exc + 'b list" where
  "traverse f [] = Inr []"
| "traverse f (x # xs) = rbind (f x) (\<lambda>y. rbind (traverse f xs) (\<lambda>ys. Inr (y # ys)))"

text \<open>\<^verbatim>\<open>v[k1][k2]...\<close>\<close>

fun path :: "json \<Rightarrow> string list \<Rightarrow> exc + json" where
  "path v [] = Inr v"
| "path v (k # ks) = rbind (subscript v k) (\<lambda>u. path u ks)"

definition as_str :: "json \<Rightarrow> exc + string" where
  "as_str v = (case v of JStr s \<Rightarrow> Inr s | _ \<Rightarrow> Inl TypeError)"

text \<open>Iterating over a value: only lists (and what is empty) hold JSON objects.\<close>

definition as_list :: "json \<Rightarrow> exc + json list" where
  "as_list v = (case v of JList vs \<Rightarrow> Inr vs | JObj [] \<Rightarrow> Inr [] | JStr [] \<Rightarrow> Inr [] | _ \<Rightarrow> Inl TypeError)"

definition opt_key :: "json \<Rightarrow> string \<Rightarrow> string option" where
  "opt_key v k = (case subscript v k of Inr (JStr s) \<Rightarrow> Some s | _ \<Rightarrow> None)"

section \<open>Nodes and connections\<close>

text \<open>
  A connection of the editor has the two ends as strings; its port names are looked up only
  where a handler needs them, and raise there when they are missing.
\<close>

record connection =
  source :: string
  target :: string
  source_output :: "string option"
  target_input :: "string option"

type_synonym nodes = "(string, json) dict"
type_synonym adjacency = "(string, string list) dict"

definition read_connection :: "json \<Rightarrow> exc + connection" where
  "read_connection v =
     rbind (path v [''source'']) (\<lambda>a. rbind (as_str a) (\<lambda>src.
     rbind (path v [''target'']) (\<lambda>b. rbind (as_str b) (\<lambda>tgt.
       Inr \<lparr>source = src, target = tgt, source_output = opt_key v ''sourceOutput'',
            target_input = opt_key v ''targetInput''\<rparr>))))"

definition read_node :: "json \<Rightarrow> exc + (string \<times> json)" where
  "read_node v = rbind (path v [''id'']) (\<lambda>a. rbind (as_str a) (\<lambda>i. Inr (i, v)))"

text \<open>\<^verbatim>\<open>{node["id"]: node for node in workflow_data["workflow"]["nodes"]}\<close>\<close>

definition template_nodes :: "json \<Rightarrow> exc + nodes" where
  "template_nodes data =
     rbind (path data [''workflow'', ''nodes'']) (\<lambda>v. rbind (as_list v) (\<lambda>vs.
     rbind (traverse read_node vs) (\<lambda>ps. Inr (dict_of ps))))"

definition template_connections :: "json \<Rightarrow> exc + connection list" where
  "template_connections data =
     rbind (path data [''workflow'', ''connections'']) (\<lambda>v. rbind (as_list v) (traverse read_connection))"

definition node_type :: "json \<Rightarrow> exc + json" where
  "node_type node = path node [''data'', ''node'', ''type'']"

section \<open>The adjacency list\<close>

text \<open>\<^verbatim>\<open>for connection in connections: adjacency_list[connection["source"]].append(connection["target"])\<close>\<close>

fun add_edges :: "adjacency \<Rightarrow> connection list \<Rightarrow> exc + adjacency" where
  "add_edges adj [] = Inr adj"
| "add_edges adj (c # cs) =
     (case map_of adj (source c) of
        None \<Rightarrow> Inl (KeyError (source c))
      | Some ts \<Rightarrow> add_edges (AList.update (source c) (ts @ [target c]) adj) cs)"

definition build_adjacency :: "nodes \<Rightarrow> connection list \<Rightarrow> exc + adjacency" where
  "build_adjacency ns conns = add_edges (map (\<lambda>n. (n, [])) (keys ns)) conns"

text \<open>\<^verbatim>\<open>adjacency_list.get(node_id, [])\<close>\<close>

definition successors :: "adjacency \<Rightarrow> string \<Rightarrow> string list" where
  "successors adj n = (case map_of adj n of None \<Rightarrow> [] | Some ts \<Rightarrow> ts)"

definition targets_of :: "connection list \<Rightarrow> string \<Rightarrow> string list" where
  "targets_of conns n = map target (filter (\<lambda>c. source c = n) conns)"

lemma add_edges_ok:
  "(\<exists>adj'. add_edges adj conns = Inr adj') \<longleftrightarrow> (\<forall>c \<in> set conns. source c \<in> fst ` set adj)"
proof (induction conns arbitrary: adj)
  case (Cons c cs)
  show ?case
  proof (cases "map_of adj (source c)")
    case None
    then have "source c \<notin> fst ` set adj" by (simp add: map_of_eq_None_iff)
    with None show ?thesis by auto
  next
    case (Some ts)
    then have c: "source c \<in> fst ` set adj" by (metis domI dom_map_of_conv_image_fst)
    have "fst ` set (AList.update (source c) (ts @ [target c]) adj) = insert (source c) (fst ` set adj)"
      by (metis dom_map_of_conv_image_fst dom_fun_upd option.distinct(1) update_conv')
    with c have "fst ` set (AList.update (source c) (ts @ [target c]) adj) = fst ` set adj" by auto
    with c show ?thesis using Some Cons [of "AList.update (source c) (ts @ [target c]) adj"] by simp
  qed
qed simp

lemma add_edges_lookup:
  "add_edges adj conns = Inr adj' \<Longrightarrow>
    map_of adj' n = map_option (\<lambda>ts. ts @ targets_of conns n) (map_of adj n)"
proof (induction conns arbitrary: adj)
  case Nil
  then show ?case by (simp add: targets_of_def option.map_ident)
next
  case (Cons c cs)
  then obtain ts where ts: "map_of adj (source c) = Some ts"
    by (auto split: option.splits)
  with Cons.prems have "add_edges (AList.update (source c) (ts @ [target c]) adj) cs = Inr adj'" by simp
  from Cons.IH [OF this] ts show ?case
    by (auto simp: update_conv' targets_of_def)
qed

lemma map_of_no_edges: "map_of (map (\<lambda>n. (n, [])) ks) n = (if n \<in> set ks then Some [] else None)"
  by (induction ks) auto

lemma build_adjacency_ok:
  "(\<exists>adj. build_adjacency ns conns = Inr adj) \<longleftrightarrow> (\<forall>c \<in> set conns. source c \<in> set (keys ns))"
  by (simp add: build_adjacency_def add_edges_ok image_image)

lemma build_adjacency_lookup:
  assumes "build_adjacency ns conns = Inr adj"
  shows "map_of adj n = (if n \<in> set (keys ns) then Some (targets_of conns n) else None)"
  using add_edges_lookup [OF assms [unfolded build_adjacency_def], of n]
  by (simp add: map_of_no_edges)

lemma successors_build:
  assumes "build_adjacency ns conns = Inr adj"
  shows "successors adj n = targets_of conns n"
proof (cases "n \<in> set (keys ns)")
  case True
  with build_adjacency_lookup [OF assms] show ?thesis by (simp add: successors_def)
next
  case False
  from assms build_adjacency_ok [of ns conns] have "\<forall>c \<in> set conns. source c \<in> set (keys ns)" by blast
  with False have "targets_of conns n = []" by (auto simp: targets_of_def filter_empty_conv)
  with False build_adjacency_lookup [OF assms] show ?thesis by (simp add: successors_def)
qed

section \<open>Start nodes\<close>

definition start_nodes :: "nodes \<Rightarrow> connection list \<Rightarrow> string list" where
  "start_nodes ns conns = filter (\<lambda>n. \<not> list_ex (\<lambda>c. n = target c) conns) (keys ns)"

definition edges :: "connection list \<Rightarrow> (string \<times> string) set" where
  "edges conns = (\<lambda>c. (source c, target c)) ` set conns"

lemma start_nodes_iff:
  "n \<in> set (start_nodes ns conns) \<longleftrightarrow> n \<in> set (keys ns) \<and> n \<notin> target ` set conns"
  by (auto simp: start_nodes_def list_ex_iff)

lemma finite_edges [simp]: "finite (edges conns)"
  by (simp add: edges_def)

text \<open>In an acyclic graph whose connections stay inside it, going backwards ends at a start node.\<close>

lemma reaches_from_start:
  assumes acyc: "acyclic (edges conns)"
    and closed: "\<forall>c \<in> set conns. source c \<in> set (keys ns)"
    and n: "n \<in> set (keys ns)"
  shows "\<exists>r \<in> set (start_nodes ns conns). (r, n) \<in> (edges conns)\<^sup>*"
proof -
  have "wf (edges conns)" using acyc by (simp add: finite_acyclic_wf)
  then show ?thesis using n
  proof (induction n rule: wf_induct_rule)
    case (less n)
    show ?case
    proof (cases "n \<in> set (start_nodes ns conns)")
      case False
      with less.prems obtain c where c: "c \<in> set conns" "target c = n"
        by (auto simp: start_nodes_iff)
      then have e: "(source c, n) \<in> edges conns" by (auto simp: edges_def)
      moreover from c closed have "source c \<in> set (keys ns)" by blast
      ultimately obtain r where "r \<in> set (start_nodes ns conns)" "(r, source c) \<in> (edges conns)\<^sup>*"
        using less.IH by blast
      with e show ?thesis by (meson rtrancl.rtrancl_into_rtrancl)
    qed auto
  qed
qed

section \<open>Conditions\<close>

text \<open>\<^verbatim>\<open>utils.py:get_next_node_by_condition\<close>: the search loop, then the function.\<close>

fun follow_output :: "string \<Rightarrow> string \<Rightarrow> connection list \<Rightarrow> exc + string option" where
  "follow_output cur out [] = Inr None"
| "follow_output cur out (c # cs) =
     (if source c = cur then
        (case source_output c of
           None \<Rightarrow> Inl (KeyError ''sourceOutput'')
         | Some p \<Rightarrow> if p = out then Inr (Some (target c)) else follow_output cur out cs)
      else follow_output cur out cs)"

definition get_next_node_by_condition :: "string \<Rightarrow> json \<Rightarrow> connection list \<Rightarrow> exc + string option" where
  "get_next_node_by_condition cur res conns =
     rbind (is_in ''result'' res) (\<lambda>b.
       if b then rbind (subscript res ''result'') (\<lambda>v.
         follow_output cur (if truthy v then ''out_true'' else ''out_false'') conns)
       else Inl (Raised ''Exception'' ''Wrong condition_result''))"

definition ports_ok :: "connection list \<Rightarrow> bool" where
  "ports_ok conns \<longleftrightarrow> list_all (\<lambda>c. source_output c \<noteq> None \<and> target_input c \<noteq> None) conns"

definition leaves :: "string \<Rightarrow> string \<Rightarrow> connection \<Rightarrow> bool" where
  "leaves cur out c \<longleftrightarrow> source c = cur \<and> source_output c = Some out"

lemma follow_output_ports:
  "ports_ok conns \<Longrightarrow> follow_output cur out conns = Inr (map_option target (find (leaves cur out) conns))"
  by (induction conns) (auto simp: ports_ok_def leaves_def)

lemma follow_output_target:
  "follow_output cur out conns = Inr (Some t) \<Longrightarrow> t \<in> set (targets_of conns cur)"
  by (induction conns) (auto simp: targets_of_def split: if_splits option.splits)

lemma condition_target:
  "get_next_node_by_condition cur res conns = Inr (Some t) \<Longrightarrow> t \<in> set (targets_of conns cur)"
  by (auto simp: get_next_node_by_condition_def rbind_Inr split: if_splits dest: follow_output_target)

section \<open>Inputs\<close>

text \<open>\<^verbatim>\<open>[conn["source"] for conn in connections if conn["target"] == node_id]\<close>\<close>

definition input_nodes :: "string \<Rightarrow> connection list \<Rightarrow> string list" where
  "input_nodes n conns = map source (filter (\<lambda>c. target c = n) conns)"

text \<open>
  The loop of \<^verbatim>\<open>process_next_node\<close> that looks for the node connected to one input port of
  the current node: the first connection wins.
\<close>

fun connected_to :: "string \<Rightarrow> string \<Rightarrow> connection list \<Rightarrow> exc + string option" where
  "connected_to cur port [] = Inr None"
| "connected_to cur port (c # cs) =
     (if target c = cur then
        (case target_input c of
           None \<Rightarrow> Inl (KeyError ''targetInput'')
         | Some p \<Rightarrow> if p = port then Inr (Some (source c)) else connected_to cur port cs)
      else connected_to cur port cs)"

lemma connected_to_input:
  "connected_to cur port conns = Inr (Some s) \<Longrightarrow> s \<in> set (input_nodes cur conns)"
  by (induction conns) (auto simp: input_nodes_def split: if_splits option.splits)

section \<open>Properties of the graph\<close>

lemma add_edges_error:
  "add_edges adj conns = Inl e \<Longrightarrow> \<exists>c \<in> set conns. e = KeyError (source c) \<and> source c \<notin> fst ` set adj"
proof (induction conns arbitrary: adj)
  case (Cons c cs)
  show ?case
  proof (cases "map_of adj (source c)")
    case None
    with Cons.prems show ?thesis by (auto simp: map_of_eq_None_iff)
  next
    case (Some ts)
    with Cons.prems obtain c' where c': "c' \<in> set cs" "e = KeyError (source c')"
        "source c' \<notin> fst ` set (AList.update (source c) (ts @ [target c]) adj)"
      using Cons.IH by fastforce
    moreover have "fst ` set adj \<subseteq> fst ` set (AList.update (source c) (ts @ [target c]) adj)"
      by (metis dom_fun_upd dom_map_of_conv_image_fst option.distinct(1) subset_insertI update_conv')
    ultimately show ?thesis by (intro bexI [of _ c']) auto
  qed
qed simp

text \<open>
  C15: the adjacency list is built exactly when every connection leaves a node of the graph,
  otherwise the missing node is the error; it has an entry for every node and no other, and
  a node's successors are the targets of its connections, in the order of the connections.
\<close>

theorem build_adjacency_correct:
  "case build_adjacency ns conns of
     Inl e \<Rightarrow> \<exists>c. c \<in> set conns \<and> e = KeyError (source c) \<and> source c \<notin> set (keys ns)
   | Inr adj \<Rightarrow> source ` set conns \<subseteq> set (keys ns) \<and>
       (\<forall>n. map_of adj n = (if n \<in> set (keys ns) then Some (targets_of conns n) else None) \<and>
          successors adj n = targets_of conns n)"
proof (cases "build_adjacency ns conns")
  case (Inl e)
  then show ?thesis using add_edges_error [of "map (\<lambda>n. (n, [])) (keys ns)" conns e]
    by (auto simp: build_adjacency_def image_image)
next
  case (Inr adj)
  then have "\<forall>c \<in> set conns. source c \<in> set (keys ns)" using build_adjacency_ok [of ns conns] by blast
  with Inr show ?thesis
    using build_adjacency_lookup [OF Inr] successors_build [OF Inr] by (simp add: image_subset_iff)
qed

text \<open>
  In an acyclic graph every node can be reached from a start node, so that dispatching the
  start nodes leaves no node out.
\<close>

lemma start_nodes_reach_all:
  assumes "acyclic (edges conns)" and "source ` set conns \<subseteq> set (keys ns)" and "n \<in> set (keys ns)"
  shows "\<exists>r. r \<in> set (start_nodes ns conns) \<and> (r, n) \<in> (edges conns)\<^sup>*"
  using reaches_from_start [OF assms(1) _ assms(3)] assms(2) by blast

lemma start_nodes_reach_all_sample:
  "\<exists>r. r \<in> set (start_nodes [(''a'', JNull), (''b'', JNull)]
       [\<lparr>source = ''a'', target = ''b'', source_output = None, target_input = None\<rparr>]) \<and>
     (r, ''b'') \<in> (edges [\<lparr>source = ''a'', target = ''b'', source_output = None, target_input = None\<rparr>])\<^sup>*"
proof (rule start_nodes_reach_all)
  show "acyclic (edges [\<lparr>source = ''a'', target = ''b'', source_output = None, target_input = None\<rparr>])"
    by (simp add: edges_def acyclic_insert wf_acyclic)
qed (simp_all add: keys_def)

text \<open>
  C16: a condition takes the first connection that leaves the node by the output its result
  names, and never another one; a result without the key is refused.
\<close>

theorem condition_takes_named_output:
  assumes "ports_ok conns"
  shows "get_next_node_by_condition cur (JObj ps) conns =
    (case map_of ps ''result'' of
       None \<Rightarrow> Inl (Raised ''Exception'' ''Wrong condition_result'')
     | Some v \<Rightarrow> Inr (map_option target
         (find (leaves cur (if truthy v then ''out_true'' else ''out_false'')) conns)))"
proof (cases "map_of ps ''result''")
  case None
  then have "''result'' \<notin> fst ` set ps" by (simp add: map_of_eq_None_iff)
  with None show ?thesis by (simp add: get_next_node_by_condition_def)
next
  case (Some v)
  then have "''result'' \<in> fst ` set ps" by (metis domI dom_map_of_conv_image_fst)
  with Some show ?thesis by (simp add: get_next_node_by_condition_def follow_output_ports [OF assms])
qed

theorem condition_takes_named_output_witness:
  "get_next_node_by_condition ''a'' (JObj [(''result'', JBool False)])
     [\<lparr>source = ''a'', target = ''b'', source_output = Some ''out_true'', target_input = Some ''in''\<rparr>,
      \<lparr>source = ''a'', target = ''c'', source_output = Some ''out_false'', target_input = Some ''in''\<rparr>]
    = Inr (Some ''c'')"
  by (subst condition_takes_named_output) (simp_all add: ports_ok_def leaves_def)

end
