(* ===== verification/World.thy ===== *)
theory World
  imports Models Graph
begin

text \<open>
  The state the handlers share and the primitives they reach it by: the tables behind the
  connection's search path, the queries and saves of the ORM, the broker, the clock; the
  tenancy functions of \<^verbatim>\<open>workflow/utils.py\<close> (\<^verbatim>\<open>schema_exists\<close>, \<^verbatim>\<open>set_schema_from_context\<close>)
  and what the program takes from outside the repository, as the fields of one record of
  parameters.
\<close>

section \<open>Messages, effects, parameters\<close>

record task_context =
  ctx_realm_code :: "string option"
  ctx_space_code :: "string option"

record step_kwargs =
  kw_workflow_id :: nat
  kw_payload :: json
  kw_context :: task_context
  kw_imports :: json
  kw_previous_output :: json

datatype signature =
    StepSig nat step_kwargs json
  | StartSig nat task_context json
  | EndSig nat task_context json
  | FailureHooksSig nat json "json list" json task_context

text \<open>An element of a chain: a signature, or a group with the queue set on the group itself.\<close>

datatype canvas_item = Single signature | Group "signature list" "json option"

text \<open>What is published to the broker: one constructor for every task the sources send.\<close>

datatype message =
    ExecuteWorkflowV2 nat task_context
  | ProcessNextNode string nat nodes adjacency task_context "connection list"
  | Execute string json bool task_context "nat option" nat
  | MarkAsCanceledInitTasks nat "task_context option"
  | HookChain "(string \<times> nat) list" nat json task_context
  | Chain "canvas_item list" "canvas_item list" "signature list"

text \<open>
  What leaves the process: tasks revoked, and HTTP requests with the claims of the bearer
  token the program signs (\<^verbatim>\<open>None\<close> for a token that another library signs).
\<close>

record token =
  tok_username :: string
  tok_realm_code :: "string option"
  tok_space_code :: "string option"
  tok_exp :: nat
  tok_iat :: nat

datatype http_method = GET | POST | PUT | PATCH | DELETE

datatype effect = Revoke "nat option" | Http http_method string json "token option"

record response =
  status_code :: int
  response_text :: string

datatype step_outcome = NoMain | Returns json | Raises exc

text \<open>
  Code outside the repository: the settings, the interpreter's recursion limit, Celery, the users' code, the remote storage.
  \<open>exec_main\<close> runs the source of a node (\<^verbatim>\<open>exec\<close> and its \<^verbatim>\<open>main\<close>); \<open>import_task\<close> imports
  the modules below a path of the local files and gives the function they registered;
  \<open>publish_fails\<close> is the failure of the broker to take a message;
  \<open>http_reply n\<close> answers the request that is the \<open>n\<close>-th effect of the run.
\<close>

record env =
  domain_name :: string
  storage_root :: string
  hostname :: string
  recursion_limit :: nat
  registered_tasks :: "string list"
  str_exc :: "exc \<Rightarrow> string"
  traceback :: "exc \<Rightarrow> string"
  exec_main :: "string \<Rightarrow> task_row \<Rightarrow> step_kwargs \<Rightarrow> step_outcome"
  import_task :: "string \<Rightarrow> (string, string) dict \<Rightarrow> exc + (task_row \<Rightarrow> step_kwargs \<Rightarrow> exc + json) option"
  remote_listdir :: "string \<Rightarrow> exc + (string list \<times> string list)"
  remote_open :: "string \<Rightarrow> exc + string"
  yaml_load :: "string \<Rightarrow> exc + json"
  publish_fails :: "message \<Rightarrow> exc option"
  http_reply :: "nat \<Rightarrow> http_method \<Rightarrow> string \<Rightarrow> json \<Rightarrow> exc + response"

section \<open>The world\<close>

record world =
  search_path :: string
  schema_names :: "string list"
  schemas :: "string \<Rightarrow> schema_db option"
  queue :: "message list"
  outbox :: "effect list"
  clock :: nat
  uuid_supply :: nat
  registry :: "(string, json) dict"
  local_fs :: "(string, string) dict"

type_synonym 'a io = "(world, 'a) comp"

definition cur_db :: "world \<Rightarrow> schema_db option" where
  "cur_db s = schemas s (search_path s)"

text \<open>A query fails when the search path names no schema that has the tables.\<close>

definition db_query :: "(schema_db \<Rightarrow> exc + 'a) \<Rightarrow> 'a io" where
  "db_query f s = (case cur_db s of None \<Rightarrow> (Inl DatabaseError, s) | Some d \<Rightarrow> (f d, s))"

definition db_update :: "(schema_db \<Rightarrow> schema_db) \<Rightarrow> unit io" where
  "db_update f s =
     (case cur_db s of
        None \<Rightarrow> (Inl DatabaseError, s)
      | Some d \<Rightarrow> (Inr (), s\<lparr>schemas := (schemas s)(search_path s \<mapsto> f d)\<rparr>))"

definition now :: "nat io" where
  "now = query clock"

definition uuid :: "nat io" where
  "uuid = bind (query uuid_supply) (\<lambda>n. seq (modify (\<lambda>s. s\<lparr>uuid_supply := Suc n\<rparr>)) (ret n))"

definition apply_async :: "message \<Rightarrow> unit io" where
  "apply_async m = modify (\<lambda>s. s\<lparr>queue := queue s @ [m]\<rparr>)"

definition emit :: "effect \<Rightarrow> unit io" where
  "emit e = modify (\<lambda>s. s\<lparr>outbox := outbox s @ [e]\<rparr>)"

text \<open>The clock counts milliseconds.\<close>

definition sleep :: "nat \<Rightarrow> unit io" where
  "sleep ms = modify (\<lambda>s. s\<lparr>clock := clock s + ms\<rparr>)"

definition request :: "env \<Rightarrow> http_method \<Rightarrow> string \<Rightarrow> json \<Rightarrow> token option \<Rightarrow> response io" where
  "request env m url body tok =
     bind (query (\<lambda>s. length (outbox s))) (\<lambda>n.
     seq (emit (Http m url body tok)) (lift (http_reply env n m url body)))"

section \<open>Rows by primary key\<close>

definition find_row :: "('a \<Rightarrow> nat) \<Rightarrow> nat \<Rightarrow> 'a list \<Rightarrow> 'a option" where
  "find_row pk i xs = find (\<lambda>y. pk y = i) xs"

text \<open>\<^verbatim>\<open>obj.save()\<close> on an object that has an id: update its row, insert it when it is gone.\<close>

definition save_row :: "('a \<Rightarrow> nat) \<Rightarrow> 'a \<Rightarrow> 'a list \<Rightarrow> 'a list" where
  "save_row pk x xs =
     (if pk x \<in> pk ` set xs then map (\<lambda>y. if pk y = pk x then x else y) xs else xs @ [x])"

text \<open>\<^verbatim>\<open>Model.objects.get(...)\<close>\<close>

definition objects_get :: "('a \<Rightarrow> bool) \<Rightarrow> 'a list \<Rightarrow> exc + 'a" where
  "objects_get P xs =
     (case filter P xs of [] \<Rightarrow> Inl DoesNotExist | [x] \<Rightarrow> Inr x | _ \<Rightarrow> Inl MultipleObjectsReturned)"

text \<open>What every table promises its clients.\<close>

locale row_store =
  fixes pk :: "'a \<Rightarrow> nat"
    and lookup :: "nat \<Rightarrow> 't \<Rightarrow> 'a option"
    and store :: "'a \<Rightarrow> 't \<Rightarrow> 't"
    and rows :: "'t \<Rightarrow> 'a list"
  assumes lookup_store: "lookup i (store x t) = (if i = pk x then Some x else lookup i t)"
    and ids_store: "pk ` set (rows (store x t)) = insert (pk x) (pk ` set (rows t))"
    and lookup_rows: "lookup i t = Some x \<Longrightarrow> x \<in> set (rows t) \<and> pk x = i"
    and lookup_None: "lookup i t = None \<longleftrightarrow> i \<notin> pk ` set (rows t)"
    and distinct_store: "distinct (map pk (rows t)) \<Longrightarrow> distinct (map pk (rows (store x t)))"
    and row_of_store: "y \<in> set (rows (store x t)) \<Longrightarrow> y = x \<or> y \<in> set (rows t)"
begin

lemma store_known: "lookup (pk x) t \<noteq> None \<Longrightarrow> pk ` set (rows (store x t)) = pk ` set (rows t)"
  by (metis ids_store insert_absorb lookup_None)

lemma lookup_store_twice: "lookup i (store x (store y t)) = (if i = pk x then Some x else lookup i (store y t))"
  by (rule lookup_store)

lemma others_stay: "i \<noteq> pk x \<Longrightarrow> lookup i (store x t) = lookup i t"
  by (simp add: lookup_store)

end

lemma find_row_Some: "find_row pk i xs = Some x \<Longrightarrow> x \<in> set xs \<and> pk x = i"
  by (auto simp: find_row_def find_Some_iff)

lemma find_row_None: "find_row pk i xs = None \<longleftrightarrow> i \<notin> pk ` set xs"
  by (auto simp: find_row_def find_None_iff)

lemma find_row_simps [simp]:
  "find_row pk i [] = None"
  "find_row pk i (x # xs) = (if pk x = i then Some x else find_row pk i xs)"
  by (simp_all add: find_row_def)

lemma find_row_append: "find_row pk i (xs @ ys) = (case find_row pk i xs of None \<Rightarrow> find_row pk i ys | r \<Rightarrow> r)"
  by (induction xs) auto

lemma find_row_map_same:
  "pk x \<in> pk ` set xs \<Longrightarrow>
    find_row pk i (map (\<lambda>y. if pk y = pk x then x else y) xs) = (if i = pk x then Some x else find_row pk i xs)"
proof (induction xs)
  case (Cons y ys)
  show ?case
  proof (cases "pk x \<in> pk ` set ys")
    case True
    with Cons.IH show ?thesis by auto
  next
    case False
    then have "map (\<lambda>y. if pk y = pk x then x else y) ys = ys" by (intro map_idI) (metis image_eqI)
    with False Cons.prems show ?thesis by auto
  qed
qed simp

lemma find_row_save_row: "find_row pk i (save_row pk x xs) = (if i = pk x then Some x else find_row pk i xs)"
proof (cases "pk x \<in> pk ` set xs")
  case True
  then show ?thesis by (simp add: save_row_def find_row_map_same)
next
  case False
  then have "find_row pk (pk x) xs = None" by (simp add: find_row_None)
  with False show ?thesis
    by (auto simp: save_row_def find_row_append split: option.splits)
qed

lemma ids_save_row: "pk ` set (save_row pk x xs) = insert (pk x) (pk ` set xs)"
  by (auto simp: save_row_def image_iff split: if_splits)

lemma map_pk_same: "map pk (map (\<lambda>y. if pk y = pk x then x else y) xs) = map pk xs"
  by (induction xs) auto

lemma distinct_save_row: "distinct (map pk xs) \<Longrightarrow> distinct (map pk (save_row pk x xs))"
  unfolding save_row_def by (auto simp: map_pk_same simp del: map_map)

lemma set_save_row: "y \<in> set (save_row pk x xs) \<Longrightarrow> y = x \<or> y \<in> set xs"
  by (auto simp: save_row_def split: if_splits)

interpretation workflow_rows: row_store wf_id "\<lambda>i d. find_row wf_id i (workflows d)"
    "\<lambda>w d. d\<lparr>workflows := save_row wf_id w (workflows d)\<rparr>" workflows
  by unfold_locales
    (simp_all add: find_row_save_row ids_save_row find_row_Some find_row_None distinct_save_row set_save_row)

interpretation task_rows: row_store task_id "\<lambda>i d. find_row task_id i (tasks d)"
    "\<lambda>t d. d\<lparr>tasks := save_row task_id t (tasks d)\<rparr>" tasks
  by unfold_locales
    (simp_all add: find_row_save_row ids_save_row find_row_Some find_row_None distinct_save_row set_save_row)

lemma objects_get_Inr: "objects_get P xs = Inr x \<longleftrightarrow> filter P xs = [x]"
  by (auto simp: objects_get_def split: list.splits)

lemma objects_get_sound: "objects_get P xs = Inr x \<Longrightarrow> x \<in> set xs \<and> P x"
proof -
  assume "objects_get P xs = Inr x"
  then have "x \<in> set (filter P xs)" by (simp add: objects_get_Inr)
  then show ?thesis by simp
qed

section \<open>Queries and saves of the models\<close>

definition get_workflow :: "nat \<Rightarrow> workflow_row io" where
  "get_workflow i = db_query (\<lambda>d. or_raise (find_row wf_id i (workflows d)) DoesNotExist)"

definition get_template :: "nat \<Rightarrow> template_row io" where
  "get_template i = db_query (\<lambda>d. or_raise (find_row tp_id i (templates d)) DoesNotExist)"

definition get_space_row :: "nat \<Rightarrow> space_row io" where
  "get_space_row i = db_query (\<lambda>d. or_raise (find_row space_id i (spaces d)) DoesNotExist)"

definition get_user_row :: "nat \<Rightarrow> user_row io" where
  "get_user_row i = db_query (\<lambda>d. or_raise (find_row user_id i (users d)) DoesNotExist)"

definition get_user :: "string \<Rightarrow> user_row io" where
  "get_user name = db_query (\<lambda>d. objects_get (\<lambda>u. username u = name) (users d))"

definition get_space_by_code :: "string option \<Rightarrow> space_row io" where
  "get_space_by_code code = db_query (\<lambda>d. objects_get (\<lambda>p. Some (space_code p) = code) (spaces d))"

text \<open>\<^verbatim>\<open>Space.objects.all().first()\<close>, of which an attribute is read at once.\<close>

definition first_space :: "space_row io" where
  "first_space = db_query (\<lambda>d. case spaces d of [] \<Rightarrow> Inl AttributeError | p # _ \<Rightarrow> Inr p)"

definition get_task_by_celery_id :: "nat option \<Rightarrow> task_row io" where
  "get_task_by_celery_id c = db_query (\<lambda>d. objects_get (\<lambda>t. celery_task_id t = c) (tasks d))"

definition put_workflow :: "workflow_row \<Rightarrow> unit io" where
  "put_workflow w = db_update (\<lambda>d. d\<lparr>workflows := save_row wf_id w (workflows d)\<rparr>)"

text \<open>The space of a task is a required column: saving a task without one is refused.\<close>

definition save_task :: "task_row \<Rightarrow> unit io" where
  "save_task t =
     (if task_space t = None then throw DatabaseError
      else db_update (\<lambda>d. d\<lparr>tasks := save_row task_id t (tasks d)\<rparr>))"

definition insert_workflow :: "workflow_row \<Rightarrow> workflow_row io" where
  "insert_workflow w =
     bind (db_query (\<lambda>d. Inr (Suc (wf_seq d)))) (\<lambda>i.
       let w' = w\<lparr>wf_id := i\<rparr> in
       seq (db_update (\<lambda>d. d\<lparr>workflows := workflows d @ [w'], wf_seq := i\<rparr>)) (ret w'))"

definition insert_task :: "task_row \<Rightarrow> task_row io" where
  "insert_task t =
     (if task_space t = None then throw DatabaseError
      else bind (db_query (\<lambda>d. Inr (Suc (task_seq d)))) (\<lambda>i.
        let t' = t\<lparr>task_id := i\<rparr> in
        seq (db_update (\<lambda>d. d\<lparr>tasks := tasks d @ [t'], task_seq := i\<rparr>)) (ret t')))"

text \<open>\<^verbatim>\<open>workflow.tasks\<close> in the model's order, newest first.\<close>

definition tasks_of :: "nat \<Rightarrow> schema_db \<Rightarrow> task_row list" where
  "tasks_of i d = rev (filter (\<lambda>t. task_workflow t = i) (tasks d))"

lemma db_query_run: "db_query f s = (Inr x, t) \<longleftrightarrow> t = s \<and> (\<exists>d. cur_db s = Some d \<and> f d = Inr x)"
  by (auto simp: db_query_def split: option.splits)

section \<open>Tenancy\<close>

definition schema_exists :: "string \<Rightarrow> world \<Rightarrow> bool" where
  "schema_exists name s \<longleftrightarrow> name \<in> set (schema_names s)"

text \<open>\<^verbatim>\<open>get_all_tenant_schemas\<close>: in the pattern \<^verbatim>\<open>pg_temp_%\<close> the underscore stands for any character.\<close>

definition is_tenant_schema :: "string \<Rightarrow> bool" where
  "is_tenant_schema name \<longleftrightarrow>
     name \<notin> {''pg_catalog'', ''information_schema''} \<and> \<not> startswith name ''pg_toast'' \<and>
     \<not> (startswith name ''pg_temp'' \<and> 7 < length name)"

definition get_all_tenant_schemas :: "string list io" where
  "get_all_tenant_schemas = query (\<lambda>s. filter is_tenant_schema (schema_names s))"

text \<open>\<^verbatim>\<open>SET search_path TO name\<close>: PostgreSQL folds an unquoted name to lower case.\<close>

definition set_search_path :: "string \<Rightarrow> unit io" where
  "set_search_path name = modify (\<lambda>s. s\<lparr>search_path := ascii_lower name\<rparr>)"

definition set_schema_from_context :: "task_context option \<Rightarrow> unit io" where
  "set_schema_from_context ctx =
     (case ctx of
        None \<Rightarrow> throw (Raised ''Exception'' ''No context in kwargs'')
      | Some c \<Rightarrow>
          (case ctx_space_code c of
             None \<Rightarrow> throw (Raised ''Exception'' ''No space_code in context'')
           | Some code \<Rightarrow>
               if code = [] then throw (Raised ''Exception'' ''No space_code in context'')
               else bind (query (schema_exists code)) (\<lambda>b.
                 if b then set_search_path code
                 else throw (Raised ''Exception'' ''No space_code in database schemas''))))"

section \<open>Frames of the world\<close>

text \<open>
  A frame that the queries respect at once, and one that every effect of a handler respects:
  what is shown of a handler for the second kind holds for each frame of the kind.
\<close>

locale world_frame = frame R for R :: "world \<Rightarrow> world \<Rightarrow> bool"
begin

lemma db_query [framed]: "within R (db_query f)"
  by (rule withinI) (simp add: db_query_def keep split: option.splits)

lemma queries [framed]:
  "within R (get_workflow i)" "within R (get_template i)" "within R (get_space_row i)"
  "within R (get_user_row i)" "within R (get_user n)" "within R (get_space_by_code c)"
  "within R first_space" "within R (get_task_by_celery_id t)" "within R now"
  by (simp_all add: get_workflow_def get_template_def get_space_row_def get_user_row_def
      get_user_def get_space_by_code_def first_space_def get_task_by_celery_id_def now_def
      db_query query)

end

text \<open>The handlers of the engine write to the tables of workflows, tasks and schedules only.\<close>

definition engine_update :: "(schema_db \<Rightarrow> schema_db) \<Rightarrow> bool" where
  "engine_update f \<longleftrightarrow>
     (\<forall>d. spaces (f d) = spaces d \<and> users (f d) = users d \<and> templates (f d) = templates d \<and>
        crontabs (f d) = crontabs d)"

text \<open>The manager of definitions writes to its registry and to the local files only.\<close>

locale local_frame = world_frame +
  assumes local_files [framed]: "within R (modify (\<lambda>s. s\<lparr>local_fs := h s\<rparr>))"
    and definitions [framed]: "within R (modify (\<lambda>s. s\<lparr>registry := g s\<rparr>))"

locale effect_frame = local_frame +
  assumes db_update: "engine_update f \<Longrightarrow> within R (db_update f)"
    and apply_async [framed]: "within R (apply_async m)"
    and emit [framed]: "within R (emit e)"
    and uuid [framed]: "within R uuid"
    and sleep [framed]: "within R (sleep ms)"
begin

lemma request [framed]: "within R (request env m url body tok)"
  by (auto simp: request_def intro!: framed)

lemma put_workflow [framed]: "within R (put_workflow w)"
  by (simp add: put_workflow_def db_update engine_update_def)

lemma save_task [framed]: "within R (save_task t)"
  by (simp add: save_task_def db_update engine_update_def throw)

lemma insert_workflow [framed]: "within R (insert_workflow w)"
  by (auto simp: insert_workflow_def engine_update_def intro!: framed db_update)

lemma insert_task [framed]: "within R (insert_task t)"
  by (auto simp: insert_task_def engine_update_def intro!: framed db_update)

end

text \<open>
  The row of the space in a tenant's schema names that schema, which is how the bootstrap of
  the application writes it; a code holds no dot, the separator of user codes.
\<close>

definition names_schema :: "string \<Rightarrow> space_row \<Rightarrow> bool" where
  "names_schema c sp \<longleftrightarrow> ascii_lower (space_code sp) = c \<and> CHR ''.'' \<notin> set (space_code sp)"

definition home :: "string \<Rightarrow> world \<Rightarrow> bool" where
  "home c s \<longleftrightarrow> (\<forall>d. schemas s c = Some d \<longrightarrow> (\<forall>sp \<in> set (spaces d). names_schema c sp))"

lemma home_cong [simp]:
  "home c (s\<lparr>queue := q\<rparr>) = home c s" "home c (s\<lparr>outbox := es\<rparr>) = home c s"
  "home c (s\<lparr>clock := k\<rparr>) = home c s" "home c (s\<lparr>uuid_supply := n\<rparr>) = home c s"
  "home c (s\<lparr>search_path := p\<rparr>) = home c s" "home c (s\<lparr>registry := g\<rparr>) = home c s"
  "home c (s\<lparr>local_fs := fs\<rparr>) = home c s"
  by (simp_all add: home_def)

text \<open>Only the schema \<open>c\<close> changes, as long as the connection is in it.\<close>

definition inside :: "string \<Rightarrow> world \<Rightarrow> world \<Rightarrow> bool" where
  "inside c s t \<longleftrightarrow>
     (search_path s = c \<and> home c s \<longrightarrow>
        search_path t = c \<and> home c t \<and> (\<forall>x. x \<noteq> c \<longrightarrow> schemas t x = schemas s x))"

interpretation inside: effect_frame "inside c" for c
proof unfold_locales
  show "within (inside c) (db_update f)" if "engine_update f" for f
    using that
    by (auto simp: inside_def within_def db_update_def cur_db_def home_def engine_update_def split: option.splits)
qed (auto simp: inside_def within_def apply_async_def emit_def uuid_def sleep_def bind_def seq_def)

text \<open>What is done with a space of the schema is done with a space that names it.\<close>

lemma inside_get_space_row [framed]:
  assumes "\<And>sp. names_schema c sp \<Longrightarrow> within (inside c) (f sp)"
  shows "within (inside c) (bind (get_space_row i) f)"
proof (rule withinI)
  fix s
  show "inside c s (snd (bind (get_space_row i) f s))"
  proof (cases "search_path s = c \<and> home c s")
    case True
    show ?thesis
    proof (cases "fst (get_space_row i s)")
      case (Inl e)
      then show ?thesis
        by (auto simp: bind_def get_space_row_def db_query_def inside_def split: option.splits prod.splits)
    next
      case (Inr sp)
      then have "get_space_row i s = (Inr sp, s)" and sp: "names_schema c sp"
        using True by (auto simp: get_space_row_def db_query_def cur_db_def home_def
            dest: find_row_Some split: option.splits)
      then show ?thesis using withinD [OF assms [OF sp], of s] by (simp add: bind_value)
    qed
  qed (auto simp: inside_def)
qed

text \<open>Messages and effects are only added; no schema is created or dropped.\<close>

definition appends :: "world \<Rightarrow> world \<Rightarrow> bool" where
  "appends s t \<longleftrightarrow>
     (\<exists>ms. queue t = queue s @ ms) \<and> (\<exists>es. outbox t = outbox s @ es) \<and>
     dom (schemas t) = dom (schemas s) \<and> schema_names t = schema_names s \<and> uuid_supply s \<le> uuid_supply t"

interpretation appends: effect_frame appends
proof unfold_locales
  show "within appends (db_update f)" if "engine_update f" for f
    by (auto simp: appends_def within_def db_update_def cur_db_def split: option.splits)
qed (auto simp: appends_def within_def apply_async_def emit_def uuid_def sleep_def bind_def seq_def)

text \<open>The context selects the schema a task works in.\<close>

definition space_of :: "task_context option \<Rightarrow> string option" where
  "space_of ctx = (case ctx of None \<Rightarrow> None | Some c \<Rightarrow>
     (case ctx_space_code c of None \<Rightarrow> None | Some code \<Rightarrow> if code = [] then None else Some code))"

lemma set_schema_ok:
  "set_schema_from_context ctx s = (Inr u, t) \<longleftrightarrow>
    (\<exists>code. space_of ctx = Some code \<and> schema_exists code s \<and> t = s\<lparr>search_path := ascii_lower code\<rparr>)"
  by (auto simp: set_schema_from_context_def space_of_def set_search_path_def bind_def
      split: option.splits if_splits)

lemma set_schema_raises: "set_schema_from_context ctx s = (Inl e, t) \<Longrightarrow> t = s"
  by (auto simp: set_schema_from_context_def set_search_path_def bind_def
      split: option.splits if_splits)

lemma set_schema_state:
  "snd (set_schema_from_context ctx s) = s \<or>
    (\<exists>code. space_of ctx = Some code \<and> snd (set_schema_from_context ctx s) = s\<lparr>search_path := ascii_lower code\<rparr>)"
  by (auto simp: set_schema_from_context_def space_of_def set_search_path_def bind_def
      split: option.splits)

lemma set_schema_inside:
  assumes "\<And>code. space_of ctx = Some code \<Longrightarrow> ascii_lower code = c"
  shows "within (inside c) (set_schema_from_context ctx)"
proof (rule withinI)
  fix s
  show "inside c s (snd (set_schema_from_context ctx s))"
    using set_schema_state [of ctx s] assms by (auto simp: inside_def)
qed

lemma set_schema_appends: "within appends (set_schema_from_context ctx)"
proof (rule withinI)
  fix s
  show "appends s (snd (set_schema_from_context ctx s))"
    using set_schema_state [of ctx s] by (auto simp: appends_def)
qed

text \<open>
  A task that enters its schema first and stays there changes no other schema, whatever
  schema the worker's connection was left in.
\<close>

definition confined :: "string \<Rightarrow> world \<Rightarrow> world \<Rightarrow> bool" where
  "confined c s t \<longleftrightarrow>
     (search_path s = c \<and> home c s \<longrightarrow> (\<forall>x. x \<noteq> c \<longrightarrow> schemas t x = schemas s x))"

lemma inside_confined: "within (inside c) m \<Longrightarrow> within (confined c) m"
  by (auto simp: within_def inside_def confined_def)

lemma confined_bind:
  assumes "within (inside c) m" and "\<And>x. within (confined c) (f x)"
  shows "within (confined c) (bind m f)"
proof (rule withinI)
  fix s
  obtain r t where r: "m s = (r, t)" by force
  with assms(1) have st: "inside c s t" by (rule within_run)
  show "confined c s (snd (bind m f s))"
  proof (cases r)
    case (Inl e)
    with r st show ?thesis by (auto simp: bind_raise inside_def confined_def)
  next
    case (Inr x)
    with r have "bind m f s = f x t" by (simp add: bind_value)
    then show ?thesis using st withinD [OF assms(2), of t x] by (auto simp: inside_def confined_def)
  qed
qed

lemma confined_get_space_row:
  assumes "\<And>sp. names_schema c sp \<Longrightarrow> within (confined c) (f sp)"
  shows "within (confined c) (bind (get_space_row i) f)"
proof (rule withinI)
  fix s
  show "confined c s (snd (bind (get_space_row i) f s))"
  proof (cases "fst (get_space_row i s)")
    case (Inl e)
    then show ?thesis
      by (auto simp: bind_def get_space_row_def db_query_def confined_def split: option.splits prod.splits)
  next
    case (Inr sp)
    then have g: "get_space_row i s = (Inr sp, s)"
      and sp: "search_path s = c \<Longrightarrow> home c s \<Longrightarrow> names_schema c sp"
      by (auto simp: get_space_row_def db_query_def cur_db_def home_def
          dest: find_row_Some split: option.splits)
    show ?thesis
    proof (cases "search_path s = c \<and> home c s")
      case True
      with sp g show ?thesis using withinD [OF assms, of sp s] by (simp add: bind_value)
    qed (auto simp: confined_def)
  qed
qed

lemma confined_catch:
  assumes "within (confined c) m"
  shows "within (confined c) (catch m (\<lambda>_. ret x))"
proof (rule withinI)
  fix s
  obtain r t where r: "m s = (r, t)" by force
  with assms have "confined c s t" by (rule within_run)
  with r show "confined c s (snd (catch m (\<lambda>_. ret x) s))"
    by (cases r) (simp_all add: catch_raise catch_value)
qed

lemma entered_schema:
  assumes "within (confined (ascii_lower code)) m" and "space_of ctx = Some code"
    and "home (ascii_lower code) s" and "x \<noteq> ascii_lower code"
  shows "schemas (snd (seq (set_schema_from_context ctx) m s)) x = schemas s x"
proof -
  obtain r t where r: "set_schema_from_context ctx s = (r, t)" by force
  show ?thesis
  proof (cases r)
    case (Inl e)
    with r have "t = s" by (auto dest: set_schema_raises)
    with r Inl show ?thesis by (simp add: seq_raise)
  next
    case (Inr u)
    with r have "seq (set_schema_from_context ctx) m s = m t" by (simp add: seq_value)
    moreover from r Inr assms(2) have t: "t = s\<lparr>search_path := ascii_lower code\<rparr>"
      by (auto simp: set_schema_ok)
    moreover from t assms(3) have "home (ascii_lower code) t" by (simp add: home_def)
    ultimately show ?thesis using withinD [OF assms(1), of t] assms(4) by (simp add: confined_def)
  qed
qed

text \<open>Reading: the state is what it was.  Looking definitions up: the tables and the broker are.\<close>

interpretation reading: world_frame "(=)"
  by unfold_locales auto

definition lookup_only :: "world \<Rightarrow> world \<Rightarrow> bool" where
  "lookup_only s t \<longleftrightarrow>
     schemas t = schemas s \<and> queue t = queue s \<and> outbox t = outbox s \<and> uuid_supply t = uuid_supply s \<and>
     clock t = clock s \<and> schema_names t = schema_names s"

interpretation lookup_only: local_frame lookup_only
  by unfold_locales (auto simp: lookup_only_def within_def)

lemma set_search_path_lookup: "within lookup_only (set_search_path name)"
  by (auto simp: within_def lookup_only_def set_search_path_def)

end
