(* ===== verification/Platform.thy ===== *)
theory Platform
  imports World
begin

text \<open>
  \<^verbatim>\<open>workflow/finmars.py\<close>: the calls to the platform's REST API.  Every call signs a token
  for the bot user, builds the address from the space of the current schema, sends one
  request and reads the answer; the waiting functions repeat a call.
\<close>

section \<open>Space, addresses, tokens\<close>

definition get_refresh_token :: "nat \<Rightarrow> token io" where
  "get_refresh_token ttl_minutes =
     bind (get_user ''finmars_bot'') (\<lambda>bot.
     bind now (\<lambda>t.
     bind first_space (\<lambda>sp.
       ret \<lparr>tok_username = username bot, tok_realm_code = realm_code sp,
            tok_space_code = realm_code sp, tok_exp = t + ttl_minutes * 60000, tok_iat = t\<rparr>)))"

text \<open>The deprecated copy of the same function.\<close>

definition get_access_token :: "nat \<Rightarrow> token io" where
  "get_access_token ttl_minutes =
     bind (get_user ''finmars_bot'') (\<lambda>bot.
     bind now (\<lambda>t.
     bind first_space (\<lambda>sp.
       ret \<lparr>tok_username = username bot, tok_realm_code = realm_code sp,
            tok_space_code = realm_code sp, tok_exp = t + ttl_minutes * 60000, tok_iat = t\<rparr>)))"

definition default_ttl :: nat where
  "default_ttl = 60 * 8"

definition get_space_code :: "string io" where
  "get_space_code = bind first_space (\<lambda>sp. ret (space_code sp))"

definition get_realm_code :: "string option io" where
  "get_realm_code = bind first_space (\<lambda>sp. ret (realm_code sp))"

text \<open>\<^verbatim>\<open>get_base_path\<close> concatenates the realm code, and fails when the space has none.\<close>

definition get_base_path :: "env \<Rightarrow> string io" where
  "get_base_path env =
     bind get_realm_code (\<lambda>r.
       case r of
         None \<Rightarrow> throw TypeError
       | Some realm \<Rightarrow> bind get_space_code (\<lambda>sp.
           ret (''https://'' @ domain_name env @ ''/'' @ realm @ ''/'' @ sp)))"

definition space_url :: "env \<Rightarrow> space_row \<Rightarrow> string \<Rightarrow> string" where
  "space_url env sp p =
     (case realm_code sp of
        None \<Rightarrow> ''https://'' @ domain_name env @ ''/'' @ space_code sp @ p
      | Some realm \<Rightarrow>
          if realm = [] then ''https://'' @ domain_name env @ ''/'' @ space_code sp @ p
          else ''https://'' @ domain_name env @ ''/'' @ realm @ ''/'' @ space_code sp @ p)"

section \<open>Calls\<close>

text \<open>The frame every call shares: token, space, address, request, and 200 or an exception.\<close>

definition call_platform :: "env \<Rightarrow> http_method \<Rightarrow> string \<Rightarrow> json \<Rightarrow> json io" where
  "call_platform env m p body =
     bind (get_refresh_token default_ttl) (\<lambda>tok.
     bind first_space (\<lambda>sp.
     bind (request env m (space_url env sp p) body (Some tok)) (\<lambda>r.
       if status_code r \<noteq> 200 then throw (Raised ''Exception'' (response_text r))
       else lift (json_loads (response_text r)))))"

definition execute_expression :: "env \<Rightarrow> json \<Rightarrow> json io" where
  "execute_expression env expression =
     call_platform env POST ''/api/v1/utils/expression/''
       (JObj [(''expression'', expression), (''is_eval'', JBool True)])"

text \<open>
  \<^verbatim>\<open>execute_expression_procedure\<close> takes \<^verbatim>\<open>get_access_token\<close> without calling it, and fails
  when it reads the attribute \<^verbatim>\<open>access_token\<close> of the function.
\<close>

definition execute_expression_procedure :: "env \<Rightarrow> json \<Rightarrow> json io" where
  "execute_expression_procedure env body = throw AttributeError"

definition execute_data_procedure :: "env \<Rightarrow> json \<Rightarrow> json io" where
  "execute_data_procedure env body =
     call_platform env POST ''/api/v1/procedures/data-procedure/execute/'' body"

definition get_data_procedure_instance :: "env \<Rightarrow> string \<Rightarrow> json io" where
  "get_data_procedure_instance env i =
     call_platform env GET (''/api/v1/procedures/data-procedure-instance/'' @ i @ ''/'') JNull"

definition execute_pricing_procedure :: "env \<Rightarrow> json \<Rightarrow> json io" where
  "execute_pricing_procedure env body =
     call_platform env POST ''/api/v1/procedures/pricing-procedure/execute/'' body"

definition execute_task :: "env \<Rightarrow> json \<Rightarrow> json \<Rightarrow> json io" where
  "execute_task env name body =
     call_platform env POST ''/api/v1/tasks/task/execute/''
       (JObj [(''task_name'', name), (''payload'', if body = JNull then JObj [] else body)])"

definition get_task :: "env \<Rightarrow> string \<Rightarrow> json io" where
  "get_task env i = call_platform env GET (''/api/v1/tasks/task/'' @ i @ ''/'') JNull"

definition execute_transaction_import :: "env \<Rightarrow> json \<Rightarrow> json io" where
  "execute_transaction_import env body =
     call_platform env POST ''/api/v1/import/transaction-import/execute/'' body"

definition execute_simple_import :: "env \<Rightarrow> json \<Rightarrow> json io" where
  "execute_simple_import env body =
     call_platform env POST ''/api/v1/import/simple-import/execute/'' body"

text \<open>
  \<^verbatim>\<open>update_task_status\<close> uses \<^verbatim>\<open>get_base_path\<close>; an error answer is logged, not raised.
  \<^verbatim>\<open>raise_for_status\<close> raises for the codes from 400 to 599.
\<close>

definition update_task_status :: "env \<Rightarrow> int \<Rightarrow> wf_status \<Rightarrow> json \<Rightarrow> json \<Rightarrow> json io" where
  "update_task_status env i st res err =
     bind (get_refresh_token default_ttl) (\<lambda>tok.
     bind (get_base_path env) (\<lambda>base.
     bind (request env POST (base @ ''/api/v1/tasks/task/'' @ show_int i @ ''/update-status/'')
            (JObj [(''status'', JStr (wf_status_str st)), (''result'', res), (''error'', err)]) (Some tok)) (\<lambda>r.
       catch (if 400 \<le> status_code r \<and> status_code r < 600 then throw (Raised ''HTTPError'' [])
              else lift (json_loads (response_text r)))
         (\<lambda>_. ret JNull))))"

definition method_of :: "string \<Rightarrow> http_method option" where
  "method_of m =
     (let l = ascii_lower m in
      if l = ''get'' then Some GET else if l = ''post'' then Some POST
      else if l = ''put'' then Some PUT else if l = ''patch'' then Some PATCH
      else if l = ''delete'' then Some DELETE else None)"

text \<open>An unknown method leaves \<^verbatim>\<open>response\<close> as \<^verbatim>\<open>None\<close>, whose status code cannot be read.\<close>

definition request_api :: "env \<Rightarrow> string \<Rightarrow> string \<Rightarrow> json \<Rightarrow> json io" where
  "request_api env p m data =
     bind (get_refresh_token default_ttl) (\<lambda>tok.
     bind first_space (\<lambda>sp.
       case method_of m of
         None \<Rightarrow> throw AttributeError
       | Some mm \<Rightarrow>
           bind (request env mm (space_url env sp p) (if mm = GET \<or> mm = DELETE then JNull else data) (Some tok)) (\<lambda>r.
             if status_code r \<notin> {200, 201, 204} then throw (Raised ''Exception'' (response_text r))
             else if status_code r \<noteq> 204 then lift (json_loads (response_text r))
             else ret (JObj [(''status'', JStr ''no_content'')]))))"

section \<open>Waiting\<close>

definition still_running :: "json \<Rightarrow> bool" where
  "still_running st \<longleftrightarrow> st \<in> {JStr ''progress'', JStr ''P'', JStr ''I''}"

text \<open>
  The recursion of \<^verbatim>\<open>_wait_task_to_complete_recursive\<close>: the first argument is the depth the
  interpreter still allows, beyond which it raises \<^verbatim>\<open>RecursionError\<close>.
\<close>

fun wait_task_rec :: "env \<Rightarrow> nat \<Rightarrow> string \<Rightarrow> int \<Rightarrow> nat \<Rightarrow> int \<Rightarrow> json io" where
  "wait_task_rec env 0 i retries interval counter = throw RecursionError"
| "wait_task_rec env (Suc depth) i retries interval counter =
     (if counter = retries then throw (Raised ''Exception'' ''Task exceeded retries'')
      else
        bind (catch
               (bind (get_task env i) (\<lambda>res. bind (lift (subscript res ''status'')) (\<lambda>st.
                 ret (if still_running st then None else Some res))))
               (\<lambda>_. ret None)) (\<lambda>found.
          case found of
            Some res \<Rightarrow> ret res
          | None \<Rightarrow> seq (sleep (interval * 1000)) (wait_task_rec env depth i retries interval (counter + 1))))"

definition wait_task_to_complete :: "env \<Rightarrow> nat \<Rightarrow> string \<Rightarrow> int \<Rightarrow> nat \<Rightarrow> json io" where
  "wait_task_to_complete env depth i retries interval = wait_task_rec env depth i retries interval 0"

text \<open>\<^verbatim>\<open>_wait_procedure_to_complete_recursive\<close> does not catch a failed call.\<close>

fun wait_procedure_rec :: "env \<Rightarrow> nat \<Rightarrow> string \<Rightarrow> int \<Rightarrow> nat \<Rightarrow> int \<Rightarrow> json io" where
  "wait_procedure_rec env 0 i retries interval counter = throw RecursionError"
| "wait_procedure_rec env (Suc depth) i retries interval counter =
     (if counter = retries then throw (Raised ''Exception'' ''Task exceeded retries'')
      else
        bind (get_data_procedure_instance env i) (\<lambda>res.
        bind (lift (subscript res ''status'')) (\<lambda>st.
          if \<not> still_running st then ret res
          else seq (sleep (interval * 1000)) (wait_procedure_rec env depth i retries interval (counter + 1)))))"

definition wait_procedure_to_complete :: "env \<Rightarrow> nat \<Rightarrow> string \<Rightarrow> int \<Rightarrow> nat \<Rightarrow> json io" where
  "wait_procedure_to_complete env depth i retries interval = wait_procedure_rec env depth i retries interval 0"

text \<open>\<^verbatim>\<open>poll_workflow_status\<close>: the loop over \<^verbatim>\<open>range(max_retries)\<close>, \<^verbatim>\<open>None\<close> when it runs out.\<close>

fun poll_workflow_status :: "env \<Rightarrow> string \<Rightarrow> nat \<Rightarrow> nat \<Rightarrow> json io" where
  "poll_workflow_status env i 0 wait_time = ret JNull"
| "poll_workflow_status env i (Suc k) wait_time =
     bind (request_api env (''/workflow/api/workflow/'' @ i @ ''/'') ''get'' JNull) (\<lambda>data.
     bind (if truthy data then lift (get_or_none data ''status'') else ret JNull) (\<lambda>st.
       if truthy data \<and> st \<in> {JStr ''success'', JStr ''error''} then ret st
       else seq (sleep (wait_time * 1000)) (poll_workflow_status env i k wait_time)))"

section \<open>Secrets\<close>

fun last_secret :: "string \<Rightarrow> json list \<Rightarrow> json \<Rightarrow> exc + json" where
  "last_secret p [] acc = Inr acc"
| "last_secret p (item # items) acc =
     rbind (subscript item ''user_code'') (\<lambda>uc.
       if uc = JStr p then rbind (subscript item ''data'') (\<lambda>d. last_secret p items d)
       else last_secret p items acc)"

definition get_secret :: "env \<Rightarrow> string \<Rightarrow> string \<Rightarrow> json io" where
  "get_secret env p provider =
     bind (get_refresh_token default_ttl) (\<lambda>tok.
       if provider = ''finmars'' then
         bind first_space (\<lambda>sp.
           case realm_code sp of
             None \<Rightarrow> throw TypeError
           | Some realm \<Rightarrow>
               bind (request env GET (''https://'' @ domain_name env @ ''/'' @ realm @ ''/'' @ space_code sp
                       @ ''/api/v1/vault/vault-record/?user_code='' @ p) JNull (Some tok)) (\<lambda>r.
                 if status_code r \<noteq> 200 then throw (Raised ''Exception'' (response_text r))
                 else lift (
                   rbind (json_loads (response_text r)) (\<lambda>data.
                   rbind (subscript data ''results'') (\<lambda>rs. rbind (as_list rs) (\<lambda>items.
                   rbind (last_secret p items JNull) (\<lambda>secret.
                     if truthy secret then Inr secret
                     else Inl (Raised ''Exception'' (''Secret is '' @ p @ '' not found''))))))))
         )
       else if provider = ''hashicorp'' then
         (case split_on (CHR ''/'') p of
            engine # secret_path # _ \<Rightarrow>
              bind first_space (\<lambda>sp.
              bind (request env GET (space_url env sp (''/api/v1/vault/vault-secret/get/?engine_name='' @ engine
                      @ ''&path='' @ secret_path)) JNull (Some tok)) (\<lambda>r.
                if status_code r \<noteq> 200 then throw (Raised ''Exception'' (response_text r))
                else lift (rbind (json_loads (response_text r)) (\<lambda>data. path data [''data'', ''data'']))))
          | _ \<Rightarrow> throw IndexError)
       else throw (Raised ''Exception'' (''Unknown provider '' @ provider)))"

section \<open>What the calls do\<close>

context effect_frame
begin

lemma get_refresh_token [framed]: "within R (get_refresh_token n)"
  by (auto simp: get_refresh_token_def intro!: framed)

lemma get_base_path [framed]: "within R (get_base_path env)"
  by (auto simp: get_base_path_def get_realm_code_def get_space_code_def intro!: framed)

lemma call_platform [framed]: "within R (call_platform env m p body)"
  by (auto simp: call_platform_def intro!: framed)

lemma update_task_status [framed]: "within R (update_task_status env i st res err)"
  by (auto simp: update_task_status_def intro!: framed)

lemma request_api [framed]: "within R (request_api env p m data)"
  by (auto simp: request_api_def intro!: framed split: option.splits)

lemma wait_task_rec [framed]: "within R (wait_task_rec env depth i retries interval counter)"
  by (induction depth arbitrary: counter) (auto simp: get_task_def intro!: framed split: option.splits)

end

end
