(* ===== verification/Manager.thy ===== *)
theory Manager
  imports World
begin

text \<open>
  \<^verbatim>\<open>workflow/system.py:SystemWorkflowManager\<close>: the registry of workflow definitions of the
  process, loaded from the local files; the copy of the space's remote storage to the local
  files; and the lookups of a definition's parts.  The paths are those of \<^verbatim>\<open>os.path\<close>, the
  file patterns those of \<^verbatim>\<open>fnmatch\<close> with \<^verbatim>\<open>*\<close> and \<^verbatim>\<open>?\<close>.
\<close>

section \<open>Paths and patterns\<close>

fun path_join2 :: "string \<Rightarrow> string \<Rightarrow> string" where
  "path_join2 a b =
     (if startswith b ''/'' then b
      else if a = [] \<or> endswith a ''/'' then a @ b else a @ ''/'' @ b)"

text \<open>\<^verbatim>\<open>utils.py:construct_path\<close>, that is \<^verbatim>\<open>os.path.join\<close>\<close>

fun construct_path :: "string list \<Rightarrow> string" where
  "construct_path [] = []"
| "construct_path (a # bs) = foldl path_join2 a bs"

definition basename :: "string \<Rightarrow> string" where
  "basename p = last (split_on (CHR ''/'') p)"

definition dir_prefix :: "string \<Rightarrow> string" where
  "dir_prefix p = (if endswith p ''/'' then p else p @ ''/'')"

fun fnmatch :: "string \<Rightarrow> string \<Rightarrow> bool" where
  "fnmatch [] [] = True"
| "fnmatch (c # s) [] = False"
| "fnmatch [] (p # ps) = (p = CHR ''*'' \<and> fnmatch [] ps)"
| "fnmatch (c # s) (p # ps) =
     (if p = CHR ''*'' then fnmatch (c # s) ps \<or> fnmatch s (p # ps)
      else if p = CHR ''?'' then fnmatch s ps
      else c = p \<and> fnmatch s ps)"

text \<open>\<^verbatim>\<open>Path.suffix\<close>\<close>

definition suffix :: "string \<Rightarrow> string" where
  "suffix name =
     (let ws = split_on (CHR ''.'') name
      in if length ws \<le> 1 \<or> last ws = [] \<or> join ''.'' (butlast ws) = [] then [] else CHR ''.'' # last ws)"

definition lstrip_slash :: "string \<Rightarrow> string" where
  "lstrip_slash = dropWhile (\<lambda>c. c = CHR ''/'')"

section \<open>Loading definitions\<close>

text \<open>\<^verbatim>\<open>config["workflow"][k] = v\<close> on a configuration whose part is a dictionary.\<close>

definition set_in_workflow :: "string \<Rightarrow> json \<Rightarrow> json \<Rightarrow> exc + json" where
  "set_in_workflow k v config =
     rbind (subscript config ''workflow'') (\<lambda>part.
       case (config, part) of
         (JObj cs, JObj ps) \<Rightarrow> Inr (JObj (AList.update ''workflow'' (JObj (AList.update k v ps)) cs))
       | _ \<Rightarrow> Inl TypeError)"

text \<open>The body of the loop of \<^verbatim>\<open>load_workflows_for_schema\<close>: one file, its key and its configuration.\<close>

definition load_config :: "env \<Rightarrow> space_row \<Rightarrow> string \<Rightarrow> string \<Rightarrow> exc + (string \<times> json)" where
  "load_config env sp name content =
     rbind (if suffix name \<in> {''.yaml'', ''.yml''} then yaml_load env content else json_loads content) (\<lambda>config.
     rbind (path config [''workflow'', ''user_code'']) (\<lambda>uc.
     rbind (set_in_workflow ''realm_code'' (opt_str (realm_code sp)) config) (\<lambda>config1.
     rbind (set_in_workflow ''space_code'' (JStr (space_code sp)) config1) (\<lambda>config2.
     rbind (as_str uc) (\<lambda>user_code.
       Inr (space_code sp @ ''.'' @ user_code, config2))))))"

definition is_workflow_file :: "string \<Rightarrow> string \<Rightarrow> bool" where
  "is_workflow_file root f \<longleftrightarrow> startswith f (dir_prefix root) \<and> fnmatch (basename f) ''workflow.*''"

definition load_workflow_file :: "env \<Rightarrow> space_row \<Rightarrow> string \<times> string \<Rightarrow> unit io" where
  "load_workflow_file env sp file =
     (if suffix (basename (fst file)) \<in> {''.yaml'', ''.yml'', ''.json''} then
        (case load_config env sp (basename (fst file)) (snd file) of
           Inl _ \<Rightarrow> ret ()
         | Inr (key, config) \<Rightarrow> modify (\<lambda>s. s\<lparr>registry := AList.update key config (registry s)\<rparr>))
      else ret ())"

definition workflows_root :: "env \<Rightarrow> string \<Rightarrow> string" where
  "workflows_root env code = construct_path [storage_root env, ''local'', code, ''workflows'']"

definition load_workflows_for_schema :: "env \<Rightarrow> string \<Rightarrow> unit io" where
  "load_workflows_for_schema env schema =
     catch
       (bind first_space (\<lambda>sp.
        bind (query local_fs) (\<lambda>fs.
          for_each (filter (\<lambda>(f, _). is_workflow_file (workflows_root env (space_code sp)) f) fs)
            (load_workflow_file env sp))))
       (\<lambda>_. ret ())"

definition tenant_schemas :: "string option \<Rightarrow> string list io" where
  "tenant_schemas sc =
     bind get_all_tenant_schemas (\<lambda>names.
       case sc of
         None \<Rightarrow> ret names
       | Some code \<Rightarrow>
           if code = [] then ret names
           else if ascii_lower code \<notin> set names
             then throw (Raised ''Exception'' (''Schema '' @ code @ '' does not exist''))
           else ret [code])"

definition register_workflows :: "env \<Rightarrow> string option \<Rightarrow> unit io" where
  "register_workflows env sc =
     bind (tenant_schemas sc) (\<lambda>names.
     seq (for_each names (\<lambda>schema.
            if schema \<noteq> ''public'' then seq (set_search_path schema) (load_workflows_for_schema env schema)
            else ret ()))
       (if sc = None \<or> sc = Some [] then set_search_path ''public'' else ret ()))"

section \<open>Copying the remote storage\<close>

text \<open>\<^verbatim>\<open>len(components) > i and name != components[i]\<close> skips a directory.\<close>

definition selected :: "string list \<Rightarrow> nat \<Rightarrow> string \<Rightarrow> bool" where
  "selected comps i name \<longleftrightarrow> \<not> (i < length comps \<and> name \<noteq> comps ! i)"

definition remove_local_dir :: "string \<Rightarrow> unit io" where
  "remove_local_dir folder =
     modify (\<lambda>s. s\<lparr>local_fs := filter (\<lambda>(f, _). \<not> startswith f (dir_prefix folder)) (local_fs s)\<rparr>)"

definition write_local :: "string \<Rightarrow> string \<Rightarrow> unit io" where
  "write_local f content = modify (\<lambda>s. s\<lparr>local_fs := AList.update f content (local_fs s)\<rparr>)"

definition local_path :: "env \<Rightarrow> string \<Rightarrow> string" where
  "local_path env f = construct_path [storage_root env, ''local'', lstrip_slash f]"

definition sync_file :: "env \<Rightarrow> string list \<Rightarrow> string \<Rightarrow> string \<Rightarrow> unit io" where
  "sync_file env patterns folder filename =
     catch
       (if list_ex (fnmatch filename) patterns then
          bind (lift (remote_open env (folder @ ''/'' @ filename))) (\<lambda>content.
            write_local (local_path env (folder @ ''/'' @ filename)) content)
        else ret ())
       (\<lambda>_. ret ())"

text \<open>The four nested loops over the directories of the remote workflows folder.\<close>

definition sync_level :: "env \<Rightarrow> string list \<Rightarrow> nat \<Rightarrow> string \<Rightarrow> (string \<Rightarrow> unit io) \<Rightarrow> unit io" where
  "sync_level env comps i folder body =
     bind (lift (remote_listdir env folder)) (\<lambda>(dirs, _).
       for_each dirs (\<lambda>d. if selected comps i d then body (construct_path [folder, d]) else ret ()))"

definition default_patterns :: "string list" where
  "default_patterns = [''*.yaml'', ''*.yml'', ''*.json'', ''*.py'']"

definition sync_for_schema :: "env \<Rightarrow> string \<Rightarrow> string list \<Rightarrow> unit io" where
  "sync_for_schema env module_path patterns =
     bind first_space (\<lambda>sp.
       let remote = construct_path [space_code sp, ''workflows''];
           comps = (if module_path = [] then [] else split_on (CHR ''/'') module_path)
       in seq (remove_local_dir
                (construct_path [storage_root env, ''local'', space_code sp, ''workflows'', module_path]))
         (sync_level env comps 0 remote (\<lambda>org.
          sync_level env comps 1 org (\<lambda>module.
          sync_level env comps 2 module (\<lambda>wfs.
          sync_level env comps 3 wfs (\<lambda>folder.
            bind (lift (remote_listdir env folder)) (\<lambda>(_, files).
              for_each files (sync_file env patterns folder))))))))"

definition sync_remote_storage :: "env \<Rightarrow> string option \<Rightarrow> unit io" where
  "sync_remote_storage env sc =
     bind (tenant_schemas sc) (\<lambda>names.
       for_each names (\<lambda>schema.
         seq (set_search_path schema)
         (seq (sync_for_schema env [] default_patterns) (set_search_path ''public''))))"

section \<open>Looking a definition up\<close>

definition usable :: "json option \<Rightarrow> bool" where
  "usable found = (case found of None \<Rightarrow> False | Some v \<Rightarrow> truthy v)"

definition get_by_user_code :: "env \<Rightarrow> bool \<Rightarrow> string \<Rightarrow> json io" where
  "get_by_user_code env sync_remote user_code =
     bind (query (\<lambda>s. map_of (registry s) user_code)) (\<lambda>found.
     bind (if \<not> usable found \<and> sync_remote then
             (let space = hd (split_on (CHR ''.'') user_code);
                  p = replace_char (CHR '':'') (CHR ''/'') (replace_char (CHR ''.'') (CHR ''/'')
                        (drop (length space + 1) user_code))
              in (case rsplit1 (CHR ''/'') p of
                    [module_path, _] \<Rightarrow>
                      seq (sync_for_schema env module_path default_patterns)
                      (seq (register_workflows env (Some space))
                           (query (\<lambda>s. map_of (registry s) user_code)))
                  | _ \<Rightarrow> throw ValueError))
           else ret found) (\<lambda>found'.
       case found' of
         None \<Rightarrow> throw (WorkflowNotFound user_code)
       | Some v \<Rightarrow> if usable found' then ret v else throw (WorkflowNotFound user_code)))"

definition get_part :: "env \<Rightarrow> string \<Rightarrow> json io" where
  "get_part env user_code = bind (get_by_user_code env False user_code) (\<lambda>v. lift (subscript v ''workflow''))"

definition get_tasks :: "env \<Rightarrow> string \<Rightarrow> json io" where
  "get_tasks env user_code =
     bind (get_part env user_code) (\<lambda>w. lift (
       case w of JObj ps \<Rightarrow> Inr (case map_of ps ''tasks'' of None \<Rightarrow> JList [] | Some v \<Rightarrow> v)
       | _ \<Rightarrow> Inl AttributeError))"

definition get_hook_task :: "env \<Rightarrow> string \<Rightarrow> string \<Rightarrow> json io" where
  "get_hook_task env user_code hook =
     bind (get_part env user_code) (\<lambda>w. lift (
       rbind (is_in ''hooks'' w) (\<lambda>b.
         if b then rbind (subscript w ''hooks'') (\<lambda>hs. rbind (is_in hook hs) (\<lambda>c.
           if c then subscript hs hook else Inr JNull))
         else Inr JNull)))"

definition get_failure_hook_task :: "env \<Rightarrow> string \<Rightarrow> json io" where
  "get_failure_hook_task env name = get_hook_task env name ''failure''"

definition get_success_hook_task :: "env \<Rightarrow> string \<Rightarrow> json io" where
  "get_success_hook_task env name = get_hook_task env name ''success''"

definition get_before_start_hook_task :: "env \<Rightarrow> string \<Rightarrow> json io" where
  "get_before_start_hook_task env name = get_hook_task env name ''before_start''"

text \<open>\<^verbatim>\<open>get_queue\<close>: only a \<^verbatim>\<open>KeyError\<close> falls back to the default queue.\<close>

definition get_queue :: "env \<Rightarrow> string \<Rightarrow> json io" where
  "get_queue env user_code =
     catch (bind (get_part env user_code) (\<lambda>w. lift (subscript w ''queue'')))
       (\<lambda>e. case e of KeyError _ \<Rightarrow> ret (JStr ''workflow'') | _ \<Rightarrow> throw e)"

definition get_imports :: "env \<Rightarrow> string \<Rightarrow> json io" where
  "get_imports env user_code = bind (get_part env user_code) (\<lambda>w. lift (get_or_none w ''imports''))"

section \<open>Frames\<close>

context local_frame
begin

lemma load_workflow_file [framed]: "within R (load_workflow_file env sp file)"
  unfolding load_workflow_file_def by (intro framed)

lemma load_workflows_for_schema [framed]: "within R (load_workflows_for_schema env schema)"
  unfolding load_workflows_for_schema_def by (intro framed)

lemma tenant_schemas [framed]: "within R (tenant_schemas sc)"
  unfolding tenant_schemas_def get_all_tenant_schemas_def by (intro framed)

lemma sync_file [framed]: "within R (sync_file env pats folder f)"
  unfolding sync_file_def write_local_def by (intro framed)

lemma sync_level [framed]: "(\<And>p. within R (body p)) \<Longrightarrow> within R (sync_level env comps i folder body)"
  unfolding sync_level_def by (intro framed)

lemma sync_for_schema [framed]: "within R (sync_for_schema env m pats)"
  unfolding sync_for_schema_def remove_local_dir_def by (intro framed)

end

text \<open>Registering the definitions of one space leaves the connection in that space's schema.\<close>

lemma set_search_path_inside: "ascii_lower code = c \<Longrightarrow> within (inside c) (set_search_path code)"
  by (auto simp: within_def inside_def set_search_path_def)

lemma tenant_schemas_one:
  "code \<noteq> [] \<Longrightarrow> tenant_schemas (Some code) s =
    (if ascii_lower code \<in> set (filter is_tenant_schema (schema_names s)) then (Inr [code], s)
     else (Inl (Raised ''Exception'' (''Schema '' @ code @ '' does not exist'')), s))"
  by (simp add: tenant_schemas_def get_all_tenant_schemas_def bind_def)

lemma register_workflows_inside:
  assumes "code \<noteq> []" and "ascii_lower code = c"
  shows "within (inside c) (register_workflows env (Some code))"
proof (rule withinI)
  fix s
  have "within (inside c) (seq (set_search_path code) (load_workflows_for_schema env code))"
    using assms by (intro inside.seq set_search_path_inside inside.load_workflows_for_schema)
  then have "within (inside c) (if code \<noteq> ''public''
      then seq (set_search_path code) (load_workflows_for_schema env code) else ret ())"
    by (intro inside.if_branch inside.ret)
  then have "within (inside c) (seq (for_each [code] (\<lambda>schema. if schema \<noteq> ''public''
      then seq (set_search_path schema) (load_workflows_for_schema env schema) else ret ())) (ret ()))"
    by (intro inside.seq inside.ret inside.for_each) auto
  then show "inside c s (snd (register_workflows env (Some code) s))"
    using assms(1) withinD by (auto simp: register_workflows_def bind_def tenant_schemas_one inside.keep)
qed

lemma get_by_user_code_inside:
  assumes "code \<noteq> []" and "ascii_lower code = c" and "CHR ''.'' \<notin> set code"
  shows "within (inside c) (get_by_user_code env sync (code @ ''.'' @ name))"
proof -
  have sp: "hd (split_on (CHR ''.'') (code @ ''.'' @ name)) = code"
    using assms(3) by (simp add: split_on_append)
  show ?thesis
    unfolding get_by_user_code_def sp Let_def
    using register_workflows_inside [OF assms(1,2)]
    by (intro inside.bind inside.if_branch inside.option_branch inside.list_branch inside.seq
        inside.query inside.ret inside.throw inside.sync_for_schema)
qed

lemma register_workflows_appends: "within appends (register_workflows env sc)"
proof -
  have "within appends (set_search_path name)" for name
    by (auto simp: within_def appends_def set_search_path_def)
  then show ?thesis
    unfolding register_workflows_def
    by (intro appends.bind appends.seq appends.for_each appends.if_branch appends.ret
        appends.tenant_schemas appends.load_workflows_for_schema)
qed

lemma register_workflows_lookup: "within lookup_only (register_workflows env sc)"
  unfolding register_workflows_def
  by (intro lookup_only.bind lookup_only.seq lookup_only.for_each lookup_only.if_branch lookup_only.ret
      lookup_only.tenant_schemas lookup_only.load_workflows_for_schema set_search_path_lookup)

lemma get_by_user_code_lookup: "within lookup_only (get_by_user_code env sync code)"
  unfolding get_by_user_code_def Let_def
  by (intro lookup_only.bind lookup_only.if_branch lookup_only.option_branch lookup_only.list_branch
      lookup_only.seq lookup_only.query lookup_only.ret lookup_only.throw lookup_only.sync_for_schema
      register_workflows_lookup)

text \<open>Without the remote storage a lookup only reads.\<close>

lemma get_by_user_code_local:
  "get_by_user_code env False code s =
    (case map_of (registry s) code of
       Some v \<Rightarrow> if truthy v then (Inr v, s) else (Inl (WorkflowNotFound code), s)
     | None \<Rightarrow> (Inl (WorkflowNotFound code), s))"
  by (auto simp: get_by_user_code_def usable_def bind_def split: option.splits)

lemma get_part_reads: "within (=) (get_part env code)"
  unfolding get_part_def
  by (intro reading.bind reading.lift) (simp add: within_def get_by_user_code_local split: option.splits)

lemma parts_read:
  "within (=) (get_tasks env code)" "within (=) (get_hook_task env code hook)"
  "within (=) (get_queue env code)" "within (=) (get_imports env code)"
proof -
  have "within (=) (case e of KeyError k \<Rightarrow> ret (JStr ''workflow'') | _ \<Rightarrow> (throw e :: json io))" for e :: exc
    by (cases e) (simp_all add: reading.ret reading.throw)
  then show "within (=) (get_queue env code)"
    unfolding get_queue_def by (intro reading.catch reading.bind reading.lift get_part_reads)
qed (unfold get_tasks_def get_hook_task_def get_imports_def,
    (intro reading.bind reading.lift get_part_reads)+)

end
