(* ===== verification/Engine.thy ===== *)
theory Engine
  imports Platform Manager
begin

text \<open>
  The execution engine: the operations of \<^verbatim>\<open>Workflow\<close> and \<^verbatim>\<open>Task\<close> in \<^verbatim>\<open>models.py\<close>, the
  signal handlers and the base task of \<^verbatim>\<open>tasks/base.py\<close>, the alert and the input check of
  \<^verbatim>\<open>utils.py\<close>, and the tasks of \<^verbatim>\<open>tasks/workflows.py\<close>.  Every handler runs from start to end
  as one step of the world; the order in which the broker delivers the messages is left open.
\<close>

section \<open>Workflow.save and Workflow.cancel\<close>

definition is_terminal :: "wf_status \<Rightarrow> bool" where
  "is_terminal st \<longleftrightarrow> st \<in> {WSuccess, WError, WTimeout, WCanceled}"

text \<open>
  The report to the platform inside \<^verbatim>\<open>Workflow.save\<close>.  \<^verbatim>\<open>tasks.last()\<close> of a relation ordered
  by \<^verbatim>\<open>-created_at\<close> is the task that was created first.
\<close>

definition report_to_platform :: "env \<Rightarrow> workflow_row \<Rightarrow> unit io" where
  "report_to_platform env w =
     (case platform_task_id w of
        None \<Rightarrow> ret ()
      | Some pid \<Rightarrow>
          if pid \<noteq> 0 \<and> is_terminal (wf_status w) then
            catch
              (bind (db_query (\<lambda>d. Inr (tasks_of (wf_id w) d))) (\<lambda>ts.
                 case find (\<lambda>t. task_status t = TError) ts of
                   Some t \<Rightarrow> seq (update_task_status env pid (wf_status w) JNull (opt_str (error_message t))) (ret ())
                 | None \<Rightarrow>
                     (case ts of
                        [] \<Rightarrow> ret ()
                      | _ \<Rightarrow> bind (lift (result (last ts))) (\<lambda>r.
                          seq (update_task_status env pid (wf_status w) r JNull) (ret ())))))
              (\<lambda>_. ret ())
          else ret ())"

definition save_workflow :: "env \<Rightarrow> workflow_row \<Rightarrow> unit io" where
  "save_workflow env w = seq (put_workflow w) (report_to_platform env w)"

text \<open>\<^verbatim>\<open>Workflow(...).save()\<close> or \<^verbatim>\<open>objects.create\<close> on a new object.\<close>

definition create_workflow :: "env \<Rightarrow> workflow_row \<Rightarrow> workflow_row io" where
  "create_workflow env w = bind (insert_workflow w) (\<lambda>w'. seq (report_to_platform env w') (ret w'))"

definition to_cancel :: "task_status \<Rightarrow> bool" where
  "to_cancel st \<longleftrightarrow> st \<in> {TProgress, TInit, TNestedProgress}"

definition cancel_task :: "task_row \<Rightarrow> unit io" where
  "cancel_task t =
     (if to_cancel (task_status t) then
        seq (emit (Revoke (celery_task_id t)))
        (bind now (\<lambda>time. save_task (mark_task_as_finished time (t\<lparr>task_status := TCanceled\<rparr>))))
      else ret ())"

definition cancel :: "env \<Rightarrow> workflow_row \<Rightarrow> unit io" where
  "cancel env w =
     bind (db_query (\<lambda>d. Inr (tasks_of (wf_id w) d))) (\<lambda>ts.
     seq (for_each ts cancel_task) (save_workflow env (w\<lparr>wf_status := WCanceled\<rparr>)))"

section \<open>Task\<close>

definition update_progress :: "json \<Rightarrow> task_row \<Rightarrow> unit io" where
  "update_progress v t = save_task (set_progress v t)"

definition no_result :: json where
  "no_result = JObj [(''message'', JStr ''Task finished successfully. No results returned'')]"

definition context_of :: "space_row \<Rightarrow> task_context" where
  "context_of sp = \<lparr>ctx_realm_code = realm_code sp, ctx_space_code = Some (space_code sp)\<rparr>"

text \<open>The graph a template describes: nodes, connections, adjacency list.\<close>

definition read_graph :: "json \<Rightarrow> exc + (nodes \<times> connection list \<times> adjacency)" where
  "read_graph data =
     rbind (template_nodes data) (\<lambda>ns.
     rbind (template_connections data) (\<lambda>conns.
     rbind (build_adjacency ns conns) (\<lambda>adj. Inr (ns, conns, adj))))"

text \<open>The ids of the nodes that follow a finished node.\<close>

definition next_node_ids :: "string \<Rightarrow> json \<Rightarrow> json \<Rightarrow> connection list \<Rightarrow> adjacency \<Rightarrow> exc + string list" where
  "next_node_ids cur node retval conns adj =
     rbind (node_type node) (\<lambda>ty.
       if ty = JStr ''condition'' then
         rbind (get_next_node_by_condition cur retval conns) (\<lambda>nx.
           Inr (case nx of None \<Rightarrow> [] | Some t \<Rightarrow> if t = [] then [] else [t]))
       else Inr (successors adj cur))"

definition dispatch_next :: "workflow_row \<Rightarrow> nodes \<Rightarrow> adjacency \<Rightarrow> connection list \<Rightarrow> string \<Rightarrow> unit io" where
  "dispatch_next w ns adj conns nx =
     (case map_of ns nx of
        None \<Rightarrow> ret ()
      | Some node \<Rightarrow>
          if truthy node then
            bind (lift (subscript node ''name'')) (\<lambda>_.
            bind (get_space_row (wf_space w)) (\<lambda>sp.
              apply_async (ProcessNextNode nx (wf_id w) ns adj (context_of sp) conns)))
          else ret ())"

text \<open>\<^verbatim>\<open>Task.objects.get(workflow=parent, node_id=workflow.node_id, space=workflow.space)\<close>\<close>

definition get_parent_task :: "workflow_row \<Rightarrow> workflow_row \<Rightarrow> task_row io" where
  "get_parent_task pw w =
     db_query (\<lambda>d. objects_get (\<lambda>t. task_workflow t = wf_id pw \<and> task_node_id t = wf_node_id w \<and>
       task_space t = Some (wf_space w)) (tasks d))"

text \<open>
  \<^verbatim>\<open>Task.handle_task_success\<close>.  It calls itself for the parent task when a nested workflow is
  complete; the number is the depth the interpreter still allows.
\<close>

fun handle_task_success :: "env \<Rightarrow> nat \<Rightarrow> task_row \<Rightarrow> json \<Rightarrow> unit io" where
  "handle_task_success env 0 t retval = throw RecursionError"
| "handle_task_success env (Suc depth) t retval =
     (if task_status t = TNestedProgress then ret ()
      else
        bind now (\<lambda>time.
        let t' = mark_task_as_finished time
                   (set_result (if truthy retval then retval else no_result) (t\<lparr>task_status := TSuccess\<rparr>))
        in seq (save_task t')
        (bind (get_workflow (task_workflow t')) (\<lambda>w.
          case workflow_template w of
            None \<Rightarrow> ret ()
          | Some tpl \<Rightarrow>
              bind (get_template tpl) (\<lambda>tp.
              bind (lift (read_graph (tp_data tp))) (\<lambda>(ns, conns, adj).
              bind (lift (rbind (or_raise (task_node_id t') (KeyError ''None'')) (\<lambda>cur.
                     rbind (or_raise (map_of ns cur) (KeyError cur)) (\<lambda>node. Inr (cur, node))))) (\<lambda>(cur, node).
              bind (lift (next_node_ids cur node retval conns adj)) (\<lambda>nexts.
                let w' = w\<lparr>last_task_output := retval, current_node_id := Some cur\<rparr> in
                if nexts = [] then
                  seq (save_workflow env (w'\<lparr>wf_status := WSuccess, wf_finished_at := Some time\<rparr>))
                  (case parent w of
                     None \<Rightarrow> ret ()
                   | Some p \<Rightarrow>
                       bind (get_workflow p) (\<lambda>pw.
                       bind (get_parent_task pw w) (\<lambda>pt.
                         handle_task_success env depth (pt\<lparr>task_status := TProgress\<rparr>) retval)))
                else for_each nexts (dispatch_next w' ns adj conns)))))))))"

section \<open>Alerts and failures\<close>

text \<open>\<^verbatim>\<open>utils.py:send_alert\<close>; every failure inside it is logged.\<close>

definition alert_body :: "workflow_row \<Rightarrow> json" where
  "alert_body w =
     JObj [(''expression'', JStr (''send_system_message(type='' @ [CHR 0x27] @ ''error'' @ [CHR 0x27]
              @ '', title='' @ [CHR 0x27] @ ''Workflow Failed. '' @ workflow_str w @ '' ('' @ show_nat (wf_id w)
              @ '')'' @ [CHR 0x27] @ '', description='' @ [CHR 0x27]
              @ ''Something Went Wrong. See Task for the details'' @ [CHR 0x27]
              @ '', action_status='' @ [CHR 0x27] @ ''required'' @ [CHR 0x27] @ '')'')),
           (''is_eval'', JBool True)]"

definition send_alert :: "env \<Rightarrow> workflow_row \<Rightarrow> unit io" where
  "send_alert env w =
     (if wf_status w = WError then
        catch
          (bind (get_user ''finmars_bot'') (\<lambda>_.
           bind (get_space_row (wf_space w)) (\<lambda>sp.
           seq (request env POST (space_url env sp ''/api/v1/utils/expression/'') (alert_body w) None) (ret ()))))
          (\<lambda>_. ret ())
      else ret ())"

definition is_time_limit :: "exc \<Rightarrow> bool" where
  "is_time_limit e \<longleftrightarrow> e = TimeLimitExceeded \<or> e = SoftTimeLimitExceeded"

definition failure_result :: "env \<Rightarrow> exc \<Rightarrow> json" where
  "failure_result env e = JObj [(''exception'', JStr (str_exc env e)), (''traceback'', JStr (traceback env e))]"

definition failed_task :: "env \<Rightarrow> exc \<Rightarrow> nat \<Rightarrow> task_row \<Rightarrow> task_row" where
  "failed_task env e time t =
     mark_task_as_finished time
       ((set_result (failure_result env e)
          (t\<lparr>task_status := if is_time_limit e then TTimeout else TError\<rparr>))\<lparr>error_message := Some (str_exc env e)\<rparr>)"

definition failed_workflow :: "exc \<Rightarrow> workflow_row \<Rightarrow> workflow_row" where
  "failed_workflow e w = w\<lparr>wf_status := if is_time_limit e then WTimeout else WError\<rparr>"

text \<open>\<^verbatim>\<open>tasks/base.py:on_failure\<close>, with the same use of the recursion limit.\<close>

fun on_failure :: "env \<Rightarrow> nat \<Rightarrow> nat option \<Rightarrow> exc \<Rightarrow> task_context option \<Rightarrow> unit io" where
  "on_failure env 0 cid e ctx = throw RecursionError"
| "on_failure env (Suc depth) cid e ctx =
     seq (set_schema_from_context ctx)
     (bind (get_task_by_celery_id cid) (\<lambda>t.
      bind (get_workflow (task_workflow t)) (\<lambda>w.
      bind now (\<lambda>time.
      seq (save_task (failed_task env e time t))
      (seq (save_workflow env (failed_workflow e w))
      (bind (get_workflow (task_workflow t)) (\<lambda>w2.
      seq (case parent w2 of
             None \<Rightarrow> ret ()
           | Some p \<Rightarrow>
               bind (get_workflow p) (\<lambda>pw.
               bind (get_parent_task pw w2) (\<lambda>pt.
                 on_failure env depth (celery_task_id pt) e ctx)))
        (send_alert env (failed_workflow e w)))))))))"

section \<open>The base task\<close>

definition cleanup :: "unit io" where
  "cleanup = set_search_path ''public''"

definition base_update_progress :: "json \<Rightarrow> task_row \<Rightarrow> unit io" where
  "base_update_progress v self =
     bind (db_query (\<lambda>d. or_raise (find_row task_id (task_id self) (tasks d)) DoesNotExist)) (\<lambda>t.
       save_task (set_progress v t))"

text \<open>\<^verbatim>\<open>BaseTask.log\<close> appends one line to the log of the task object and saves the object.\<close>

definition base_log :: "string \<Rightarrow> task_row \<Rightarrow> unit io" where
  "base_log message self =
     save_task (self\<lparr>task_log := Some ((case task_log self of None \<Rightarrow> [] | Some l \<Rightarrow> l) @ message @ [CHR 0x0A])\<rparr>)"

definition is_workflow_already_running :: "string \<Rightarrow> task_row \<Rightarrow> bool io" where
  "is_workflow_already_running code self =
     db_query (\<lambda>d. Inr (0 < length (filter (\<lambda>w. wf_id w \<noteq> task_workflow self \<and>
       wf_user_code w = Some code \<and> wf_status w = WProgress) (workflows d))))"

definition before_start :: "env \<Rightarrow> nat option \<Rightarrow> task_context option \<Rightarrow> task_row io" where
  "before_start env cid ctx =
     seq (set_schema_from_context ctx)
     (bind (get_task_by_celery_id cid) (\<lambda>t.
       let t' = t\<lparr>task_status := TProgress, worker_name := Some (hostname env)\<rparr> in
       seq (save_task t') (bind (get_workflow (task_workflow t')) (\<lambda>_. ret t'))))"

definition on_success :: "env \<Rightarrow> json \<Rightarrow> nat option \<Rightarrow> task_context option \<Rightarrow> unit io" where
  "on_success env retval cid ctx =
     seq (set_schema_from_context ctx)
     (bind (get_task_by_celery_id cid) (\<lambda>t. handle_task_success env (recursion_limit env) t retval))"

section \<open>Frames\<close>

context effect_frame
begin

lemma report_to_platform [framed]: "within R (report_to_platform env w)"
  unfolding report_to_platform_def by (intro framed)

lemma save_workflow [framed]: "within R (save_workflow env w)"
  unfolding save_workflow_def by (intro framed)

lemma create_workflow [framed]: "within R (create_workflow env w)"
  unfolding create_workflow_def by (intro framed)

lemma cancel_task [framed]: "within R (cancel_task t)"
  unfolding cancel_task_def by (intro framed)

lemma cancel [framed]: "within R (cancel env w)"
  unfolding cancel_def by (intro framed)

lemma dispatch_next [framed]: "within R (dispatch_next w ns adj conns nx)"
  unfolding dispatch_next_def by (intro framed)

lemma get_parent_task [framed]: "within R (get_parent_task pw w)"
  unfolding get_parent_task_def by (intro framed)

lemma handle_task_success [framed]: "within R (handle_task_success env depth t retval)"
proof (induction depth arbitrary: t)
  case 0
  show ?case unfolding handle_task_success.simps by (intro framed)
next
  case (Suc depth)
  show ?case unfolding handle_task_success.simps by (intro framed Suc.IH)
qed

lemma send_alert [framed]: "within R (send_alert env w)"
  unfolding send_alert_def by (intro framed)

lemma on_failure:
  assumes "within R (set_schema_from_context ctx)"
  shows "within R (on_failure env depth cid e ctx)"
proof (induction depth arbitrary: cid)
  case 0
  show ?case unfolding on_failure.simps by (intro framed)
next
  case (Suc depth)
  show ?case unfolding on_failure.simps by (intro framed assms Suc.IH)
qed

lemma before_start:
  assumes "within R (set_schema_from_context ctx)"
  shows "within R (before_start env cid ctx)"
  unfolding before_start_def by (intro framed assms)

lemma on_success:
  assumes "within R (set_schema_from_context ctx)"
  shows "within R (on_success env v cid ctx)"
  unfolding on_success_def by (intro framed assms)

end

end
