(* ===== verification/Sample.thy ===== *)
theory Sample
  imports World
begin

text \<open>
  A small tenant for concrete runs: one realm, one space with its bot user, a template whose
  graph is a diamond \<^verbatim>\<open>a\<close> to \<^verbatim>\<open>b\<close> and \<^verbatim>\<open>c\<close> to \<^verbatim>\<open>d\<close>, a schedule, and the definitions of
  a version 1 and a version 2 workflow already registered.  The witnesses of the properties
  evaluate the definitions on it.
\<close>

definition sample_node :: "string \<Rightarrow> string \<Rightarrow> json" where
  "sample_node i ty =
     JObj [(''id'', JStr i), (''name'', JStr i), (''inputs'', JObj [(''in'', JObj [])]),
           (''data'', JObj [(''node'', JObj [(''type'', JStr ty)]), (''source_code'', JStr ''pass''),
                          (''workflow'', JObj [(''user_code'', JStr ''com.demo'')])])]"

definition sample_link :: "string \<Rightarrow> string \<Rightarrow> string \<Rightarrow> json" where
  "sample_link a out b =
     JObj [(''source'', JStr a), (''target'', JStr b), (''sourceOutput'', JStr out), (''targetInput'', JStr ''in'')]"

definition sample_graph :: json where
  "sample_graph =
     JObj [(''workflow'', JObj [
       (''nodes'', JList [sample_node ''a'' ''source_code'', sample_node ''b'' ''condition'',
                        sample_node ''c'' ''source_code'', sample_node ''d'' ''source_code'']),
       (''connections'', JList [sample_link ''a'' ''out'' ''b'', sample_link ''a'' ''out'' ''c'',
                              sample_link ''b'' ''out_true'' ''d'', sample_link ''c'' ''out'' ''d''])])]"

definition sample_space :: space_row where
  "sample_space = \<lparr>space_id = 1, space_name = None, realm_code = Some ''realm0'', space_code = ''space0''\<rparr>"

definition sample_user :: user_row where
  "sample_user =
     \<lparr>user_id = 1, username = ''finmars_bot'', password = [], language = ''en'', timezone = ''UTC'',
      two_factor_verification = False, json_data = None, is_verified = True, is_bot = True,
      is_staff = True, is_superuser = True\<rparr>"

definition sample_template :: template_row where
  "sample_template =
     \<lparr>tp_id = 1, tp_name = None, tp_user_code = Some ''com.v2'', tp_notes = None, tp_data = sample_graph,
      tp_space = 1, tp_owner = 1, tp_created_at = 0\<rparr>"

definition sample_schedule :: schedule_row where
  "sample_schedule =
     \<lparr>sched_id = 1, sched_name = ''nightly'', sched_enabled = True, sched_queue = None, sched_task = [],
      sched_args = [], sched_kwargs = [], sched_crontab = Some 1, sched_last_run_at = None,
      sched_user_code = ''s'', sched_notes = None, sched_payload = JObj [], sched_is_manager = False,
      sched_space = 1, sched_owner = 1, workflow_user_code = ''com.v1''\<rparr>"

definition sample_workflow :: workflow_row where
  "sample_workflow =
     \<lparr>wf_id = 1, wf_name = None, workflow_template = Some 1, current_node_id = None,
      last_task_output = JNull, wf_node_id = None, wf_user_code = Some ''space0.com.v2'',
      wf_status = WProgress, wf_payload_data = None, periodic = False, is_manager = False,
      platform_task_id = None, wf_space = 1, wf_owner = 1, wf_crontab = None,
      wf_finished_at = None, parent = None\<rparr>"

definition sample_task :: task_row where
  "sample_task =
     \<lparr>task_id = 1, task_workflow = 1, task_node_id = Some ''a'', celery_task_id = Some 0,
      task_name = Some ''custom_code'', source_code = Some ''pass'', task_status = TProgress,
      worker_name = None, task_type = None, task_payload_data = None, result_data = None,
      progress_data = None, task_log = None, task_notes = None, error_message = None,
      verbose_name = None, verbose_result = None, previous_data = None, is_hook = False,
      task_finished_at = None, task_space = Some 1\<rparr>"

definition sample_db :: schema_db where
  "sample_db =
     \<lparr>spaces = [sample_space], users = [sample_user], templates = [sample_template],
      workflows = [sample_workflow], tasks = [sample_task], schedules = [sample_schedule],
      crontabs = [\<lparr>cron_id = 1, cron_minute = ''0'', cron_hour = ''5'', cron_day_of_month = ''*'',
                   cron_month_of_year = ''*'', cron_day_of_week = ''*''\<rparr>],
      wf_seq = 1, task_seq = 1, row_seq = 1\<rparr>"

definition sample_v1 :: json where
  "sample_v1 =
     JObj [(''workflow'', JObj [
       (''user_code'', JStr ''com.v1''), (''space_code'', JStr ''space0''),
       (''tasks'', JList [JStr ''com.first'', JObj [(''both'', JObj [(''type'', JStr ''group''),
          (''tasks'', JList [JStr ''com.left'', JStr ''com.right''])])], JStr ''com.last'']),
       (''hooks'', JObj [(''before_start'', JStr ''com.hook'')])])]"

definition sample_v2 :: json where
  "sample_v2 = JObj [(''version'', JStr ''2''), (''workflow'', JObj [(''user_code'', JStr ''com.v2''), (''space_code'', JStr ''space0'')])]"

definition sample_world :: world where
  "sample_world =
     \<lparr>search_path = ''space0'', schema_names = [''public'', ''space0'', ''space1''],
      schemas = [''space0'' \<mapsto> sample_db, ''space1'' \<mapsto> sample_db], queue = [], outbox = [],
      clock = 1000, uuid_supply = 1,
      registry = [(''space0.com.v1'', sample_v1), (''space0.com.v2'', sample_v2)], local_fs = []\<rparr>"

text \<open>The same tenant with the workflow paused and its only task done.\<close>

definition sample_paused :: schema_db where
  "sample_paused = sample_db\<lparr>workflows := [sample_workflow\<lparr>wf_status := WWait\<rparr>],
     tasks := [sample_task\<lparr>task_status := TSuccess\<rparr>]\<rparr>"

definition sample_paused_world :: world where
  "sample_paused_world = sample_world\<lparr>schemas := [''space0'' \<mapsto> sample_paused]\<rparr>"

definition sample_context :: task_context where
  "sample_context = \<lparr>ctx_realm_code = Some ''realm0'', ctx_space_code = Some ''space0''\<rparr>"

text \<open>Outside services that answer: user code returns a dictionary, the platform says 200.\<close>

definition sample_env :: env where
  "sample_env =
     \<lparr>domain_name = ''finmars.test'', storage_root = ''/data'', hostname = ''worker1'', recursion_limit = 1000,
      registered_tasks = [''com.hook''], str_exc = (\<lambda>_. ''error''), traceback = (\<lambda>_. ''trace''),
      exec_main = (\<lambda>src t kw. Returns (JObj [(''result'', JBool True)])),
      import_task = (\<lambda>p fs. Inr None), remote_listdir = (\<lambda>p. Inr ([], [])),
      remote_open = (\<lambda>p. Inl (Raised ''FileNotFoundError'' p)), yaml_load = json_loads,
      publish_fails = (\<lambda>m. None), http_reply = (\<lambda>n m url body. Inr \<lparr>status_code = 200, response_text = ''{}''\<rparr>)\<rparr>"

end
