(* ===== verification/Steps.thy ===== *)
theory Steps
  imports Engine Sample
begin

text \<open>
  The Celery tasks of \<^verbatim>\<open>workflow/tasks/workflows.py\<close>: opening and closing a version 1
  workflow, cancelling pending tasks, launching failure hooks, executing one step, starting
  a version 2 workflow and processing one of its nodes; and how Celery runs a task whose
  base class is \<^verbatim>\<open>BaseTask\<close>.
\<close>

section \<open>Version 1 tasks\<close>

definition start :: "env \<Rightarrow> nat \<Rightarrow> task_context option \<Rightarrow> unit io" where
  "start env i ctx =
     seq (set_schema_from_context ctx)
     (bind (get_workflow i) (\<lambda>w. save_workflow env (w\<lparr>wf_status := WProgress\<rparr>)))"

definition end_workflow :: "env \<Rightarrow> nat \<Rightarrow> task_context option \<Rightarrow> unit io" where
  "end_workflow env i ctx =
     seq (sleep 500)
     (seq (set_schema_from_context ctx)
     (bind (get_workflow i) (\<lambda>w.
        if wf_status w \<noteq> WError then save_workflow env (w\<lparr>wf_status := WSuccess\<rparr>) else ret ())))"

definition mark_as_canceled_init_tasks :: "nat \<Rightarrow> task_context option \<Rightarrow> unit io" where
  "mark_as_canceled_init_tasks i ctx =
     seq (set_schema_from_context ctx)
     (bind (db_query (\<lambda>d. Inr (filter (\<lambda>t. task_status t = TInit) (tasks_of i d)))) (\<lambda>ts.
        for_each ts (\<lambda>t. bind now (\<lambda>time.
          save_task (mark_task_as_finished time (t\<lparr>task_status := TCanceled\<rparr>))))))"

text \<open>The columns of a \<^verbatim>\<open>Task(...)\<close> that the call does not name.\<close>

definition new_task_row :: "nat \<Rightarrow> task_row" where
  "new_task_row i =
     \<lparr>task_id = 0, task_workflow = i, task_node_id = None, celery_task_id = None, task_name = None,
      source_code = None, task_status = TInit, worker_name = None, task_type = None,
      task_payload_data = None, result_data = None, progress_data = None, task_log = None,
      task_notes = None, error_message = None, verbose_name = None, verbose_result = None,
      previous_data = None, is_hook = False, task_finished_at = None, task_space = None\<rparr>"

text \<open>
  \<^verbatim>\<open>failure_hooks_launcher\<close>: a name Celery does not know gives \<^verbatim>\<open>None\<close>, which has no
  \<^verbatim>\<open>subtask\<close>; a name that is not a string cannot be looked up when it is not hashable; the
  task row is created without a space; the empty chain has no result to read; and the
  clean-up task is sent without a context.
\<close>

definition launch_hook :: "env \<Rightarrow> nat \<Rightarrow> json \<Rightarrow> (string \<times> nat) io" where
  "launch_hook env i v =
     bind uuid (\<lambda>u.
       case v of
         JStr name \<Rightarrow>
           if name \<notin> set (registered_tasks env) then throw AttributeError
           else bind (insert_task ((new_task_row i)\<lparr>celery_task_id := Some u, task_name := Some name,
                        is_hook := True\<rparr>)) (\<lambda>_. ret (name, u))
       | JList _ \<Rightarrow> throw TypeError
       | JObj _ \<Rightarrow> throw TypeError
       | _ \<Rightarrow> throw AttributeError)"

definition failure_hooks_launcher :: "env \<Rightarrow> nat \<Rightarrow> json list \<Rightarrow> json \<Rightarrow> task_context option \<Rightarrow> unit io" where
  "failure_hooks_launcher env i names pl ctx =
     seq (set_schema_from_context ctx)
     (case ctx of
        None \<Rightarrow> ret ()
      | Some c \<Rightarrow>
          bind (map_each (launch_hook env i) names) (\<lambda>canvas.
          bind uuid (\<lambda>_.
            if canvas = [] then throw AttributeError
            else seq (apply_async (HookChain canvas i pl c))
              (bind uuid (\<lambda>_. apply_async (MarkAsCanceledInitTasks i None))))))"

section \<open>One step\<close>

text \<open>\<^verbatim>\<open>int(v)\<close> of a version: an integer, or a string of digits with an optional sign.\<close>

definition py_int :: "json \<Rightarrow> exc + int" where
  "py_int v =
     (case v of
        JInt i \<Rightarrow> Inr i
      | JBool b \<Rightarrow> Inr (if b then 1 else 0)
      | JStr s \<Rightarrow>
          (case s of
             [] \<Rightarrow> Inl ValueError
           | c # cs \<Rightarrow>
               (let ds = (if c = CHR ''-'' \<or> c = CHR ''+'' then cs else s);
                    n = int (nat_of_digits ds)
                in if ds \<noteq> [] \<and> list_all is_digit ds then Inr (if c = CHR ''-'' then - n else n)
                   else Inl ValueError))
      | _ \<Rightarrow> Inl TypeError)"

definition strip_task :: "string \<Rightarrow> string" where
  "strip_task name = (if endswith name ''.task'' then take (length name - 5) name else name)"

text \<open>\<^verbatim>\<open>os.path.normpath\<close>\<close>

fun norm_comps :: "bool \<Rightarrow> string list \<Rightarrow> string list \<Rightarrow> string list" where
  "norm_comps root acc [] = acc"
| "norm_comps root acc (c # cs) =
     (if c = [] \<or> c = ''.'' then norm_comps root acc cs
      else if c \<noteq> ''..'' \<or> (\<not> root \<and> acc = []) \<or> (acc \<noteq> [] \<and> last acc = ''..'')
        then norm_comps root (acc @ [c]) cs
      else norm_comps root (butlast acc) cs)"

definition normpath :: "string \<Rightarrow> string" where
  "normpath p =
     (let root = startswith p ''/'';
          q = (if root then ''/'' else []) @ join ''/'' (norm_comps root [] (split_on (CHR ''/'') p))
      in if q = [] then ''.'' else q)"

definition sync_import :: "env \<Rightarrow> string \<Rightarrow> json \<Rightarrow> unit io" where
  "sync_import env module_path v =
     bind (lift (as_str v)) (\<lambda>extra.
       let p = normpath (path_join2 module_path extra); seg = basename p in
       if CHR ''*'' \<in> set seg \<or> CHR ''?'' \<in> set seg then
         (case rsplit1 (CHR ''/'') p of
            [dir, pat] \<Rightarrow> sync_for_schema env dir [pat]
          | _ \<Rightarrow> throw ValueError)
       else sync_for_schema env p [''*.*''])"

definition import_dirs :: "json \<Rightarrow> json list" where
  "import_dirs v =
     (let u = (case v of JObj ps \<Rightarrow> (case map_of ps ''dirs'' of None \<Rightarrow> JNull | Some x \<Rightarrow> x) | _ \<Rightarrow> v)
      in case u of JList vs \<Rightarrow> vs | _ \<Rightarrow> [])"

definition new_workflow_row :: "nat \<Rightarrow> nat \<Rightarrow> workflow_row" where
  "new_workflow_row space owner =
     \<lparr>wf_id = 0, wf_name = None, workflow_template = None, current_node_id = None,
      last_task_output = JNull, wf_node_id = None, wf_user_code = None, wf_status = WInit,
      wf_payload_data = None, periodic = False, is_manager = False, platform_task_id = None,
      wf_space = space, wf_owner = owner, wf_crontab = None, wf_finished_at = None, parent = None\<rparr>"

definition get_template_for :: "string \<Rightarrow> nat \<Rightarrow> template_row io" where
  "get_template_for code space =
     db_query (\<lambda>d. objects_get (\<lambda>tp. tp_user_code tp = Some code \<and> tp_space tp = space) (templates d))"

text \<open>The branch of a step that starts a nested version 2 workflow.\<close>

definition start_nested :: "env \<Rightarrow> task_row \<Rightarrow> step_kwargs \<Rightarrow> workflow_row \<Rightarrow> string \<Rightarrow> json io" where
  "start_nested env t kw w code =
     bind (catch (get_template_for code (wf_space w)) (\<lambda>e. throw (Raised ''Exception'' (str_exc env e)))) (\<lambda>tp.
     bind (create_workflow env (set_payload (kw_payload kw) ((new_workflow_row (wf_space w) (wf_owner w))
            \<lparr>wf_user_code := Some code, wf_node_id := task_node_id t, parent := Some (wf_id w),
             workflow_template := Some (tp_id tp)\<rparr>))) (\<lambda>child.
     seq (apply_async (ExecuteWorkflowV2 (wf_id child)
            \<lparr>ctx_realm_code = ctx_realm_code (kw_context kw), ctx_space_code = ctx_space_code (kw_context kw)\<rparr>))
     (seq (save_task (t\<lparr>task_status := TNestedProgress\<rparr>)) (ret JNull))))"

text \<open>The branch that runs the function a module of the space registers.\<close>

definition run_registered :: "env \<Rightarrow> task_row \<Rightarrow> step_kwargs \<Rightarrow> string \<Rightarrow> json io" where
  "run_registered env t kw name =
     (let module_path = replace_char (CHR '':'') (CHR ''/'') (replace_char (CHR ''.'') (CHR ''/'') (strip_task name))
      in seq (sync_for_schema env module_path default_patterns)
        (seq (for_each (import_dirs (kw_imports kw)) (sync_import env module_path))
        (bind (query local_fs) (\<lambda>fs.
         bind (lift (import_task env module_path fs)) (\<lambda>f.
           case f of
             Some g \<Rightarrow> lift (g t kw)
           | None \<Rightarrow> throw (Raised ''Exception'' (''no function to execute for '' @ name)))))))"

definition step_by_name :: "env \<Rightarrow> task_row \<Rightarrow> step_kwargs \<Rightarrow> workflow_row \<Rightarrow> json io" where
  "step_by_name env t kw w =
     bind (lift (or_raise (task_name t) AttributeError)) (\<lambda>name.
     let code = strip_task name;
         full = (case ctx_space_code (kw_context kw) of None \<Rightarrow> ''None'' | Some c \<Rightarrow> c) @ ''.'' @ code
     in bind (get_by_user_code env True full) (\<lambda>conf.
        bind (lift (case conf of
                      JObj ps \<Rightarrow> py_int (case map_of ps ''version'' of None \<Rightarrow> JInt 1 | Some v \<Rightarrow> v)
                    | _ \<Rightarrow> Inl AttributeError)) (\<lambda>version.
          if version = 2 then start_nested env t kw w code
          else run_registered env t kw name)))"

definition execute_workflow_step :: "env \<Rightarrow> task_row \<Rightarrow> step_kwargs \<Rightarrow> json io" where
  "execute_workflow_step env t kw =
     seq (set_schema_from_context (Some (kw_context kw)))
     (bind (get_workflow (task_workflow t)) (\<lambda>w.
       case source_code t of
         None \<Rightarrow> step_by_name env t kw w
       | Some src \<Rightarrow>
           if src = [] then step_by_name env t kw w
           else (case exec_main env src t kw of
                   Returns v \<Rightarrow> ret v
                 | NoMain \<Rightarrow> ret JNull
                 | Raises e \<Rightarrow> throw e)))"

section \<open>Version 2 tasks\<close>

definition execute_workflow_v2 :: "env \<Rightarrow> nat \<Rightarrow> task_context option \<Rightarrow> unit io" where
  "execute_workflow_v2 env i ctx =
     seq (set_schema_from_context ctx)
     (bind (get_workflow i) (\<lambda>w.
      seq (save_workflow env (w\<lparr>wf_status := WProgress\<rparr>))
      (bind (lift (or_raise (workflow_template w) AttributeError)) (\<lambda>tpl.
       bind (get_template tpl) (\<lambda>tp.
       bind (lift (read_graph (tp_data tp))) (\<lambda>(ns, conns, adj).
       bind (lift (or_raise ctx TypeError)) (\<lambda>c.
         for_each (start_nodes ns conns) (\<lambda>n. apply_async (ProcessNextNode n i ns adj c conns)))))))))"

definition input_ready :: "nat \<Rightarrow> string \<Rightarrow> schema_db \<Rightarrow> bool" where
  "input_ready i n d =
     (case objects_get (\<lambda>t. task_workflow t = i \<and> task_node_id t = Some n) (tasks d) of
        Inl _ \<Rightarrow> False
      | Inr t \<Rightarrow> task_status t = TSuccess)"

text \<open>\<^verbatim>\<open>utils.py:are_inputs_ready\<close>\<close>

definition are_inputs_ready :: "nat \<Rightarrow> string \<Rightarrow> connection list \<Rightarrow> bool io" where
  "are_inputs_ready i n conns =
     (if input_nodes n conns = [] then ret True
      else catch (db_query (\<lambda>d. Inr (list_all (\<lambda>m. input_ready i m d) (input_nodes n conns)))) (\<lambda>_. ret False))"

text \<open>\<^verbatim>\<open>Task.objects.filter(...).order_by("-created_at").first()\<close>\<close>

definition latest_task :: "nat \<Rightarrow> string \<Rightarrow> schema_db \<Rightarrow> task_row option" where
  "latest_task i n d =
     (case filter (\<lambda>t. task_workflow t = i \<and> task_node_id t = Some n) (tasks d) of
        [] \<Rightarrow> None
      | ts \<Rightarrow> Some (last ts))"

text \<open>
  The value on an input port of a node: the result of the latest task of the node connected
  to it, or the default when there is no such port, connection or task.
\<close>

definition port_value :: "nat \<Rightarrow> string \<Rightarrow> json \<Rightarrow> connection list \<Rightarrow> string \<Rightarrow> json \<Rightarrow> json io" where
  "port_value i cur node conns port dflt =
     bind (lift (rbind (subscript node ''inputs'') (is_in port))) (\<lambda>b.
       if \<not> b then ret dflt
       else bind (lift (connected_to cur port conns)) (\<lambda>src.
         case src of
           None \<Rightarrow> ret dflt
         | Some n \<Rightarrow>
             if n = [] then ret dflt
             else bind (db_query (\<lambda>d. Inr (latest_task i n d))) (\<lambda>found.
               case found of None \<Rightarrow> ret dflt | Some t \<Rightarrow> lift (result t))))"

definition node_task_name :: "json \<Rightarrow> exc + string" where
  "node_task_name node =
     rbind (node_type node) (\<lambda>ty.
       if ty = JStr ''source_code'' then Inr ''custom_code''
       else if ty = JStr ''condition'' then Inr ''condition''
       else rbind (path node [''data'', ''workflow'', ''user_code'']) as_str)"

definition node_source_code :: "json \<Rightarrow> exc + string option" where
  "node_source_code node =
     rbind (node_type node) (\<lambda>ty.
       if ty = JStr ''source_code'' \<or> ty = JStr ''condition''
         then rbind (path node [''data'', ''source_code'']) (\<lambda>v. rbind (as_str v) (\<lambda>src. Inr (Some src)))
       else Inr None)"

text \<open>
  The part of \<^verbatim>\<open>process_next_node\<close> after its guards: the task row, then Celery's
  \<^verbatim>\<open>signature.apply()\<close>, the parameter \<open>app\<close>, which runs the step in place.
\<close>

definition run_node :: "env \<Rightarrow> (signature \<Rightarrow> unit io) \<Rightarrow> string \<Rightarrow> workflow_row \<Rightarrow> json \<Rightarrow> connection list \<Rightarrow> unit io" where
  "run_node env app cur w node conns =
     bind (lift (node_task_name node)) (\<lambda>name.
     bind (port_value (wf_id w) cur node conns ''in'' JNull) (\<lambda>prev.
     bind (port_value (wf_id w) cur node conns ''payload_input'' (payload w)) (\<lambda>pl.
     bind uuid (\<lambda>u.
     bind (get_space_row (wf_space w)) (\<lambda>sp.
     bind (lift (node_source_code node)) (\<lambda>src.
     bind (insert_task (set_task_payload pl ((new_task_row (wf_id w))
            \<lparr>celery_task_id := Some u, task_name := Some name, task_node_id := Some cur,
             task_space := Some (wf_space w), source_code := src\<rparr>))) (\<lambda>_.
       app (StepSig u
         \<lparr>kw_workflow_id = wf_id w, kw_payload = pl, kw_context = context_of sp, kw_imports = JNull,
          kw_previous_output = prev\<rparr> JNull))))))))"

definition process_next_node ::
  "env \<Rightarrow> (signature \<Rightarrow> unit io) \<Rightarrow> string \<Rightarrow> nat \<Rightarrow> nodes \<Rightarrow> task_context option \<Rightarrow> connection list \<Rightarrow> unit io" where
  "process_next_node env app cur i ns ctx conns =
     seq (set_schema_from_context ctx)
     (catch
       (bind (get_workflow i) (\<lambda>w.
        bind (lift (or_raise (map_of ns cur) (KeyError cur))) (\<lambda>node.
          if wf_status w = WWait then save_workflow env (w\<lparr>current_node_id := Some cur\<rparr>)
          else bind (are_inputs_ready i cur conns) (\<lambda>ready.
            if \<not> ready then ret () else run_node env app cur w node conns))))
       (\<lambda>_. ret ()))"

section \<open>How Celery runs a task in place\<close>

text \<open>
  The life cycle Celery documents for a task: \<^verbatim>\<open>before_start\<close> and the body; then
  \<^verbatim>\<open>on_success\<close> with the value, or the \<^verbatim>\<open>task_failure\<close> signal with the exception; an exception
  of \<^verbatim>\<open>on_success\<close> is an internal error, signalled and, for a task run in place, raised again;
  \<^verbatim>\<open>task_postrun\<close> ends every run.  A receiver's own exception is logged by the signal.
\<close>

definition signal :: "unit io \<Rightarrow> unit io" where
  "signal m = catch m (\<lambda>_. ret ())"

definition life_cycle :: "'a io \<Rightarrow> ('a \<Rightarrow> json io) \<Rightarrow> (json \<Rightarrow> unit io) \<Rightarrow> (exc \<Rightarrow> unit io) \<Rightarrow> unit io \<Rightarrow> unit io" where
  "life_cycle before body succ fail postrun s =
     (case bind before body s of
        (Inl e, t) \<Rightarrow> seq (signal (fail e)) (signal postrun) t
      | (Inr v, t) \<Rightarrow>
          (case succ v t of
             (Inl e, u) \<Rightarrow> seq (signal (fail e)) (seq (signal postrun) (throw e)) u
           | (Inr _, u) \<Rightarrow> signal postrun u))"

text \<open>The handlers of the repository in that life cycle, for one step.\<close>

definition run_step :: "env \<Rightarrow> nat \<Rightarrow> step_kwargs \<Rightarrow> unit io" where
  "run_step env u kw =
     life_cycle (before_start env (Some u) (Some (kw_context kw)))
       (\<lambda>t. execute_workflow_step env t kw)
       (\<lambda>v. on_success env v (Some u) (Some (kw_context kw)))
       (\<lambda>e. on_failure env (recursion_limit env) (Some u) e (Some (kw_context kw)))
       cleanup"

text \<open>The hypothesis on Celery: applying the signature of a step runs it in that life cycle.\<close>

definition celery_applies :: "env \<Rightarrow> (signature \<Rightarrow> unit io) \<Rightarrow> bool" where
  "celery_applies env app \<longleftrightarrow> (\<forall>u kw q. app (StepSig u kw q) = run_step env u kw)"

section \<open>Frames\<close>

context effect_frame
begin

lemma sync_import [framed]: "within R (sync_import env m v)"
  unfolding sync_import_def by (intro framed)

lemma start_nested [framed]: "within R (start_nested env t kw w code)"
  unfolding start_nested_def get_template_for_def by (intro framed)

lemma run_registered [framed]: "within R (run_registered env t kw name)"
  unfolding run_registered_def by (intro framed)

lemma are_inputs_ready [framed]: "within R (are_inputs_ready i n conns)"
  unfolding are_inputs_ready_def by (intro framed)

lemma port_value [framed]: "within R (port_value i cur node conns port dflt)"
  unfolding port_value_def by (intro framed)

lemma start:
  "within R (set_schema_from_context ctx) \<Longrightarrow> within R (start env i ctx)"
  unfolding start_def by (intro framed)

lemma end_workflow:
  "within R (set_schema_from_context ctx) \<Longrightarrow> within R (end_workflow env i ctx)"
  unfolding end_workflow_def by (intro framed)

lemma mark_as_canceled_init_tasks:
  "within R (set_schema_from_context ctx) \<Longrightarrow> within R (mark_as_canceled_init_tasks i ctx)"
  unfolding mark_as_canceled_init_tasks_def by (intro framed)

lemma launch_hook [framed]: "within R (launch_hook env i v)"
proof (cases v)
  case (JStr name)
  then show ?thesis by (simp add: launch_hook_def) (intro framed)
qed (simp_all add: launch_hook_def bind throw uuid)

lemma failure_hooks_launcher:
  "within R (set_schema_from_context ctx) \<Longrightarrow> within R (failure_hooks_launcher env i names pl ctx)"
  unfolding failure_hooks_launcher_def by (intro framed)

lemma execute_workflow_v2:
  "within R (set_schema_from_context ctx) \<Longrightarrow> within R (execute_workflow_v2 env i ctx)"
  unfolding execute_workflow_v2_def by (intro framed)

end

section \<open>A step stays in its space\<close>

definition tenant_context :: "string \<Rightarrow> task_context \<Rightarrow> bool" where
  "tenant_context c ctx \<longleftrightarrow>
     (case ctx_space_code ctx of
        None \<Rightarrow> False
      | Some code \<Rightarrow> code \<noteq> [] \<and> ascii_lower code = c \<and> CHR ''.'' \<notin> set code)"

lemma tenant_context_enters:
  "tenant_context c ctx \<Longrightarrow> within (inside c) (set_schema_from_context (Some ctx))"
  by (rule set_schema_inside) (auto simp: tenant_context_def space_of_def split: option.splits if_splits)

lemma names_schema_context:
  "names_schema c sp \<Longrightarrow> c \<noteq> [] \<Longrightarrow> tenant_context c (context_of sp)"
  by (auto simp: tenant_context_def context_of_def names_schema_def ascii_lower_def)

lemma step_by_name_inside:
  assumes "tenant_context c (kw_context kw)"
  shows "within (inside c) (step_by_name env t kw w)"
proof -
  from assms obtain code where code: "ctx_space_code (kw_context kw) = Some code" "code \<noteq> []"
      "ascii_lower code = c" "CHR ''.'' \<notin> set code"
    by (auto simp: tenant_context_def split: option.splits)
  note g = get_by_user_code_inside [OF code(2-4)]
  show ?thesis
    unfolding step_by_name_def code(1) option.case Let_def
    by (intro g inside.bind inside.lift inside.if_branch inside.start_nested inside.run_registered)
qed

lemma execute_workflow_step_inside:
  assumes "tenant_context c (kw_context kw)"
  shows "within (inside c) (execute_workflow_step env t kw)"
proof -
  have "within (inside c) (case r of Returns v \<Rightarrow> ret v | NoMain \<Rightarrow> ret JNull | Raises e \<Rightarrow> throw e)" for r
    by (cases r) (simp_all add: inside.ret inside.throw)
  then show ?thesis
    unfolding execute_workflow_step_def
    by (intro inside.seq inside.bind inside.option_branch inside.if_branch inside.queries
        tenant_context_enters step_by_name_inside assms)
qed

lemma confined_keep: "within (confined c) m \<Longrightarrow> within (confined c) (signal m)"
  unfolding signal_def by (rule confined_catch)

lemma signal_inside: "within (inside c) m \<Longrightarrow> within (inside c) (signal m)"
  unfolding signal_def by (intro inside.catch inside.ret)

lemma cleanup_confined: "within (confined c) cleanup"
  by (auto simp: within_def confined_def cleanup_def set_search_path_def)

lemma life_cycle_confined:
  assumes "within (inside c) before" and "\<And>x. within (inside c) (body x)"
    and "\<And>v. within (inside c) (succ v)" and "\<And>e. within (inside c) (fail e)"
    and "within (confined c) postrun"
  shows "within (confined c) (life_cycle before body succ fail postrun)"
proof (rule withinI)
  fix s
  have run: "within (inside c) (bind before body)" using assms(1,2) by (rule inside.bind)
  have failed: "within (confined c) (seq (signal (fail e)) (signal postrun))" for e
    unfolding seq_def using assms(4,5) by (intro confined_bind signal_inside confined_keep)
  have raised: "within (confined c) (seq (signal (fail e)) (seq (signal postrun) (throw e')))" for e e'
  proof -
    have "within (confined c) (seq (signal postrun) (throw e'))"
    proof (rule withinI)
      fix s
      obtain r t where r: "signal postrun s = (r, t)" by force
      with confined_keep [OF assms(5)] have "confined c s t" by (rule within_run)
      with r show "confined c s (snd (seq (signal postrun) (throw e') s))"
        by (cases r) (simp_all add: seq_raise seq_value)
    qed
    then show ?thesis unfolding seq_def [of "signal (fail e)"]
      using assms(4) by (intro confined_bind signal_inside)
  qed
  obtain r t where r: "bind before body s = (r, t)" by force
  with run have st: "inside c s t" by (rule within_run)
  have trans: "inside c a b \<Longrightarrow> confined c b u \<Longrightarrow> confined c a u" for a b u
    by (auto simp: inside_def confined_def)
  show "confined c s (snd (life_cycle before body succ fail postrun s))"
  proof (cases r)
    case (Inl e)
    with r show ?thesis using trans [OF st withinD [OF failed]] by (simp add: life_cycle_def)
  next
    case (Inr v)
    obtain r' u where r': "succ v t = (r', u)" by force
    with assms(3) have "inside c t u" by (rule within_run)
    with st have su: "inside c s u" by (rule inside.step)
    show ?thesis
      using r r' Inr trans [OF su withinD [OF raised]] trans [OF su withinD [OF confined_keep [OF assms(5)]]]
      by (cases r') (simp_all add: life_cycle_def)
  qed
qed

lemma run_step_confined:
  assumes "tenant_context c (kw_context kw)"
  shows "within (confined c) (run_step env u kw)"
  unfolding run_step_def
  using assms
  by (intro life_cycle_confined inside.before_start inside.on_success inside.on_failure
      tenant_context_enters execute_workflow_step_inside cleanup_confined)

lemma run_node_confined:
  assumes "celery_applies env app" and "c \<noteq> []"
  shows "within (confined c) (run_node env app cur w node conns)"
proof -
  have step: "within (confined c) (app (StepSig u kw q))" if "tenant_context c (kw_context kw)" for u kw q
    using assms(1) run_step_confined [OF that] by (simp add: celery_applies_def)
  show ?thesis
    unfolding run_node_def
    by (rule confined_bind [OF inside.lift], rule confined_bind [OF inside.port_value],
        rule confined_bind [OF inside.port_value], rule confined_bind [OF inside.uuid],
        rule confined_get_space_row, rule confined_bind [OF inside.lift],
        rule confined_bind [OF inside.insert_task], rule step)
      (simp add: names_schema_context assms(2))
qed

lemma process_next_node_body_confined:
  assumes "celery_applies env app" and "c \<noteq> []"
  shows "within (confined c)
     (catch
       (bind (get_workflow i) (\<lambda>w.
        bind (lift (or_raise (map_of ns cur) (KeyError cur))) (\<lambda>node.
          if wf_status w = WWait then save_workflow env (w\<lparr>current_node_id := Some cur\<rparr>)
          else bind (are_inputs_ready i cur conns) (\<lambda>ready.
            if \<not> ready then ret () else run_node env app cur w node conns))))
       (\<lambda>_. ret ()))"
proof -
  have branch: "within (confined c) m \<Longrightarrow> within (confined c) k \<Longrightarrow> within (confined c) (if b then m else k)"
    for b and m k :: "unit io" by simp
  show ?thesis
    by (intro confined_catch confined_bind branch inside.queries inside.lift inside.are_inputs_ready
        inside_confined [OF inside.save_workflow] inside_confined [OF inside.ret] run_node_confined assms)
qed

lemmas process_next_node_confined = entered_schema [OF process_next_node_body_confined]


definition sample_apply :: "signature \<Rightarrow> unit io" where
  "sample_apply sig = (case sig of StepSig u kw _ \<Rightarrow> run_step sample_env u kw | _ \<Rightarrow> ret ())"

lemma sample_home: "home ''space0'' sample_world"
proof -
  have "ascii_lower ''space0'' = ''space0''" by code_simp
  then show ?thesis
    by (simp add: home_def sample_world_def sample_db_def names_schema_def sample_space_def)
qed


end
