(* ===== verification/Builder.thy ===== *)
theory Builder
  imports Steps
begin

text \<open>
  Starting a workflow: \<^verbatim>\<open>workflow/builder.py:WorkflowBuilder\<close>, which turns the list of tasks
  of a version 1 definition into a Celery canvas with one task row per signature;
  \<^verbatim>\<open>workflow/workflows.py:execute_workflow\<close>, which creates the workflow and starts it in one
  of the two versions; \<^verbatim>\<open>Workflow.run_new_workflow\<close> and the periodic task \<^verbatim>\<open>execute\<close>.

  The builder reads its workflow once and keeps it, as the property \<^verbatim>\<open>workflow\<close> does.
\<close>

section \<open>The builder\<close>

record builder =
  b_workflow :: workflow_row
  custom_queues :: json
  b_queue :: json
  b_imports :: json
  b_previous :: json
  canvas :: "canvas_item list"
  b_tasks :: json
  failure_hook :: json
  failure_hook_canvas :: "signature list"
  success_hook :: json
  success_hook_canvas :: "canvas_item list"
  before_start_hook :: json

definition uuid_json :: "nat \<Rightarrow> json" where
  "uuid_json u = JStr (show_nat u)"

text \<open>\<^verbatim>\<open>d.get(k, default)\<close> on a value that has to be a dictionary.\<close>

definition dict_get :: "json \<Rightarrow> string \<Rightarrow> json \<Rightarrow> exc + json" where
  "dict_get v k dflt =
     (case v of JObj ps \<Rightarrow> Inr (case map_of ps k of None \<Rightarrow> dflt | Some x \<Rightarrow> x) | _ \<Rightarrow> Inl AttributeError)"

text \<open>\<^verbatim>\<open>for x in v\<close>: the elements of a list, the keys of a dictionary, the characters of a string.\<close>

definition iterate :: "json \<Rightarrow> exc + json list" where
  "iterate v =
     (case v of
        JList vs \<Rightarrow> Inr vs
      | JObj ps \<Rightarrow> Inr (map (\<lambda>p. JStr (fst p)) ps)
      | JStr s \<Rightarrow> Inr (map (\<lambda>c. JStr [c]) s)
      | _ \<Rightarrow> Inl TypeError)"

definition new_task :: "builder \<Rightarrow> json \<Rightarrow> bool \<Rightarrow> bool \<Rightarrow> (signature \<times> builder) io" where
  "new_task b v hook single =
     bind uuid (\<lambda>u.
     bind (get_space_row (wf_space (b_workflow b))) (\<lambda>sp.
     bind (lift (as_str v)) (\<lambda>name.
     bind (lift (dict_get (custom_queues b) (space_code sp @ ''.'' @ name) (b_queue b))) (\<lambda>q.
     bind (insert_task (set_previous (b_previous b) ((new_task_row (wf_id (b_workflow b)))
            \<lparr>celery_task_id := Some u, task_name := Some name,
             task_space := Some (wf_space (b_workflow b)), is_hook := hook\<rparr>))) (\<lambda>_.
       ret (StepSig u
              \<lparr>kw_workflow_id = wf_id (b_workflow b), kw_payload = payload (b_workflow b),
               kw_context = context_of sp, kw_imports = b_imports b, kw_previous_output = JNull\<rparr> q,
            if single then b\<lparr>b_previous := JList [uuid_json u]\<rparr> else b))))))"

definition parse_queues :: "builder \<Rightarrow> exc + builder" where
  "parse_queues b =
     (let b' = (case b_queue b of
                  JObj ps \<Rightarrow> b\<lparr>custom_queues := (case map_of ps ''customs'' of None \<Rightarrow> JObj [] | Some v \<Rightarrow> v),
                               b_queue := (case map_of ps ''default'' of None \<Rightarrow> JStr ''celery'' | Some v \<Rightarrow> v)\<rparr>
                | _ \<Rightarrow> b)
      in case (b_queue b', custom_queues b') of
           (JStr _, JObj _) \<Rightarrow> Inr b'
         | _ \<Rightarrow> Inl (WorkflowSyntaxError None))"

definition sig_id :: "signature \<Rightarrow> json" where
  "sig_id sig = (case sig of StepSig u _ _ \<Rightarrow> uuid_json u | _ \<Rightarrow> JNull)"

text \<open>
  The check of a group reads \<^verbatim>\<open>"type" not in task[name] and task[name]["type"] != "group"\<close>: a
  missing type raises in the second operand and any type that is there passes.
\<close>

definition check_group :: "json \<Rightarrow> exc + unit" where
  "check_group body =
     rbind (is_in ''type'' body) (\<lambda>b.
       if b then Inr ()
       else rbind (subscript body ''type'') (\<lambda>ty.
         if ty \<noteq> JStr ''group'' then Inl (WorkflowSyntaxError None) else Inr ()))"

text \<open>\<^verbatim>\<open>[self.new_task(t, is_hook, single=False) for t in ...]\<close>: these calls leave the builder as it is.\<close>

definition group_task :: "builder \<Rightarrow> bool \<Rightarrow> json \<Rightarrow> signature io" where
  "group_task b hook t = bind (new_task b t hook False) (\<lambda>r. ret (fst r))"

definition parse_group :: "builder \<Rightarrow> json \<Rightarrow> bool \<Rightarrow> (signature list) io" where
  "parse_group b body hook =
     seq (lift (check_group body))
     (bind (lift (rbind (subscript body ''tasks'') iterate)) (\<lambda>ts.
        map_each (group_task b hook) ts))"

definition parse_task :: "builder \<Rightarrow> json \<Rightarrow> bool \<Rightarrow> (canvas_item \<times> builder) io" where
  "parse_task b task hook =
     (case task of
        JStr _ \<Rightarrow> bind (new_task b task hook True) (\<lambda>(sig, b'). ret (Single sig, b'))
      | JObj ps \<Rightarrow>
          (case ps of
             [] \<Rightarrow> throw IndexError
           | (name, body) # _ \<Rightarrow>
               bind (parse_group b body hook) (\<lambda>sigs.
               bind uuid (\<lambda>_.
                 ret (Group sigs None, b\<lparr>b_previous := JList (map sig_id sigs)\<rparr>))))
      | _ \<Rightarrow> throw (WorkflowSyntaxError None))"

fun parse_flat_tasks :: "builder \<Rightarrow> json list \<Rightarrow> bool \<Rightarrow> (canvas_item list \<times> builder) io" where
  "parse_flat_tasks b [] hook = ret ([], b)"
| "parse_flat_tasks b (t # ts) hook =
     bind (parse_task b t hook) (\<lambda>(c, b1).
     bind (parse_flat_tasks b1 ts hook) (\<lambda>(cs, b2). ret (c # cs, b2)))"

definition set_queue :: "json \<Rightarrow> canvas_item \<Rightarrow> canvas_item" where
  "set_queue q c =
     (case c of
        Single (StepSig u kw _) \<Rightarrow> Single (StepSig u kw q)
      | Single (StartSig i ctx _) \<Rightarrow> Single (StartSig i ctx q)
      | Single (EndSig i ctx _) \<Rightarrow> Single (EndSig i ctx q)
      | Single sig \<Rightarrow> Single sig
      | Group sigs _ \<Rightarrow> Group sigs (Some q))"

text \<open>The first half of \<^verbatim>\<open>build\<close>: what the manager knows of the definition.\<close>

definition read_definition :: "env \<Rightarrow> nat \<Rightarrow> builder io" where
  "read_definition env i =
     bind (get_workflow i) (\<lambda>w. let code = workflow_str w in
     bind (get_queue env code) (\<lambda>q.
     bind (get_tasks env code) (\<lambda>ts.
     bind (get_failure_hook_task env code) (\<lambda>fh.
     bind (get_success_hook_task env code) (\<lambda>sh.
     bind (get_before_start_hook_task env code) (\<lambda>bh.
     bind (lift (parse_queues
            \<lparr>b_workflow = w, custom_queues = JObj [], b_queue = q, b_imports = JNull,
             b_previous = JList [], canvas = [], b_tasks = ts, failure_hook = fh,
             failure_hook_canvas = [], success_hook = sh, success_hook_canvas = [],
             before_start_hook = bh\<rparr>)) (\<lambda>b.
     bind (get_imports env code) (\<lambda>im. ret (b\<lparr>b_imports := im\<rparr>)))))))))"

text \<open>\<^verbatim>\<open>self.parse_flat_tasks([hook], True)[0]\<close>\<close>

definition parse_hook :: "builder \<Rightarrow> json \<Rightarrow> (canvas_item \<times> builder) io" where
  "parse_hook b hook =
     bind (parse_flat_tasks b [hook] True) (\<lambda>(cs, b').
       case cs of [] \<Rightarrow> throw IndexError | c # _ \<Rightarrow> ret (c, b'))"

definition add_before_start_hook :: "builder \<Rightarrow> builder io" where
  "add_before_start_hook b =
     (if truthy (before_start_hook b) then
        bind (parse_hook (b\<lparr>b_previous := JNull\<rparr>) (before_start_hook b)) (\<lambda>(c, b').
          ret (b'\<lparr>canvas := set_queue (b_queue b') c # canvas b', b_previous := b_previous b\<rparr>))
      else ret b)"

definition build :: "env \<Rightarrow> nat \<Rightarrow> builder io" where
  "build env i =
     bind (read_definition env i) (\<lambda>b0.
     bind (lift (iterate (b_tasks b0))) (\<lambda>ts.
     bind (parse_flat_tasks b0 ts False) (\<lambda>(cs, b1).
     bind (add_before_start_hook (b1\<lparr>canvas := cs\<rparr>)) (\<lambda>b2.
     bind (get_space_row (wf_space (b_workflow b2))) (\<lambda>sp.
       let j = wf_id (b_workflow b2); q = b_queue b2 in
       ret (b2\<lparr>canvas := Single (StartSig j (context_of sp) q) # canvas b2
                           @ [Single (EndSig j (context_of sp) q)]\<rparr>))))))"

definition build_hooks :: "builder \<Rightarrow> builder io" where
  "build_hooks b =
     bind (if truthy (failure_hook b) \<and> failure_hook_canvas b = [] then
             bind (get_space_row (wf_space (b_workflow b))) (\<lambda>sp.
               ret (b\<lparr>b_previous := JNull, failure_hook_canvas :=
                      [FailureHooksSig (wf_id (b_workflow b)) (b_queue b) [failure_hook b]
                         (payload (b_workflow b)) (context_of sp)]\<rparr>))
           else ret b) (\<lambda>b1.
     bind (if truthy (success_hook b1) \<and> success_hook_canvas b1 = [] then
             bind (parse_hook b1 (success_hook b1)) (\<lambda>(c, b2). ret (b2\<lparr>success_hook_canvas := [c]\<rparr>))
           else ret b1) (\<lambda>b3. ret (b3\<lparr>b_previous := b_previous b\<rparr>)))"

text \<open>\<^verbatim>\<open>run\<close> builds first when there is no canvas; here \<open>build\<close> has been called.\<close>

definition run_canvas :: "env \<Rightarrow> builder \<Rightarrow> unit io" where
  "run_canvas env b =
     bind uuid (\<lambda>_.
     bind (build_hooks b) (\<lambda>b'.
       let m = Chain (canvas b') (success_hook_canvas b') (failure_hook_canvas b') in
       case publish_fails env m of
         None \<Rightarrow> apply_async m
       | Some e \<Rightarrow> seq (save_workflow env ((b_workflow b')\<lparr>wf_status := WError\<rparr>)) (throw e)))"

text \<open>\<^verbatim>\<open>WorkflowBuilder.cancel\<close> iterates over the related manager itself, which is not iterable.\<close>

definition builder_cancel :: "nat \<Rightarrow> unit io" where
  "builder_cancel i = bind (get_workflow i) (\<lambda>_. throw TypeError)"

section \<open>execute_workflow\<close>

text \<open>What a boolean column takes: booleans, 0 and 1, and their usual names.\<close>

definition field_bool :: "json \<Rightarrow> exc + bool" where
  "field_bool v =
     (case v of
        JBool b \<Rightarrow> Inr b
      | JInt n \<Rightarrow> if n = 1 then Inr True else if n = 0 then Inr False else Inl (Raised ''ValidationError'' [])
      | JStr s \<Rightarrow>
          if s \<in> {''t'', ''True'', ''1''} then Inr True
          else if s \<in> {''f'', ''False'', ''0''} then Inr False
          else Inl (Raised ''ValidationError'' [])
      | JNull \<Rightarrow> Inl DatabaseError
      | _ \<Rightarrow> Inl (Raised ''ValidationError'' []))"

definition field_int :: "json \<Rightarrow> exc + int option" where
  "field_int v = (if v = JNull then Inr None else rbind (py_int v) (\<lambda>n. Inr (Some n)))"

definition find_template :: "string \<Rightarrow> nat \<Rightarrow> nat option io" where
  "find_template code space =
     catch (bind (get_template_for code space) (\<lambda>tp. ret (Some (tp_id tp))))
       (\<lambda>e. if e = DoesNotExist then ret None else throw e)"

definition space_less :: "string \<Rightarrow> string" where
  "space_less code = join ''.'' (tl (split_on (CHR ''.'') code))"

definition execute_workflow ::
  "env \<Rightarrow> string \<Rightarrow> string \<Rightarrow> json \<Rightarrow> string option \<Rightarrow> string option \<Rightarrow> json \<Rightarrow> nat option \<Rightarrow> json io" where
  "execute_workflow env user user_code pl realm space pid_json cron =
     bind (get_user user) (\<lambda>u.
     bind (get_by_user_code env True user_code) (\<lambda>conf.
     bind (get_space_by_code space) (\<lambda>sp.
     bind (find_template (space_less user_code) (space_id sp)) (\<lambda>tp.
     bind (lift (rbind (subscript conf ''workflow'') (\<lambda>part. dict_get part ''is_manager'' (JBool False)))) (\<lambda>im.
     bind (lift (field_bool im)) (\<lambda>manager.
     bind (lift (field_int pid_json)) (\<lambda>pid.
     bind (create_workflow env (set_payload (if pl = JNull then JObj [] else pl)
            ((new_workflow_row (space_id sp) (user_id u))
              \<lparr>wf_user_code := Some user_code, workflow_template := tp, is_manager := manager,
               platform_task_id := pid, wf_crontab := cron\<rparr>))) (\<lambda>w.
     bind (lift (dict_get conf ''version'' JNull)) (\<lambda>version.
     seq (if version = JStr ''2'' then
            apply_async (ExecuteWorkflowV2 (wf_id w) \<lparr>ctx_realm_code = realm, ctx_space_code = space\<rparr>)
          else bind (build env (wf_id w)) (run_canvas env))
       (ret (to_dict True w)))))))))))"

text \<open>\<^verbatim>\<open>Workflow.run_new_workflow\<close>, which a manager workflow calls from its own task.\<close>

definition run_new_workflow :: "env \<Rightarrow> workflow_row \<Rightarrow> string \<Rightarrow> json \<Rightarrow> json io" where
  "run_new_workflow env w user_code pl =
     (if user_code = [] then throw (Raised ''Exception'' ''User code is required.'')
      else if \<not> is_manager w then throw (Raised ''Exception'' ''Workflow is not manager'')
      else
        bind (get_space_row (wf_space w)) (\<lambda>sp.
        let code = space_code sp @ ''.'' @ user_code in
        bind (get_by_user_code env True code) (\<lambda>conf.
        bind (lift (rbind (subscript conf ''workflow'') (\<lambda>part. dict_get part ''is_manager'' (JBool False)))) (\<lambda>im.
          if truthy im then throw (Raised ''Exception'' ''New Workflow is manager'')
          else bind (get_user_row (wf_owner w)) (\<lambda>u.
            execute_workflow env (username u) code (if pl = JNull then JObj [] else pl)
              (realm_code sp) (Some (space_code sp)) JNull None)))))"

section \<open>The periodic task\<close>

definition mark_last_run :: "nat \<Rightarrow> nat \<Rightarrow> schedule_row list \<Rightarrow> schedule_row list" where
  "mark_last_run i time = map (\<lambda>r. if sched_id r = i then r\<lparr>sched_last_run_at := Some time\<rparr> else r)"

definition get_schedule :: "nat \<Rightarrow> schedule_row io" where
  "get_schedule i = db_query (\<lambda>d. or_raise (find_row sched_id i (schedules d)) DoesNotExist)"

text \<open>\<^verbatim>\<open>tasks/workflows.py:execute\<close>: every failure is logged and the task returns nothing.\<close>

definition execute :: "env \<Rightarrow> string \<Rightarrow> json \<Rightarrow> task_context option \<Rightarrow> nat option \<Rightarrow> nat \<Rightarrow> json io" where
  "execute env user_code pl ctx cron sid =
     catch
       (seq (set_schema_from_context ctx)
       (bind now (\<lambda>time.
        seq (db_update (\<lambda>d. d\<lparr>schedules := mark_last_run sid time (schedules d)\<rparr>))
        (bind (get_schedule sid) (\<lambda>r.
         bind (get_user_row (sched_owner r)) (\<lambda>u.
         bind (get_user (username u)) (\<lambda>owner.
         bind (get_space_by_code (case ctx of None \<Rightarrow> None | Some c \<Rightarrow> ctx_space_code c)) (\<lambda>sp.
           execute_workflow env (username owner) user_code pl (realm_code sp) (Some (space_code sp)) JNull cron))))))))
       (\<lambda>_. ret JNull)"

section \<open>What building creates\<close>

text \<open>
  \<open>creates s rows t\<close>: between the two states the rows were appended to the tasks of the
  current schema, with increasing Celery ids drawn in between, and no other table changed.
\<close>

definition row_ids :: "task_row list \<Rightarrow> nat list" where
  "row_ids rows = map (\<lambda>r. the (celery_task_id r)) rows"

definition add_rows :: "task_row list \<Rightarrow> schema_db \<Rightarrow> schema_db" where
  "add_rows rows d = d\<lparr>tasks := tasks d @ rows, task_seq := task_seq d + length rows\<rparr>"

definition ids_between :: "nat \<Rightarrow> task_row list \<Rightarrow> nat \<Rightarrow> bool" where
  "ids_between m rows n \<longleftrightarrow>
     m \<le> n \<and> (\<forall>r \<in> set rows. celery_task_id r \<noteq> None) \<and> sorted_wrt (<) (row_ids rows) \<and>
     (\<forall>u \<in> set (row_ids rows). m \<le> u \<and> u < n)"

definition creates :: "world \<Rightarrow> task_row list \<Rightarrow> world \<Rightarrow> bool" where
  "creates s rows t \<longleftrightarrow>
     search_path t = search_path s \<and> cur_db t = map_option (add_rows rows) (cur_db s) \<and>
     (rows \<noteq> [] \<longrightarrow> cur_db s \<noteq> None) \<and> queue t = queue s \<and> ids_between (uuid_supply s) rows (uuid_supply t)"

lemma ids_between_trans:
  assumes "ids_between k rows m" and "ids_between m rows' n"
  shows "ids_between k (rows @ rows') n"
proof -
  have "x < y" if "x \<in> set (row_ids rows)" "y \<in> set (row_ids rows')" for x y
    using that assms less_le_trans unfolding ids_between_def by blast
  moreover have "k \<le> n" "\<And>x. x \<in> set (row_ids rows) \<Longrightarrow> x < n" "\<And>x. x \<in> set (row_ids rows') \<Longrightarrow> k \<le> x"
    using assms unfolding ids_between_def by (meson less_le_trans le_trans)+
  moreover have "row_ids (rows @ rows') = row_ids rows @ row_ids rows'" by (simp add: row_ids_def)
  ultimately show ?thesis
    using assms by (simp add: ids_between_def sorted_wrt_append ball_Un)
qed

lemma ids_between_distinct: "ids_between m rows n \<Longrightarrow> distinct (row_ids rows)"
  by (simp add: ids_between_def strict_sorted_iff)

lemma creates_none: "creates s [] s"
  by (cases "cur_db s") (simp_all add: creates_def ids_between_def row_ids_def add_rows_def)

lemma creates_trans:
  assumes "creates s rows t" and "creates t rows' u"
  shows "creates s (rows @ rows') u"
proof -
  have "map_option (add_rows rows') (map_option (add_rows rows) x) = map_option (add_rows (rows @ rows')) x" for x
    by (cases x) (simp_all add: add_rows_def add.assoc)
  with assms show ?thesis
    by (auto simp: creates_def intro: ids_between_trans)
qed

lemma creates_uuid: "uuid s = (Inr u, t) \<Longrightarrow> u = uuid_supply s \<and> creates s [] t"
  by (cases "cur_db s")
    (auto simp: uuid_def bind_def seq_def creates_def ids_between_def row_ids_def add_rows_def cur_db_def)

lemma insert_task_run:
  "insert_task row s = (Inr row', t) \<longleftrightarrow>
    (\<exists>d. cur_db s = Some d \<and> task_space row \<noteq> None \<and> row' = row\<lparr>task_id := Suc (task_seq d)\<rparr> \<and>
       t = s\<lparr>schemas := (schemas s)(search_path s \<mapsto> add_rows [row'] d)\<rparr>)"
  by (auto simp: insert_task_def bind_def seq_def db_query_def db_update_def cur_db_def add_rows_def
      Let_def split: if_splits option.splits)

text \<open>The signatures of a canvas element that stand for task rows, and what their rows hold.\<close>

definition step_ids :: "signature \<Rightarrow> nat list" where
  "step_ids sig = (case sig of StepSig u _ _ \<Rightarrow> [u] | _ \<Rightarrow> [])"

definition item_ids :: "canvas_item \<Rightarrow> nat list" where
  "item_ids c = (case c of Single sig \<Rightarrow> step_ids sig | Group sigs _ \<Rightarrow> concat (map step_ids sigs))"

definition names_in :: "json list \<Rightarrow> string list" where
  "names_in vs = concat (map (\<lambda>v. case v of JStr n \<Rightarrow> [n] | _ \<Rightarrow> []) vs)"

text \<open>The task names one element of the definition's list declares.\<close>

definition declared_names :: "json \<Rightarrow> string list" where
  "declared_names task =
     (case task of
        JStr n \<Rightarrow> [n]
      | JObj ((_, body) # _) \<Rightarrow>
          (case rbind (subscript body ''tasks'') iterate of Inl _ \<Rightarrow> [] | Inr ts \<Rightarrow> names_in ts)
      | _ \<Rightarrow> [])"

text \<open>Each row points back at the whole element before its own.\<close>

fun chain_previous :: "json \<Rightarrow> canvas_item list \<Rightarrow> json list" where
  "chain_previous p [] = []"
| "chain_previous p (c # cs) =
     replicate (length (item_ids c)) p @ chain_previous (JList (map uuid_json (item_ids c))) cs"

definition rows_for :: "builder \<Rightarrow> bool \<Rightarrow> task_row list \<Rightarrow> bool" where
  "rows_for b hook rows \<longleftrightarrow>
     (\<forall>r \<in> set rows. task_workflow r = wf_id (b_workflow b) \<and> task_status r = TInit \<and> is_hook r = hook \<and>
        task_space r = Some (wf_space (b_workflow b)))"

lemma step_sig_simps [simp]: "step_ids (StepSig u kw q) = [u]" "sig_id (StepSig u kw q) = uuid_json u"
  by (simp_all add: step_ids_def sig_id_def)

lemma new_task_creates:
  assumes "new_task b v hook single s = (Inr (sig, b'), t)"
  shows "\<exists>row. creates s [row] t \<and> step_ids sig = row_ids [row] \<and> map task_name [row] = map Some (names_in [v]) \<and>
    previous_data row = json_text (b_previous b) \<and> rows_for b hook [row] \<and>
    b' = (if single then b\<lparr>b_previous := JList (map uuid_json (step_ids sig))\<rparr> else b) \<and>
    (\<exists>u kw q. sig = StepSig u kw q)"
proof -
  from assms obtain u t1 sp name q row t2 where
    u: "uuid s = (Inr u, t1)" and name: "v = JStr name"
    and ins: "insert_task (set_previous (b_previous b) ((new_task_row (wf_id (b_workflow b)))
            \<lparr>celery_task_id := Some u, task_name := Some name,
             task_space := Some (wf_space (b_workflow b)), is_hook := hook\<rparr>)) t1 = (Inr row, t)"
    and sig: "sig = StepSig u
              \<lparr>kw_workflow_id = wf_id (b_workflow b), kw_payload = payload (b_workflow b),
               kw_context = context_of sp, kw_imports = b_imports b, kw_previous_output = JNull\<rparr> q"
    and b': "b' = (if single then b\<lparr>b_previous := JList [uuid_json u]\<rparr> else b)"
    by (auto simp: new_task_def bind_run get_space_row_def db_query_run as_str_def split: json.splits)
  from u have t1: "t1 = s\<lparr>uuid_supply := Suc u\<rparr>" and u': "u = uuid_supply s"
    by (auto simp: uuid_def bind_def seq_def)
  from ins have row: "celery_task_id row = Some u" "task_name row = Some name" "is_hook row = hook"
      "task_workflow row = wf_id (b_workflow b)" "task_status row = TInit"
      "previous_data row = json_text (b_previous b)" "task_space row = Some (wf_space (b_workflow b))"
    by (auto simp: insert_task_run set_previous_def new_task_row_def)
  moreover from ins row t1 u' have "creates s [row] t"
    by (auto simp: insert_task_run creates_def ids_between_def row_ids_def cur_db_def add_rows_def)
  ultimately show ?thesis
    using b' sig name by (auto simp: step_ids_def row_ids_def names_in_def rows_for_def intro!: exI [of _ row])
qed

lemma group_task_run:
  "group_task b hook v s = (Inr sig, t) \<longleftrightarrow> (\<exists>b'. new_task b v hook False s = (Inr (sig, b'), t))"
  by (auto simp: group_task_def bind_run)

lemma group_creates:
  assumes "map_each (group_task b hook) ts s = (Inr sigs, t)"
  shows "\<exists>rows. creates s rows t \<and> concat (map step_ids sigs) = row_ids rows \<and>
    map task_name rows = map Some (names_in ts) \<and>
    map previous_data rows = map json_text (replicate (length (row_ids rows)) (b_previous b)) \<and>
    rows_for b hook rows \<and> map sig_id sigs = map uuid_json (row_ids rows)"
  using assms
proof (induction ts arbitrary: s sigs)
  case Nil
  then show ?case by (auto simp: creates_none row_ids_def names_in_def rows_for_def)
next
  case (Cons v vs)
  from Cons.prems obtain sig b' t1 sigs' where
    one: "new_task b v hook False s = (Inr (sig, b'), t1)" and sigs: "sigs = sig # sigs'"
    and rest: "map_each (group_task b hook) vs t1 = (Inr sigs', t)"
    by (auto simp: bind_run group_task_run)
  from new_task_creates [OF one] obtain row u kw q where row: "creates s [row] t1" "step_ids sig = row_ids [row]"
      "map task_name [row] = map Some (names_in [v])" "previous_data row = json_text (b_previous b)"
      "rows_for b hook [row]" "sig = StepSig u kw q" by blast
  from Cons.IH [OF rest] obtain rows where rows: "creates t1 rows t" "concat (map step_ids sigs') = row_ids rows"
      "map task_name rows = map Some (names_in vs)"
      "map previous_data rows = map json_text (replicate (length (row_ids rows)) (b_previous b))"
      "rows_for b hook rows" "map sig_id sigs' = map uuid_json (row_ids rows)" by blast
  have "creates s ([row] @ rows) t" using row(1) rows(1) by (rule creates_trans)
  moreover have "names_in (v # vs) = names_in [v] @ names_in vs" by (simp add: names_in_def)
  ultimately show ?case using row rows sigs
    by (intro exI [of _ "[row] @ rows"])
      (auto simp: row_ids_def rows_for_def)
qed

lemma parse_task_creates:
  assumes "parse_task b task hook s = (Inr (c, b'), t)"
  shows "\<exists>rows. creates s rows t \<and> item_ids c = row_ids rows \<and>
    map task_name rows = map Some (declared_names task) \<and>
    map previous_data rows = map json_text (replicate (length (item_ids c)) (b_previous b)) \<and>
    rows_for b hook rows \<and> b' = b\<lparr>b_previous := JList (map uuid_json (item_ids c))\<rparr>"
proof (cases task)
  case (JStr n)
  with assms obtain sig where one: "new_task b task hook True s = (Inr (sig, b'), t)" and c: "c = Single sig"
    by (auto simp: parse_task_def bind_run)
  from new_task_creates [OF one] obtain row where "creates s [row] t" "step_ids sig = row_ids [row]"
      "map task_name [row] = map Some (names_in [task])" "previous_data row = json_text (b_previous b)"
      "rows_for b hook [row]" "b' = b\<lparr>b_previous := JList (map uuid_json (step_ids sig))\<rparr>" by auto
  with c JStr show ?thesis
    by (intro exI [of _ "[row]"]) (simp add: item_ids_def row_ids_def declared_names_def names_in_def)
next
  case (JObj ps)
  with assms obtain name body rest where ps: "ps = (name, body) # rest"
    by (cases ps) (auto simp: parse_task_def)
  with assms JObj obtain ts sigs t1 u where
    ts: "rbind (subscript body ''tasks'') iterate = Inr ts"
    and sigs: "map_each (group_task b hook) ts s = (Inr sigs, t1)" and u: "uuid t1 = (Inr u, t)"
    and c: "c = Group sigs None" "b' = b\<lparr>b_previous := JList (map sig_id sigs)\<rparr>"
    by (auto simp: parse_task_def parse_group_def bind_run seq_run)
  from group_creates [OF sigs] obtain rows where rows: "creates s rows t1" "concat (map step_ids sigs) = row_ids rows"
      "map task_name rows = map Some (names_in ts)"
      "map previous_data rows = map json_text (replicate (length (row_ids rows)) (b_previous b))"
      "rows_for b hook rows" "map sig_id sigs = map uuid_json (row_ids rows)" by blast
  have "creates s (rows @ []) t" using rows(1) creates_uuid [OF u] by (blast intro: creates_trans)
  with rows c ts JObj ps show ?thesis
    by (intro exI [of _ rows]) (simp add: item_ids_def declared_names_def)
qed (use assms in \<open>simp_all add: parse_task_def\<close>)

lemma parse_flat_tasks_creates:
  assumes "parse_flat_tasks b ts hook s = (Inr (cs, b'), t)"
  shows "\<exists>rows. creates s rows t \<and> row_ids rows = concat (map item_ids cs) \<and>
    map task_name rows = map Some (concat (map declared_names ts)) \<and>
    map previous_data rows = map json_text (chain_previous (b_previous b) cs) \<and>
    rows_for b hook rows \<and> (\<exists>p. b' = b\<lparr>b_previous := p\<rparr>) \<and> length cs = length ts"
  using assms
proof (induction ts arbitrary: b s cs)
  case Nil
  have "\<exists>p. b = b\<lparr>b_previous := p\<rparr>" by (rule exI [of _ "b_previous b"]) simp
  with Nil show ?case by (auto simp: creates_none row_ids_def rows_for_def)
next
  case (Cons v vs)
  from Cons.prems obtain c b1 t1 cs' where
    one: "parse_task b v hook s = (Inr (c, b1), t1)" and cs: "cs = c # cs'"
    and rest: "parse_flat_tasks b1 vs hook t1 = (Inr (cs', b'), t)"
    by (auto simp: bind_run)
  from parse_task_creates [OF one] obtain rows1 where one':
      "creates s rows1 t1" "item_ids c = row_ids rows1" "map task_name rows1 = map Some (declared_names v)"
      "map previous_data rows1 = map json_text (replicate (length (item_ids c)) (b_previous b))"
      "rows_for b hook rows1" "b1 = b\<lparr>b_previous := JList (map uuid_json (item_ids c))\<rparr>" by blast
  from Cons.IH [OF rest] obtain rows2 p where rest':
      "creates t1 rows2 t" "row_ids rows2 = concat (map item_ids cs')"
      "map task_name rows2 = map Some (concat (map declared_names vs))"
      "map previous_data rows2 = map json_text (chain_previous (b_previous b1) cs')"
      "rows_for b1 hook rows2" "b' = b1\<lparr>b_previous := p\<rparr>" "length cs' = length vs" by blast
  have "creates s (rows1 @ rows2) t" using one'(1) rest'(1) by (rule creates_trans)
  with one' rest' cs show ?case
    by (intro exI [of _ "rows1 @ rows2"]) (auto simp: row_ids_def rows_for_def)
qed

lemma set_queue_ids [simp]: "item_ids (set_queue q c) = item_ids c"
  by (auto simp: item_ids_def set_queue_def step_ids_def split: canvas_item.splits signature.splits)

lemma parse_queues_shape:
  assumes "parse_queues b = Inr b'"
  shows "(\<exists>q. b_queue b' = JStr q) \<and> (\<exists>ps. custom_queues b' = JObj ps) \<and>
    b' = b\<lparr>custom_queues := custom_queues b', b_queue := b_queue b'\<rparr>"
  using assms by (cases "b_queue b") (auto simp: parse_queues_def Let_def split: json.splits)

lemma read_definition_run:
  assumes "read_definition env i s = (Inr b, t)"
  shows "t = s \<and> b_previous b = JList [] \<and> canvas b = [] \<and> failure_hook_canvas b = [] \<and>
    success_hook_canvas b = [] \<and> (\<exists>q. b_queue b = JStr q) \<and>
    (\<exists>d. cur_db s = Some d \<and> find_row wf_id i (workflows d) = Some (b_workflow b))"
proof -
  from assms obtain w q ts fh sh bh b0 im t0 t1 t2 t3 t4 t5 where
    w: "get_workflow i s = (Inr w, t0)" and reads: "get_queue env (workflow_str w) t0 = (Inr q, t1)"
      "get_tasks env (workflow_str w) t1 = (Inr ts, t2)"
      "get_hook_task env (workflow_str w) ''failure'' t2 = (Inr fh, t3)"
      "get_hook_task env (workflow_str w) ''success'' t3 = (Inr sh, t4)"
      "get_hook_task env (workflow_str w) ''before_start'' t4 = (Inr bh, t5)"
      "get_imports env (workflow_str w) t5 = (Inr im, t)"
    and b0: "parse_queues
            \<lparr>b_workflow = w, custom_queues = JObj [], b_queue = q, b_imports = JNull,
             b_previous = JList [], canvas = [], b_tasks = ts, failure_hook = fh,
             failure_hook_canvas = [], success_hook = sh, success_hook_canvas = [],
             before_start_hook = bh\<rparr> = Inr b0" and b: "b = b0\<lparr>b_imports := im\<rparr>"
    by (auto simp: read_definition_def bind_run Let_def get_failure_hook_task_def
        get_success_hook_task_def get_before_start_hook_task_def)
  from w obtain d where d: "t0 = s" "cur_db s = Some d" "find_row wf_id i (workflows d) = Some w"
    by (auto simp: get_workflow_def db_query_run)
  have "t = s" using d(1) parts_read [THEN within_run] reads by metis
  with d b parse_queues_shape [OF b0] show ?thesis
    by (cases b0) auto
qed

lemma parse_hook_creates:
  assumes "parse_hook b hook s = (Inr (c, b'), t)"
  shows "\<exists>rows. creates s rows t \<and> row_ids rows = item_ids c \<and>
    map task_name rows = map Some (declared_names hook) \<and>
    map previous_data rows = map json_text (replicate (length (item_ids c)) (b_previous b)) \<and>
    rows_for b True rows \<and> (\<exists>p. b' = b\<lparr>b_previous := p\<rparr>)"
proof -
  from assms have "parse_flat_tasks b [hook] True s = (Inr ([c], b'), t)"
    by (auto simp: parse_hook_def bind_run)
  from parse_flat_tasks_creates [OF this] show ?thesis by simp
qed

text \<open>
  The canvas of a built workflow: start, the before-start hook if the definition has one, the
  tasks in the order of the definition, end.
\<close>

definition planned :: "builder \<Rightarrow> json list \<Rightarrow> canvas_item list \<Rightarrow> task_row list \<Rightarrow> bool" where
  "planned b ts cs rows \<longleftrightarrow>
     length cs = length ts \<and> row_ids rows = concat (map item_ids cs) \<and>
     map task_name rows = map Some (concat (map declared_names ts)) \<and>
     map previous_data rows = map json_text (chain_previous (JList []) cs) \<and> rows_for b False rows"

definition hooked :: "builder \<Rightarrow> canvas_item list \<Rightarrow> task_row list \<Rightarrow> bool" where
  "hooked b hs rows \<longleftrightarrow>
     length hs = (if truthy (before_start_hook b) then 1 else 0) \<and> row_ids rows = concat (map item_ids hs) \<and>
     map task_name rows = map Some (if truthy (before_start_hook b) then declared_names (before_start_hook b) else []) \<and>
     (\<forall>r \<in> set rows. previous_data r = None) \<and> rows_for b True rows"

lemma add_before_start_hook_creates:
  assumes "add_before_start_hook b s = (Inr b', t)"
  shows "\<exists>hs rows. creates s rows t \<and> hooked b hs rows \<and> b' = b\<lparr>canvas := hs @ canvas b\<rparr>"
proof (cases "truthy (before_start_hook b)")
  case True
  with assms obtain c b1 where
    h: "parse_hook (b\<lparr>b_previous := JNull\<rparr>) (before_start_hook b) s = (Inr (c, b1), t)"
    and b': "b' = b1\<lparr>canvas := set_queue (b_queue b1) c # canvas b1, b_previous := b_previous b\<rparr>"
    by (auto simp: add_before_start_hook_def bind_run)
  from parse_hook_creates [OF h] obtain rows p where rows: "creates s rows t" "row_ids rows = item_ids c"
      "map task_name rows = map Some (declared_names (before_start_hook b))"
      "map previous_data rows = map json_text (replicate (length (item_ids c)) JNull)"
      "rows_for b True rows" and b1: "b1 = b\<lparr>b_previous := p\<rparr>"
    by (auto simp: rows_for_def)
  have "previous_data r = None" if "r \<in> set rows" for r
  proof -
    have "previous_data r \<in> set (map previous_data rows)" using that by simp
    then show ?thesis unfolding rows(4) by (auto simp: json_text_def)
  qed
  with rows b1 b' True show ?thesis
    by (intro exI [of _ "[set_queue (b_queue b1) c]"] exI [of _ rows]) (simp add: hooked_def)
next
  case False
  with assms have "b' = b" "t = s" by (auto simp: add_before_start_hook_def)
  with False show ?thesis
    by (intro exI [of _ "[]"]) (simp add: hooked_def creates_none row_ids_def rows_for_def)
qed

lemma build_creates:
  assumes "build env i s = (Inr b, t)"
  shows "\<exists>ts cs hs rows hrows sp. iterate (b_tasks b) = Inr ts \<and> planned b ts cs rows \<and> hooked b hs hrows \<and>
    creates s (rows @ hrows) t \<and>
    canvas b = Single (StartSig (wf_id (b_workflow b)) (context_of sp) (b_queue b))
                 # hs @ cs @ [Single (EndSig (wf_id (b_workflow b)) (context_of sp) (b_queue b))] \<and>
    (\<exists>d. cur_db s = Some d \<and> find_row wf_id i (workflows d) = Some (b_workflow b) \<and>
       find_row space_id (wf_space (b_workflow b)) (spaces d) = Some sp) \<and> failure_hook_canvas b = [] \<and> success_hook_canvas b = []"
proof -
  from assms obtain b0 ts cs b1 b2 sp t0 t1 t2 where
    r: "read_definition env i s = (Inr b0, t0)" and ts: "iterate (b_tasks b0) = Inr ts"
    and p: "parse_flat_tasks b0 ts False t0 = (Inr (cs, b1), t1)"
    and h: "add_before_start_hook (b1\<lparr>canvas := cs\<rparr>) t1 = (Inr b2, t2)"
    and sp: "get_space_row (wf_space (b_workflow b2)) t2 = (Inr sp, t)"
    and b: "b = b2\<lparr>canvas := Single (StartSig (wf_id (b_workflow b2)) (context_of sp) (b_queue b2)) # canvas b2
                           @ [Single (EndSig (wf_id (b_workflow b2)) (context_of sp) (b_queue b2))]\<rparr>"
    by (auto simp: build_def bind_run Let_def)
  from read_definition_run [OF r] obtain d where t0: "t0 = s" "b_previous b0 = JList []" "failure_hook_canvas b0 = []"
      "success_hook_canvas b0 = []" "cur_db s = Some d" "find_row wf_id i (workflows d) = Some (b_workflow b0)" by blast
  from parse_flat_tasks_creates [OF p] t0 obtain rows q where rows: "creates s rows t1" "planned b0 ts cs rows"
      and b1: "b1 = b0\<lparr>b_previous := q\<rparr>"
    by (auto simp: planned_def)
  from add_before_start_hook_creates [OF h] obtain hs hrows where hs: "creates t1 hrows t2"
      "hooked (b1\<lparr>canvas := cs\<rparr>) hs hrows" and b2: "b2 = b1\<lparr>canvas := hs @ cs\<rparr>" by auto
  have c: "creates s (rows @ hrows) t2" using rows(1) hs(1) by (rule creates_trans)
  from sp c t0(5) have "t = t2" "find_row space_id (wf_space (b_workflow b2)) (spaces d) = Some sp"
    by (auto simp: get_space_row_def db_query_run creates_def add_rows_def)
  moreover have same: "b_workflow b = b_workflow b0" "b_tasks b = b_tasks b0" "b_queue b = b_queue b2"
      "before_start_hook b = before_start_hook b0" "failure_hook_canvas b = failure_hook_canvas b0"
      "success_hook_canvas b = success_hook_canvas b0" "b_workflow b2 = b_workflow b0"
    using b b1 b2 by simp_all
  moreover have "planned b ts cs rows" using rows(2) same(1) unfolding planned_def rows_for_def by simp
  moreover have "hooked b hs hrows" using hs(2) same(1,4) b1 unfolding hooked_def rows_for_def by simp
  moreover have "canvas b = Single (StartSig (wf_id (b_workflow b)) (context_of sp) (b_queue b))
                 # hs @ cs @ [Single (EndSig (wf_id (b_workflow b)) (context_of sp) (b_queue b))]"
    using b b2 by simp
  ultimately show ?thesis using c t0 ts by metis
qed

lemma build_hooks_creates:
  assumes "build_hooks b s = (Inr b', t)"
  shows "\<exists>rows. creates s rows t \<and> rows_for b True rows \<and> canvas b' = canvas b \<and> b_workflow b' = b_workflow b \<and>
    (truthy (success_hook b) \<and> success_hook_canvas b = [] \<longrightarrow>
       (\<exists>c. success_hook_canvas b' = [c] \<and> row_ids rows = item_ids c)) \<and> b_previous b' = b_previous b"
proof -
  from assms obtain b1 b3 t1 where
    f: "(if truthy (failure_hook b) \<and> failure_hook_canvas b = [] then
             bind (get_space_row (wf_space (b_workflow b))) (\<lambda>sp.
               ret (b\<lparr>b_previous := JNull, failure_hook_canvas :=
                      [FailureHooksSig (wf_id (b_workflow b)) (b_queue b) [failure_hook b]
                         (payload (b_workflow b)) (context_of sp)]\<rparr>))
           else ret b) s = (Inr b1, t1)"
    and g: "(if truthy (success_hook b1) \<and> success_hook_canvas b1 = [] then
             bind (parse_hook b1 (success_hook b1)) (\<lambda>(c, b2). ret (b2\<lparr>success_hook_canvas := [c]\<rparr>))
           else ret b1) t1 = (Inr b3, t)"
    and b': "b' = b3\<lparr>b_previous := b_previous b\<rparr>"
    unfolding build_hooks_def bind_run by auto
  from f have b1: "t1 = s" "canvas b1 = canvas b" "b_workflow b1 = b_workflow b" "success_hook b1 = success_hook b"
      "success_hook_canvas b1 = success_hook_canvas b"
    by (auto simp: bind_run get_space_row_def db_query_run split: if_splits)
  show ?thesis
  proof (cases "truthy (success_hook b1) \<and> success_hook_canvas b1 = []")
    case True
    with g obtain c b2 where h: "parse_hook b1 (success_hook b1) t1 = (Inr (c, b2), t)"
      and b3: "b3 = b2\<lparr>success_hook_canvas := [c]\<rparr>" by (auto simp: bind_run)
    from parse_hook_creates [OF h] obtain rows q where "creates s rows t" "row_ids rows = item_ids c"
        "rows_for b1 True rows" "b2 = b1\<lparr>b_previous := q\<rparr>"
      using b1(1) by blast
    with b1 b3 b' show ?thesis by (intro exI [of _ rows]) (auto simp: rows_for_def)
  next
    case False
    with g b1 b' show ?thesis by (intro exI [of _ "[]"]) (auto simp: creates_none rows_for_def)
  qed
qed

lemma run_canvas_queues:
  assumes "run_canvas env b s = (Inr u, t)"
  shows "\<exists>ls es. queue t = queue s @ [Chain (canvas b) ls es] \<and> search_path t = search_path s \<and>
    (\<exists>rows. cur_db t = map_option (add_rows rows) (cur_db s) \<and> rows_for b True rows)"
proof -
  from assms obtain i t1 b' t2 where
    i: "uuid s = (Inr i, t1)" and h: "build_hooks b t1 = (Inr b', t2)"
    and m: "publish_fails env (Chain (canvas b') (success_hook_canvas b') (failure_hook_canvas b')) = None"
    and t: "t = t2\<lparr>queue := queue t2 @ [Chain (canvas b') (success_hook_canvas b') (failure_hook_canvas b')]\<rparr>"
    by (auto simp: run_canvas_def bind_run seq_run Let_def apply_async_def split: option.splits)
  from creates_uuid [OF i] have c1: "creates s [] t1" ..
  from build_hooks_creates [OF h] obtain rows where c2: "creates t1 rows t2" and r: "rows_for b True rows"
    and c: "canvas b' = canvas b" by blast
  from creates_trans [OF c1 c2] have "creates s rows t2" by simp
  with t c r show ?thesis by (auto simp: creates_def cur_db_def)
qed

lemma create_workflow_init:
  assumes "create_workflow env w s = (Inr w', t)" and "wf_status w = WInit"
  shows "\<exists>d. cur_db s = Some d \<and> w' = w\<lparr>wf_id := Suc (wf_seq d)\<rparr> \<and>
    cur_db t = Some (d\<lparr>workflows := workflows d @ [w'], wf_seq := Suc (wf_seq d)\<rparr>) \<and>
    search_path t = search_path s \<and> queue t = queue s"
  using assms
  by (auto simp: create_workflow_def insert_workflow_def report_to_platform_def is_terminal_def bind_run seq_run
      db_query_run db_update_def cur_db_def Let_def split: option.splits)

text \<open>A started workflow: its row is new and in its first status, and one message starts it.\<close>

definition starts :: "nat \<Rightarrow> message \<Rightarrow> bool" where
  "starts i m =
     (case m of
        ExecuteWorkflowV2 j _ \<Rightarrow> j = i
      | Chain (Single (StartSig j _ _) # cs) _ _ \<Rightarrow> j = i \<and> cs \<noteq> [] \<and>
          (case last cs of Single (EndSig k _ _) \<Rightarrow> k = i | _ \<Rightarrow> False)
      | _ \<Rightarrow> False)"

lemma execute_workflow_run:
  assumes "execute_workflow env user code pl realm space pid_json cron s = (Inr v, t)"
  obtains u :: user_row and conf and sp :: space_row and tp manager pid w version s1 s2 where "lookup_only s s1"
    and "create_workflow env (set_payload (if pl = JNull then JObj [] else pl)
            ((new_workflow_row (space_id sp) (user_id u))
              \<lparr>wf_user_code := Some code, workflow_template := tp, is_manager := manager,
               platform_task_id := pid, wf_crontab := cron\<rparr>)) s1 = (Inr w, s2)"
    and "(if version = JStr ''2'' then
            apply_async (ExecuteWorkflowV2 (wf_id w) \<lparr>ctx_realm_code = realm, ctx_space_code = space\<rparr>)
          else bind (build env (wf_id w)) (run_canvas env)) s2 = (Inr (), t)"
    and "get_by_user_code env True code s = (Inr conf, s1)" and "dict_get conf ''version'' JNull = Inr version"
    and "v = to_dict True w"
proof -
  from assms obtain u conf s1 sp tp im manager pid w s2 version s3 s4 s5 and z :: unit where
    u: "get_user user s = (Inr u, s3)" and conf: "get_by_user_code env True code s3 = (Inr conf, s1)"
    and sp: "get_space_by_code space s1 = (Inr sp, s4)"
    and tp: "find_template (space_less code) (space_id sp) s4 = (Inr tp, s5)"
    and w: "create_workflow env (set_payload (if pl = JNull then JObj [] else pl)
            ((new_workflow_row (space_id sp) (user_id u))
              \<lparr>wf_user_code := Some code, workflow_template := tp, is_manager := manager,
               platform_task_id := pid, wf_crontab := cron\<rparr>)) s5 = (Inr w, s2)"
    and version: "dict_get conf ''version'' JNull = Inr version"
    and run: "(if version = JStr ''2'' then
            apply_async (ExecuteWorkflowV2 (wf_id w) \<lparr>ctx_realm_code = realm, ctx_space_code = space\<rparr>)
          else bind (build env (wf_id w)) (run_canvas env)) s2 = (Inr z, t)"
    and v: "to_dict True w = v"
    unfolding execute_workflow_def bind_run seq_run lift_run ret_run prod.inject sum.inject
    by (elim exE conjE) blast
  from u sp have eqs: "s3 = s" "s4 = s1" by (auto simp: get_user_def get_space_by_code_def db_query_run)
  have "within (=) (find_template a b)" for a b
    unfolding find_template_def get_template_for_def
    by (intro reading.catch reading.bind reading.db_query reading.ret reading.if_branch reading.throw)
  with tp have "s5 = s4" by (auto dest: within_run)
  with eqs conf w run version v show thesis
    by (intro that [of s1 pid manager tp sp u w s2 version conf])
      (simp_all add: within_run [OF get_by_user_code_lookup])
qed

text \<open>
  C8: a successful launch stores exactly one new workflow, in its first status and under the
  code it was asked for, returns it, and publishes exactly one message, which starts it.
\<close>

theorem execute_workflow_starts_once:
  assumes "execute_workflow env user code pl realm space pid_json cron s = (Inr v, t)"
  shows "\<exists>d d' w m. schemas s (search_path t) = Some d \<and> cur_db t = Some d' \<and> workflows d' = workflows d @ [w] \<and>
    wf_id w = Suc (wf_seq d) \<and> wf_seq d' = Suc (wf_seq d) \<and> wf_status w = WInit \<and>
    wf_user_code w = Some code \<and> v = to_dict True w \<and> queue t = queue s @ [m] \<and> starts (wf_id w) m"
proof -
  from assms obtain u :: user_row and sp :: space_row and tp manager pid w version s1 s2 where
    s1: "lookup_only s s1" and w: "create_workflow env (set_payload (if pl = JNull then JObj [] else pl)
            ((new_workflow_row (space_id sp) (user_id u))
              \<lparr>wf_user_code := Some code, workflow_template := tp, is_manager := manager,
               platform_task_id := pid, wf_crontab := cron\<rparr>)) s1 = (Inr w, s2)"
    and run: "(if version = JStr ''2'' then
            apply_async (ExecuteWorkflowV2 (wf_id w) \<lparr>ctx_realm_code = realm, ctx_space_code = space\<rparr>)
          else bind (build env (wf_id w)) (run_canvas env)) s2 = (Inr (), t)"
    and v: "v = to_dict True w" by (rule execute_workflow_run) blast
  from create_workflow_init [OF w] obtain d where d: "cur_db s1 = Some d" "wf_id w = Suc (wf_seq d)"
      "wf_status w = WInit" "wf_user_code w = Some code"
      "cur_db s2 = Some (d\<lparr>workflows := workflows d @ [w], wf_seq := Suc (wf_seq d)\<rparr>)"
      "search_path s2 = search_path s1" "queue s2 = queue s1"
    by (auto simp: set_payload_def new_workflow_row_def)
  from s1 have q: "queue s1 = queue s" "schemas s1 = schemas s" by (auto simp: lookup_only_def)
  show ?thesis
  proof (cases "version = JStr ''2''")
    case True
    with run have "t = s2\<lparr>queue := queue s2 @ [ExecuteWorkflowV2 (wf_id w)
        \<lparr>ctx_realm_code = realm, ctx_space_code = space\<rparr>]\<rparr>" by (auto simp: apply_async_def)
    with d q v show ?thesis by (auto simp: cur_db_def starts_def)
  next
    case False
    with run obtain b s3 where b: "build env (wf_id w) s2 = (Inr b, s3)" and r: "run_canvas env b s3 = (Inr (), t)"
      by (auto simp: bind_run)
    from build_creates [OF b] obtain hs cs rows sp' d2 where
      c: "creates s2 rows s3" "canvas b = Single (StartSig (wf_id (b_workflow b)) (context_of sp') (b_queue b))
                 # hs @ cs @ [Single (EndSig (wf_id (b_workflow b)) (context_of sp') (b_queue b))]"
        "cur_db s2 = Some d2" "find_row wf_id (wf_id w) (workflows d2) = Some (b_workflow b)" by blast
    from c(4) have "wf_id (b_workflow b) = wf_id w" by (auto dest: find_row_Some)
    with c(2) have m: "starts (wf_id w) (Chain (canvas b) ls es)" for ls es by (simp add: starts_def)
    from run_canvas_queues [OF r] obtain ls es rows' where
      "queue t = queue s3 @ [Chain (canvas b) ls es]" "search_path t = search_path s3"
      "cur_db t = map_option (add_rows rows') (cur_db s3)" by blast
    with c(1) d q v m show ?thesis by (auto simp: creates_def add_rows_def cur_db_def)
  qed
qed

definition sample_launch :: "(exc + json) \<times> world" where
  "sample_launch = execute_workflow sample_env ''finmars_bot'' ''space0.com.v1'' (JObj []) None
     (Some ''space0'') JNull None sample_world"

theorem execute_workflow_starts_once_witness:
  "\<exists>v t d w m. sample_launch = (Inr v, t) \<and> cur_db t = Some d \<and> workflows d = [sample_workflow, w] \<and>
     queue t = [m] \<and> starts (wf_id w) m"
proof -
  have ok: "\<not> isl (fst sample_launch) \<and> search_path (snd sample_launch) = ''space0''"
    by code_simp
  then obtain v t where r: "sample_launch = (Inr v, t)"
    by (cases sample_launch) (metis fst_conv isl_def sum.exhaust_sel)
  from ok have "search_path t = ''space0''" unfolding r by simp
  with execute_workflow_starts_once [OF r [unfolded sample_launch_def]] obtain d w m where
    "cur_db t = Some d" "workflows d = [sample_workflow, w]" "queue t = [m]" "starts (wf_id w) m"
    by (auto simp: sample_world_def sample_db_def)
  with r show ?thesis by blast
qed

end
