(* ===== verification/Api.thy ===== *)
theory Api
  imports Builder
begin

text \<open>
  The REST views of \<^verbatim>\<open>workflow/views.py\<close> that change or report workflows, and the computed
  parts of \<^verbatim>\<open>workflow/serializers.py\<close>.  A view takes the request's user, realm and space and
  its data, and gives a status with a body; an exception it does not handle leaves it.
\<close>

section \<open>Requests and responses\<close>

record http_request =
  req_username :: string
  req_realm :: "string option"
  req_space :: string
  req_data :: json

record http_response =
  resp_status :: nat
  resp_body :: json

definition ok :: "json \<Rightarrow> http_response" where
  "ok v = \<lparr>resp_status = 200, resp_body = v\<rparr>"

definition message_json :: "string \<Rightarrow> json" where
  "message_json m = JObj [(''message'', JStr m)]"

definition bad_request :: "string \<Rightarrow> http_response" where
  "bad_request m = \<lparr>resp_status = 400, resp_body = message_json m\<rparr>"

text \<open>\<^verbatim>\<open>self.get_object()\<close> raises \<^verbatim>\<open>Http404\<close>, which is not \<^verbatim>\<open>DoesNotExist\<close>.\<close>

definition get_object :: "nat \<Rightarrow> workflow_row io" where
  "get_object i = db_query (\<lambda>d. or_raise (find_row wf_id i (workflows d)) (Raised ''Http404'' []))"

section \<open>WorkflowViewSet\<close>

text \<open>\<^verbatim>\<open>run_workflow\<close>, of both view sets: the space is added unless its code occurs anywhere in the user code.\<close>

definition run_workflow :: "env \<Rightarrow> http_request \<Rightarrow> http_response io" where
  "run_workflow env req =
     bind (lift (rbind (subscript (req_data req) ''user_code'') as_str)) (\<lambda>uc.
     bind (lift (subscript (req_data req) ''payload'')) (\<lambda>pl.
     bind (lift (get_or_none (req_data req) ''platform_task_id'')) (\<lambda>pid.
       let code = (if \<not> contains (req_space req) uc then req_space req @ ''.'' @ uc else uc) in
       bind (get_by_user_code env True code) (\<lambda>_.
       bind (execute_workflow env (req_username req) code pl (req_realm req) (Some (req_space req)) pid None) (\<lambda>data.
         ret (ok data))))))"

definition relaunch :: "env \<Rightarrow> http_request \<Rightarrow> nat \<Rightarrow> http_response io" where
  "relaunch env req i =
     bind (get_workflow i) (\<lambda>w.
       case wf_user_code w of
         None \<Rightarrow> seq (get_user (req_username req)) (throw AttributeError)
       | Some code \<Rightarrow>
           bind (execute_workflow env (req_username req) code (payload w) (req_realm req)
                  (Some (req_space req)) JNull None) (\<lambda>data. ret (ok data)))"

definition cancellable :: "wf_status \<Rightarrow> bool" where
  "cancellable st \<longleftrightarrow> st \<in> {WInit, WProgress, WWait}"

definition cancel_view :: "env \<Rightarrow> nat \<Rightarrow> http_response io" where
  "cancel_view env i =
     bind (get_workflow i) (\<lambda>w.
       if cancellable (wf_status w) then
         seq (cancel env w) (ret (ok (to_dict True (w\<lparr>wf_status := WCanceled\<rparr>))))
       else ret (ok (message_json ''Could not Cancel finished task'')))"

text \<open>\<^verbatim>\<open>BulkSerializer\<close>: a list of integers, or strings that read as integers.\<close>

definition child_int :: "json \<Rightarrow> exc + int" where
  "child_int v =
     (case v of
        JInt i \<Rightarrow> Inr i
      | JStr s \<Rightarrow> (case py_int v of Inr i \<Rightarrow> Inr i | Inl _ \<Rightarrow> Inl (Raised ''ValidationError'' ''ids''))
      | _ \<Rightarrow> Inl (Raised ''ValidationError'' ''ids''))"

definition bulk_ids :: "json \<Rightarrow> exc + int list" where
  "bulk_ids v =
     (case v of
        JObj ps \<Rightarrow>
          (case map_of ps ''ids'' of
             Some (JList vs) \<Rightarrow> traverse child_int vs
           | _ \<Rightarrow> Inl (Raised ''ValidationError'' ''ids''))
      | _ \<Rightarrow> Inl (Raised ''ValidationError'' ''ids''))"

definition workflows_in :: "int list \<Rightarrow> schema_db \<Rightarrow> workflow_row list" where
  "workflows_in ids d = rev (filter (\<lambda>w. int (wf_id w) \<in> set ids) (workflows d))"

text \<open>
  \<^verbatim>\<open>bulk_cancel\<close> does not raise for invalid data: it then finds no \<^verbatim>\<open>ids\<close>.
\<close>

definition bulk_cancel :: "env \<Rightarrow> http_request \<Rightarrow> http_response io" where
  "bulk_cancel env req =
     bind (lift (case bulk_ids (req_data req) of Inl _ \<Rightarrow> Inl (KeyError ''ids'') | Inr ids \<Rightarrow> Inr ids)) (\<lambda>ids.
     bind (db_query (\<lambda>d. Inr (filter (\<lambda>w. cancellable (wf_status w)) (workflows_in ids d)))) (\<lambda>ws.
     seq (for_each ws (cancel env)) (ret (ok (JObj [(''status'', JStr ''ok'')])))))"

text \<open>\<^verbatim>\<open>workflow.delete()\<close>: tasks go with their workflow, children lose their parent.\<close>

definition delete_workflow :: "nat \<Rightarrow> schema_db \<Rightarrow> schema_db" where
  "delete_workflow i d =
     d\<lparr>workflows := map (\<lambda>w. if parent w = Some i then w\<lparr>parent := None\<rparr> else w)
                     (filter (\<lambda>w. wf_id w \<noteq> i) (workflows d)),
       tasks := filter (\<lambda>t. task_workflow t \<noteq> i) (tasks d)\<rparr>"

definition bulk_delete :: "env \<Rightarrow> http_request \<Rightarrow> http_response io" where
  "bulk_delete env req =
     bind (lift (bulk_ids (req_data req))) (\<lambda>ids.
     bind (db_query (\<lambda>d. Inr (workflows_in ids d))) (\<lambda>ws.
     seq (for_each ws (\<lambda>w. seq (cancel env w) (db_update (delete_workflow (wf_id w)))))
       (ret (ok (JObj [(''status'', JStr ''ok'')])))))"

definition pause_workflow :: "env \<Rightarrow> nat \<Rightarrow> http_response io" where
  "pause_workflow env i =
     catch
       (bind (get_object i) (\<lambda>w.
         if wf_status w \<noteq> WProgress then ret (bad_request ''Cannot pause workflow that is not in progress.'')
         else seq (save_workflow env (w\<lparr>wf_status := WWait\<rparr>))
           (ret (ok (message_json (''Workflow '' @ show_nat (wf_id w) @ '' paused successfully.''))))))
       (\<lambda>e. if e = DoesNotExist then ret \<lparr>resp_status = 404, resp_body = message_json ''Workflow not found.''\<rparr>
            else throw e)"

text \<open>\<^verbatim>\<open>ResumeWorkflowSerializer\<close>: an optional payload, which may not be null.\<close>

definition resume_payload :: "json \<Rightarrow> exc + json" where
  "resume_payload v =
     (case v of
        JObj ps \<Rightarrow>
          (case map_of ps ''payload'' of
             None \<Rightarrow> Inr JNull
           | Some p \<Rightarrow> if p = JNull then Inl (Raised ''ValidationError'' ''payload'') else Inr p)
      | _ \<Rightarrow> Inl (Raised ''ValidationError'' ''payload''))"

definition has_active_tasks :: "nat \<Rightarrow> schema_db \<Rightarrow> bool" where
  "has_active_tasks i d \<longleftrightarrow>
     list_ex (\<lambda>t. task_workflow t = i \<and> task_status t \<in> {TProgress, TInit}) (tasks d)"

definition resume_from :: "workflow_row \<Rightarrow> string \<Rightarrow> unit io" where
  "resume_from w cur =
     bind (lift (or_raise (workflow_template w) AttributeError)) (\<lambda>tpl.
     bind (get_template tpl) (\<lambda>tp.
     bind (lift (read_graph (tp_data tp))) (\<lambda>(ns, conns, adj).
     bind (get_space_row (wf_space w)) (\<lambda>sp.
       apply_async (ProcessNextNode cur (wf_id w) ns adj (context_of sp) conns)))))"

definition resume_workflow :: "env \<Rightarrow> http_request \<Rightarrow> nat \<Rightarrow> http_response io" where
  "resume_workflow env req i =
     catch
       (bind (lift (resume_payload (req_data req))) (\<lambda>new_payload.
        bind (get_object i) (\<lambda>w0.
          if wf_status w0 \<noteq> WWait then ret (bad_request ''Cannot resume workflow that is not paused.'')
          else bind (db_query (\<lambda>d. Inr (has_active_tasks (wf_id w0) d))) (\<lambda>active.
            if active then ret (bad_request ''Cannot resume workflow while there are active tasks running.'')
            else
              let w = (if truthy new_payload then set_payload new_payload w0 else w0)\<lparr>wf_status := WProgress\<rparr> in
              seq (save_workflow env w)
              (case current_node_id w of
                 None \<Rightarrow> ret (bad_request ''No node to resume from.'')
               | Some cur \<Rightarrow>
                   if cur = [] then ret (bad_request ''No node to resume from.'')
                   else seq (resume_from w cur)
                     (ret (ok (message_json (''Workflow '' @ show_nat (wf_id w) @ '' resumed successfully.'')))))))))
       (\<lambda>e. if e = DoesNotExist then ret \<lparr>resp_status = 404, resp_body = message_json ''Workflow not found.''\<rparr>
            else throw e)"

section \<open>Other views\<close>

text \<open>\<^verbatim>\<open>RefreshStorageViewSet.list\<close>\<close>

definition refresh_storage :: "env \<Rightarrow> http_request \<Rightarrow> http_response io" where
  "refresh_storage env req =
     seq (catch (seq (sync_remote_storage env (Some (req_space req))) (register_workflows env (Some (req_space req))))
            (\<lambda>_. ret ()))
       (ret (ok (JObj [(''status'', JStr ''ok'')])))"

text \<open>\<^verbatim>\<open>DefinitionViewSet.list\<close>: the definitions of the request's space, by code.\<close>

definition definition_entry :: "string \<Rightarrow> string \<times> json \<Rightarrow> exc + json list" where
  "definition_entry space item =
     rbind (subscript (snd item) ''workflow'') (\<lambda>part.
     rbind (subscript part ''space_code'') (\<lambda>sc.
       if sc = JStr space then
         (case part of
            JObj ps \<Rightarrow> Inr [JObj (dict_of ((''user_code'', JStr (fst item)) # ps))]
          | _ \<Rightarrow> Inl TypeError)
       else Inr []))"

definition list_definitions :: "http_request \<Rightarrow> http_response io" where
  "list_definitions req =
     bind (query (\<lambda>s. sort_key fst (registry s))) (\<lambda>items.
     bind (lift (traverse (definition_entry (req_space req)) items)) (\<lambda>vss.
       ret (ok (JList (concat vss)))))"

text \<open>
  \<^verbatim>\<open>LogFileViewSet.list\<close>: the position before reading is the start of the file, so that
  nothing is skipped.
\<close>

definition read_log :: "string option \<Rightarrow> nat \<Rightarrow> http_response" where
  "read_log file pos =
     (case file of
        None \<Rightarrow> \<lparr>resp_status = 404, resp_body = JObj [(''error'', JStr ''Log file not found'')]\<rparr>
      | Some content \<Rightarrow> ok (JStr (drop (pos - 2 * 1024 * 1024) content)))"

definition log_file_list :: "string option \<Rightarrow> http_response" where
  "log_file_list file = read_log file 0"

text \<open>\<^verbatim>\<open>ScheduleViewSet.run_manual\<close>: every exception, the missing schedule too, becomes a 500.\<close>

definition get_schedule_object :: "nat \<Rightarrow> schedule_row io" where
  "get_schedule_object i = db_query (\<lambda>d. or_raise (find_row sched_id i (schedules d)) (Raised ''Http404'' []))"

definition run_manual :: "env \<Rightarrow> nat \<Rightarrow> http_response io" where
  "run_manual env i =
     catch
       (bind (get_schedule_object i) (\<lambda>r.
         if \<not> sched_enabled r then ret (bad_request ''Cannot run a disabled schedule.'')
         else
           bind (get_space_row (sched_space r)) (\<lambda>sp.
           bind (lift (or_raise (sched_crontab r) AttributeError)) (\<lambda>cron.
           seq (apply_async (Execute (space_code sp @ ''.'' @ workflow_user_code r) (sched_payload r)
                  (sched_is_manager r) (context_of sp) (Some cron) (sched_id r)))
             (ret \<lparr>resp_status = 202, resp_body = message_json ''Schedule is being run manually.''\<rparr>)))))
       (\<lambda>e. ret \<lparr>resp_status = 500, resp_body = JObj [(''error'', JStr (str_exc env e))]\<rparr>)"

section \<open>Serializers\<close>

text \<open>\<^verbatim>\<open>str.isdigit\<close> also holds for the superscript digits, which \<^verbatim>\<open>int\<close> does not read.\<close>

definition isdigit :: "string \<Rightarrow> bool" where
  "isdigit s \<longleftrightarrow> s \<noteq> [] \<and> list_all (\<lambda>c. is_digit c \<or> (of_char c :: nat) \<in> {178, 179, 185}) s"

definition get_workflow_version :: "template_row option \<Rightarrow> exc + int" where
  "get_workflow_version tp =
     (case tp of
        None \<Rightarrow> Inr 1
      | Some t \<Rightarrow>
          if truthy (tp_data t) then
            rbind (case tp_data t of JStr s \<Rightarrow> json_loads s | v \<Rightarrow> Inr v) (\<lambda>data.
            rbind (dict_get data ''version'' JNull) (\<lambda>version.
              case version of
                JStr s \<Rightarrow> if isdigit s then py_int version else Inr 1
              | _ \<Rightarrow> Inr 1))
          else Inr 1)"

text \<open>\<^verbatim>\<open>WorkflowTemplateSerializer.save_to_storage\<close>: the file and its text.\<close>

definition nth_or_raise :: "'a list \<Rightarrow> nat \<Rightarrow> exc + 'a" where
  "nth_or_raise xs n = (if n < length xs then Inr (xs ! n) else Inl IndexError)"

definition template_file :: "template_row \<Rightarrow> exc + (string \<times> string)" where
  "template_file tp =
     rbind (or_raise (tp_user_code tp) AttributeError) (\<lambda>code.
     let pieces = split_on (CHR '':'') code in
     rbind (nth_or_raise pieces 1) (\<lambda>name.
     let parts = split_on (CHR ''.'') (hd pieces) in
     rbind (nth_or_raise parts 0) (\<lambda>p0. rbind (nth_or_raise parts 1) (\<lambda>p1. rbind (nth_or_raise parts 2) (\<lambda>p2.
       Inr (''workflows/'' @ p0 @ ''/'' @ p1 @ ''/'' @ p2 @ ''/'' @ name @ ''/workflow.json'',
            dump (Some 4) 0 (tp_data tp)))))))"

text \<open>\<^verbatim>\<open>ScheduleSerializer.validate_crontab_line\<close>\<close>

definition validate_crontab_line :: "string \<Rightarrow> exc + string" where
  "validate_crontab_line value =
     (case split_on (CHR '' '') value of
        [_, _, _, _, _] \<Rightarrow> Inr value
      | _ \<Rightarrow> Inl (Raised ''ValidationError''
               ''Wrong crontab format. Make sure there are 5 space-separated values''))"

text \<open>\<^verbatim>\<open>CeleryTaskSerializer.to_representation\<close>: the link to the task shown.\<close>

definition str_json :: "json \<Rightarrow> string" where
  "str_json v = (case v of JStr s \<Rightarrow> s | JInt i \<Rightarrow> show_int i | JNull \<Rightarrow> ''None''
     | JBool b \<Rightarrow> (if b then ''True'' else ''False'') | _ \<Rightarrow> dumps_plain v)"

definition celery_task_url :: "json \<Rightarrow> exc + json" where
  "celery_task_url instance_data =
     rbind (dict_get instance_data ''kwargs'' (JObj [])) (\<lambda>kw.
     rbind (dict_get kw ''context'' (JObj [])) (\<lambda>ctx.
     rbind (dict_get ctx ''realm_code'' (JStr [])) (\<lambda>realm.
     rbind (dict_get ctx ''space_code'' (JStr [])) (\<lambda>space.
     rbind (dict_get instance_data ''hostname'' (JStr [])) (\<lambda>host.
     rbind (as_str host) (\<lambda>h.
       if contains ''workflow'' h then
         rbind (dict_get kw ''workflow_id'' JNull) (\<lambda>wid.
           Inr (if truthy wid \<and> truthy realm \<and> truthy space
                then JStr (''/'' @ str_json realm @ ''/'' @ str_json space @ ''/w/workflow/'' @ str_json wid)
                else JNull))
       else if contains ''backend'' h then
         rbind (dict_get kw ''task_id'' JNull) (\<lambda>tid.
           Inr (if truthy tid \<and> truthy realm \<and> truthy space
                then JStr (''/'' @ str_json realm @ ''/'' @ str_json space @ ''/api/v1/tasks/task/'' @ str_json tid)
                else JNull))
       else Inr JNull))))))"

end
