(* ===== verification/Control.thy ===== *)
theory Control
  imports Api
begin

text \<open>
  What the operations on running workflows do: cancelling, pausing, parking and resuming,
  reading the inputs of a node.  The loop of \<^verbatim>\<open>Workflow.cancel\<close>, which saves one task at a
  time, is shown to be one bulk update of the table.
\<close>

section \<open>Cancelling\<close>

definition canceled :: "nat \<Rightarrow> task_row \<Rightarrow> task_row" where
  "canceled time t =
     (if to_cancel (task_status t) then mark_task_as_finished time (t\<lparr>task_status := TCanceled\<rparr>) else t)"

definition revokes :: "task_row list \<Rightarrow> effect list" where
  "revokes ts = map (\<lambda>t. Revoke (celery_task_id t)) (filter (\<lambda>t. to_cancel (task_status t)) ts)"

text \<open>The abstract specification: every active task of the workflow is cancelled at once.\<close>

definition cancel_all :: "nat \<Rightarrow> nat \<Rightarrow> schema_db \<Rightarrow> schema_db" where
  "cancel_all time i d = d\<lparr>tasks := map (\<lambda>t. if task_workflow t = i then canceled time t else t) (tasks d)\<rparr>"

definition tasks_ok :: "schema_db \<Rightarrow> bool" where
  "tasks_ok d \<longleftrightarrow> distinct (map task_id (tasks d)) \<and> list_all (\<lambda>t. task_space t \<noteq> None) (tasks d)"

lemma canceled_id [simp]: "task_id (canceled time t) = task_id t"
  by (simp add: canceled_def mark_task_as_finished_def)

lemma canceled_workflow [simp]: "task_workflow (canceled time t) = task_workflow t"
  by (simp add: canceled_def mark_task_as_finished_def)

lemma canceled_space [simp]: "task_space (canceled time t) = task_space t"
  by (simp add: canceled_def mark_task_as_finished_def)

lemma save_row_distinct:
  assumes "distinct (map pk xs)" and "x \<in> set xs" and "pk y = pk x"
  shows "save_row pk y xs = map (\<lambda>z. if z = x then y else z) xs"
proof -
  have "z = x" if "z \<in> set xs" "pk z = pk y" for z
    using assms that by (metis distinct_map inj_onD)
  moreover have "pk y \<in> pk ` set xs" using assms(2,3) by (metis imageI)
  ultimately show ?thesis using assms(3) by (auto simp: save_row_def)
qed

text \<open>
  Three loops of the program rewrite task rows one at a time: \<^verbatim>\<open>Workflow.cancel\<close>,
  \<^verbatim>\<open>mark_as_canceled_init_tasks\<close> and \<^verbatim>\<open>cancel_all_existing_tasks\<close>.  The contract of such a
  body, and what the loop over it does to the table.
\<close>

locale task_rewrite =
  fixes body :: "task_row \<Rightarrow> unit io"
    and eff :: "task_row \<Rightarrow> effect list"
    and rewrite :: "nat \<Rightarrow> task_row \<Rightarrow> task_row"
  assumes body_run: "cur_db s = Some d \<Longrightarrow> tasks_ok d \<Longrightarrow> t \<in> set (tasks d) \<Longrightarrow>
      body t s = (Inr (), s\<lparr>outbox := outbox s @ eff t,
                 schemas := (schemas s)(search_path s \<mapsto>
                   d\<lparr>tasks := map (\<lambda>y. if y = t then rewrite (clock s) t else y) (tasks d)\<rparr>)\<rparr>)"
    and rewrite_id: "task_id (rewrite k t) = task_id t"
    and rewrite_space: "task_space (rewrite k t) = task_space t"
begin

lemma rewrite_ok: "tasks_ok d \<Longrightarrow> tasks_ok (d\<lparr>tasks := map (\<lambda>y. if P y then rewrite k y else y) (tasks d)\<rparr>)"
proof -
  have "map task_id (map (\<lambda>y. if P y then rewrite k y else y) (tasks d)) = map task_id (tasks d)"
    by (simp add: rewrite_id)
  then show "tasks_ok d \<Longrightarrow> ?thesis"
    by (auto simp: tasks_ok_def list_all_iff rewrite_space simp del: map_map)
qed

lemma loop_run:
  assumes "cur_db s = Some d" and "tasks_ok d" and "set ts \<subseteq> set (tasks d)" and "distinct ts"
  shows "for_each ts body s =
    (Inr (), s\<lparr>outbox := outbox s @ concat (map eff ts),
               schemas := (schemas s)(search_path s \<mapsto>
                 d\<lparr>tasks := map (\<lambda>y. if y \<in> set ts then rewrite (clock s) y else y) (tasks d)\<rparr>)\<rparr>)"
  using assms
proof (induction ts arbitrary: s d)
  case Nil
  then have "(schemas s)(search_path s \<mapsto> d) = schemas s" by (auto simp: cur_db_def)
  then show ?case by simp
next
  case (Cons t ts)
  let ?f = "\<lambda>y. if y = t then rewrite (clock s) t else y"
  let ?d = "d\<lparr>tasks := map ?f (tasks d)\<rparr>"
  let ?s = "s\<lparr>outbox := outbox s @ eff t, schemas := (schemas s)(search_path s \<mapsto> ?d)\<rparr>"
  have one: "body t s = (Inr (), ?s)" using Cons.prems by (intro body_run) auto
  have ids: "y = t" if "y \<in> set (tasks d)" "task_id y = task_id t" for y
    using that Cons.prems(2,3) by (auto simp: tasks_ok_def distinct_map dest: inj_onD)
  have out: "rewrite (clock s) t \<notin> set ts"
    using Cons.prems(3,4) ids by (metis rewrite_id distinct.simps(2) insert_subset list.simps(15) subsetD)
  have "map ?f (tasks d) = map (\<lambda>y. if y = t then rewrite (clock s) y else y) (tasks d)" by simp
  then have ok: "tasks_ok ?d" using rewrite_ok [OF Cons.prems(2), of "\<lambda>y. y = t"] by (simp only:)
  have sub: "set ts \<subseteq> set (tasks ?d)"
    using Cons.prems(3,4) by (auto simp: image_iff intro: bexI)
  have "cur_db ?s = Some ?d" by (simp add: cur_db_def)
  from Cons.IH [OF this ok sub] Cons.prems(4) have rest: "for_each ts body ?s =
    (Inr (), ?s\<lparr>outbox := outbox ?s @ concat (map eff ts),
               schemas := (schemas ?s)(search_path ?s \<mapsto>
                 ?d\<lparr>tasks := map (\<lambda>y. if y \<in> set ts then rewrite (clock ?s) y else y) (tasks ?d)\<rparr>)\<rparr>)"
    by (simp only: distinct.simps)
  have m: "map (\<lambda>y. if y \<in> set ts then rewrite (clock ?s) y else y) (tasks ?d)
      = map (\<lambda>y. if y \<in> set (t # ts) then rewrite (clock s) y else y) (tasks d)"
    using out Cons.prems(4) by (simp add: comp_def)
  have upd: "(schemas ?s)(search_path ?s \<mapsto> e) = (schemas s)(search_path s \<mapsto> e)" for e by simp
  have d': "?d\<lparr>tasks := ts'\<rparr> = d\<lparr>tasks := ts'\<rparr>" for ts' by simp
  show ?case unfolding for_each.simps seq_value [where m = "body t", OF one] rest m upd d'
    by (cases s) (auto simp: fun_eq_iff)
qed

end

lemma save_task_member:
  assumes "cur_db s = Some d" and "tasks_ok d" and "t \<in> set (tasks d)" and "task_id t' = task_id t"
    and "task_space t' = task_space t"
  shows "save_task t' s = (Inr (), s\<lparr>schemas := (schemas s)(search_path s \<mapsto>
      d\<lparr>tasks := map (\<lambda>y. if y = t then t' else y) (tasks d)\<rparr>)\<rparr>)"
proof -
  have "task_space t \<noteq> None" using assms(2,3) by (auto simp: tasks_ok_def list_all_iff)
  moreover have "save_row task_id t' (tasks d) = map (\<lambda>y. if y = t then t' else y) (tasks d)"
    using assms by (intro save_row_distinct) (auto simp: tasks_ok_def)
  ultimately show ?thesis using assms(1,5) by (simp add: save_task_def db_update_def)
qed

definition finish_canceled :: "nat \<Rightarrow> task_row \<Rightarrow> task_row" where
  "finish_canceled time t = mark_task_as_finished time (t\<lparr>task_status := TCanceled\<rparr>)"

lemma finish_canceled_simps [simp]:
  "task_id (finish_canceled k t) = task_id t" "task_space (finish_canceled k t) = task_space t"
  "task_status (finish_canceled k t) = TCanceled" "task_workflow (finish_canceled k t) = task_workflow t"
  "worker_name (finish_canceled k t) = worker_name t"
  by (simp_all add: finish_canceled_def mark_task_as_finished_def)

interpretation cancelling: task_rewrite cancel_task "\<lambda>t. revokes [t]" canceled
proof
  fix s d and t :: task_row
  assume "cur_db s = Some d" and "tasks_ok d" and "t \<in> set (tasks d)"
  show "cancel_task t s = (Inr (), s\<lparr>outbox := outbox s @ revokes [t],
                 schemas := (schemas s)(search_path s \<mapsto>
                   d\<lparr>tasks := map (\<lambda>y. if y = t then canceled (clock s) t else y) (tasks d)\<rparr>)\<rparr>)"
  proof (cases "to_cancel (task_status t)")
    case True
    let ?s = "s\<lparr>outbox := outbox s @ [Revoke (celery_task_id t)]\<rparr>"
    have "cur_db ?s = Some d" using \<open>cur_db s = Some d\<close> by (simp add: cur_db_def)
    from save_task_member [OF this \<open>tasks_ok d\<close> \<open>t \<in> set (tasks d)\<close>, of "canceled (clock s) t"] True show ?thesis
      by (simp add: cancel_task_def canceled_def seq_def bind_def emit_def now_def revokes_def
          mark_task_as_finished_def)
  next
    case False
    then have "map (\<lambda>y. if y = t then canceled (clock s) t else y) (tasks d) = tasks d"
      by (intro map_idI) (simp add: canceled_def)
    moreover have "(schemas s)(search_path s \<mapsto> d) = schemas s"
      using \<open>cur_db s = Some d\<close> by (auto simp: cur_db_def)
    ultimately show ?thesis using False by (simp add: cancel_task_def revokes_def)
  qed
qed simp_all

interpretation abandoning: task_rewrite
  "\<lambda>t. bind now (\<lambda>time. save_task (mark_task_as_finished time (t\<lparr>task_status := TCanceled\<rparr>)))"
  "\<lambda>t. []" finish_canceled
proof
  fix s d and t :: task_row
  assume "cur_db s = Some d" and "tasks_ok d" and "t \<in> set (tasks d)"
  from save_task_member [OF this, of "finish_canceled (clock s) t"]
  show "bind now (\<lambda>time. save_task (mark_task_as_finished time (t\<lparr>task_status := TCanceled\<rparr>))) s =
      (Inr (), s\<lparr>outbox := outbox s @ [], schemas := (schemas s)(search_path s \<mapsto>
         d\<lparr>tasks := map (\<lambda>y. if y = t then finish_canceled (clock s) t else y) (tasks d)\<rparr>)\<rparr>)"
    by (simp add: bind_def now_def finish_canceled_def mark_task_as_finished_def)
qed simp_all

lemma revokes_concat: "concat (map (\<lambda>t. revokes [t]) ts) = revokes ts"
  by (induction ts) (simp_all add: revokes_def)

text \<open>The report to the platform only sends requests.\<close>

definition sends_only :: "world \<Rightarrow> world \<Rightarrow> bool" where
  "sends_only s t \<longleftrightarrow> (\<exists>es. t = s\<lparr>outbox := outbox s @ es\<rparr>)"

lemma sends_only_request: "within sends_only (request env m url body tok)"
  by (auto simp: within_def sends_only_def request_def bind_def seq_def emit_def)

interpretation sends: world_frame sends_only
proof unfold_locales
  show "sends_only s s" for s unfolding sends_only_def by (rule exI [of _ "[]"]) simp
  show "sends_only s t \<Longrightarrow> sends_only t u \<Longrightarrow> sends_only s u" for s t u
    by (auto simp: sends_only_def)
qed

lemma update_task_status_sends: "within sends_only (update_task_status env i st res err)"
  unfolding update_task_status_def get_refresh_token_def get_base_path_def get_realm_code_def get_space_code_def
  by (intro sends.bind sends.option_branch sends.catch sends.if_branch sends.lift sends.ret sends.throw
      sends.queries sends_only_request)

lemma report_to_platform_sends: "within sends_only (report_to_platform env w)"
  unfolding report_to_platform_def
  by (intro sends.bind sends.seq sends.option_branch sends.list_branch sends.catch sends.if_branch sends.lift
      sends.ret sends.db_query update_task_status_sends)

lemma report_to_platform_total: "fst (report_to_platform env w s) = Inr ()"
  by (auto simp: report_to_platform_def catch_def split: option.splits prod.splits sum.splits)

lemma save_workflow_run:
  assumes "cur_db s = Some d"
  shows "\<exists>es. save_workflow env w s =
    (Inr (), s\<lparr>schemas := (schemas s)(search_path s \<mapsto> d\<lparr>workflows := save_row wf_id w (workflows d)\<rparr>),
               outbox := outbox s @ es\<rparr>)"
proof -
  let ?s = "s\<lparr>schemas := (schemas s)(search_path s \<mapsto> d\<lparr>workflows := save_row wf_id w (workflows d)\<rparr>)\<rparr>"
  obtain es where "snd (report_to_platform env w ?s) = ?s\<lparr>outbox := outbox ?s @ es\<rparr>"
    using withinD [OF report_to_platform_sends, of ?s env w] by (auto simp: sends_only_def)
  then have "report_to_platform env w ?s = (Inr (), ?s\<lparr>outbox := outbox ?s @ es\<rparr>)"
    using report_to_platform_total [of env w ?s] by (cases "report_to_platform env w ?s") auto
  then have "save_workflow env w s = (Inr (), ?s\<lparr>outbox := outbox ?s @ es\<rparr>)"
    using assms by (simp add: save_workflow_def put_workflow_def db_update_def seq_def bind_def cur_db_def)
  then show ?thesis by (intro exI [of _ es]) simp
qed

lemma cancel_run:
  assumes "cur_db s = Some d" and "tasks_ok d"
  shows "\<exists>es. cancel env w s =
    (Inr (), s\<lparr>schemas := (schemas s)(search_path s \<mapsto>
                 (cancel_all (clock s) (wf_id w) d)
                   \<lparr>workflows := save_row wf_id (w\<lparr>wf_status := WCanceled\<rparr>) (workflows d)\<rparr>),
               outbox := outbox s @ revokes (tasks_of (wf_id w) d) @ es\<rparr>)"
proof -
  let ?ts = "tasks_of (wf_id w) d"
  let ?s = "s\<lparr>outbox := outbox s @ revokes ?ts, schemas := (schemas s)(search_path s \<mapsto> cancel_all (clock s) (wf_id w) d)\<rparr>"
  have dist: "distinct ?ts" using assms(2) by (auto simp: tasks_of_def tasks_ok_def distinct_map)
  have sub: "set ?ts \<subseteq> set (tasks d)" by (auto simp: tasks_of_def)
  have eq: "map (\<lambda>y. if y \<in> set ?ts then canceled (clock s) y else y) (tasks d)
      = map (\<lambda>t. if task_workflow t = wf_id w then canceled (clock s) t else t) (tasks d)"
    by (rule map_cong) (auto simp: tasks_of_def)
  have loop: "for_each ?ts cancel_task s = (Inr (), ?s)"
    using cancelling.loop_run [OF assms sub dist] unfolding eq cancel_all_def revokes_concat .
  have db: "cur_db ?s = Some (cancel_all (clock s) (wf_id w) d)" by (simp add: cur_db_def)
  from save_workflow_run [OF db, of env "w\<lparr>wf_status := WCanceled\<rparr>"] obtain es where
    "save_workflow env (w\<lparr>wf_status := WCanceled\<rparr>) ?s = (Inr (), ?s\<lparr>schemas := (schemas ?s)(search_path ?s \<mapsto>
       (cancel_all (clock s) (wf_id w) d)\<lparr>workflows := save_row wf_id (w\<lparr>wf_status := WCanceled\<rparr>)
         (workflows (cancel_all (clock s) (wf_id w) d))\<rparr>), outbox := outbox ?s @ es\<rparr>)" by blast
  with loop assms(1) show ?thesis
    by (intro exI [of _ es]) (simp add: cancel_def bind_def db_query_def seq_value cancel_all_def)
qed

lemma cancel_all_ok: "tasks_ok d \<Longrightarrow> tasks_ok (cancel_all k i d)"
  unfolding cancel_all_def by (rule cancelling.rewrite_ok)

text \<open>
  C6: cancelling a workflow refines one bulk update: from a database with distinct task ids it
  never fails, whatever the platform answers; it cancels exactly the active tasks of the
  workflow, leaves every other task and every other schema alone, stores the workflow as
  cancelled, publishes nothing, and first revokes the Celery tasks of exactly the cancelled
  rows.
\<close>

theorem cancel_refines:
  assumes "cur_db s = Some d" and "tasks_ok d"
  shows "\<exists>t d' es. cancel env w s = (Inr (), t) \<and> cur_db t = Some d' \<and>
    tasks d' = tasks (cancel_all (clock s) (wf_id w) d) \<and>
    find_row wf_id (wf_id w) (workflows d') = Some (w\<lparr>wf_status := WCanceled\<rparr>) \<and>
    (\<forall>i. i \<noteq> wf_id w \<longrightarrow> find_row wf_id i (workflows d') = find_row wf_id i (workflows d)) \<and>
    (\<forall>x. x \<noteq> search_path s \<longrightarrow> schemas t x = schemas s x) \<and> queue t = queue s \<and>
    outbox t = outbox s @ revokes (tasks_of (wf_id w) d) @ es"
proof -
  from cancel_run [OF assms, of env w] obtain es where
    "cancel env w s =
    (Inr (), s\<lparr>schemas := (schemas s)(search_path s \<mapsto>
                 (cancel_all (clock s) (wf_id w) d)
                   \<lparr>workflows := save_row wf_id (w\<lparr>wf_status := WCanceled\<rparr>) (workflows d)\<rparr>),
               outbox := outbox s @ revokes (tasks_of (wf_id w) d) @ es\<rparr>)" by blast
  then show ?thesis by (intro exI [of _ es] exI) (auto simp: cur_db_def find_row_save_row)
qed

theorem cancel_refines_witness:
  "\<exists>t d' es. cancel sample_env sample_workflow sample_world = (Inr (), t) \<and> cur_db t = Some d' \<and>
    map task_status (tasks d') = [TCanceled] \<and> outbox t = Revoke (Some 0) # es \<and>
    schemas t ''space1'' = Some sample_db"
proof -
  have "cur_db sample_world = Some sample_db" and "tasks_ok sample_db"
    by (simp_all add: cur_db_def sample_world_def sample_db_def tasks_ok_def sample_task_def)
  from cancel_refines [OF this, of sample_env sample_workflow] obtain t d' es where
    "cancel sample_env sample_workflow sample_world = (Inr (), t)" "cur_db t = Some d'"
    "tasks d' = tasks (cancel_all (clock sample_world) 1 sample_db)" "schemas t ''space1'' = schemas sample_world ''space1''"
    "outbox t = outbox sample_world @ revokes (tasks_of 1 sample_db) @ es"
    by (auto simp: sample_world_def sample_workflow_def)
  then show ?thesis
    by (intro exI [of _ t] exI [of _ d'] exI [of _ es])
      (simp add: sample_world_def sample_db_def cancel_all_def sample_task_def canceled_def to_cancel_def
        mark_task_as_finished_def revokes_def tasks_of_def)
qed

text \<open>
  The clean-up after a failed version 1 workflow cancels exactly the tasks of that workflow
  that were never started.
\<close>

lemma mark_as_canceled_exact:
  assumes "space_of ctx = Some code" and "schema_exists code s" and "schemas s (ascii_lower code) = Some d"
    and "tasks_ok d"
  shows "\<exists>t d'. mark_as_canceled_init_tasks i ctx s = (Inr (), t) \<and> cur_db t = Some d' \<and>
    tasks d' = map (\<lambda>y. if task_workflow y = i \<and> task_status y = TInit then finish_canceled (clock s) y else y) (tasks d) \<and>
    workflows d' = workflows d \<and> queue t = queue s \<and> outbox t = outbox s"
proof -
  let ?s = "s\<lparr>search_path := ascii_lower code\<rparr>"
  let ?ts = "filter (\<lambda>t. task_status t = TInit) (tasks_of i d)"
  have enter: "set_schema_from_context ctx s = (Inr (), ?s)" using assms(1,2) by (simp add: set_schema_ok)
  have db: "cur_db ?s = Some d" using assms(3) by (simp add: cur_db_def)
  have "set ?ts \<subseteq> set (tasks d)" "distinct ?ts"
    using assms(4) by (auto simp: tasks_of_def tasks_ok_def distinct_map)
  note loop = abandoning.loop_run [OF db assms(4) this]
  have "map (\<lambda>y. if y \<in> set ?ts then finish_canceled (clock ?s) y else y) (tasks d)
      = map (\<lambda>y. if task_workflow y = i \<and> task_status y = TInit then finish_canceled (clock s) y else y) (tasks d)"
    by (rule map_cong) (auto simp: tasks_of_def)
  then show ?thesis
    unfolding mark_as_canceled_init_tasks_def seq_value [where m = "set_schema_from_context ctx", OF enter]
    using loop db by (simp add: bind_def db_query_def) (simp add: cur_db_def)
qed

lemma mark_as_canceled_sample:
  "\<exists>t d'. mark_as_canceled_init_tasks 1 (Some sample_context) sample_world = (Inr (), t) \<and> cur_db t = Some d' \<and>
    map task_status (tasks d') = [TProgress]"
proof -
  have lower: "ascii_lower ''space0'' = ''space0''" by code_simp
  have "space_of (Some sample_context) = Some ''space0''" "schema_exists ''space0'' sample_world"
      "schemas sample_world (ascii_lower ''space0'') = Some sample_db" "tasks_ok sample_db"
    by (simp_all add: space_of_def sample_context_def schema_exists_def sample_world_def lower sample_db_def
        tasks_ok_def sample_task_def)
  from mark_as_canceled_exact [OF this, of 1] obtain t d' where
    "mark_as_canceled_init_tasks 1 (Some sample_context) sample_world = (Inr (), t)" "cur_db t = Some d'"
    "tasks d' = map (\<lambda>y. if task_workflow y = 1 \<and> task_status y = TInit then finish_canceled (clock sample_world) y else y)
       (tasks sample_db)" by blast
  then show ?thesis
    by (intro exI [of _ t] exI [of _ d']) (simp add: sample_db_def sample_task_def)
qed

section \<open>Pausing, parking, resuming\<close>

definition set_status :: "wf_status \<Rightarrow> workflow_row \<Rightarrow> workflow_row" where
  "set_status st w = w\<lparr>wf_status := st\<rparr>"

lemma get_object_run:
  "cur_db s = Some d \<Longrightarrow> get_object i s = (or_raise (find_row wf_id i (workflows d)) (Raised ''Http404'' []), s)"
  by (simp add: get_object_def db_query_def)

text \<open>A status that is not final is not reported.\<close>

definition stored :: "workflow_row \<Rightarrow> schema_db \<Rightarrow> schema_db" where
  "stored w d = d\<lparr>workflows := save_row wf_id w (workflows d)\<rparr>"

definition in_schema :: "(schema_db \<Rightarrow> schema_db) \<Rightarrow> schema_db \<Rightarrow> world \<Rightarrow> world" where
  "in_schema f d s = s\<lparr>schemas := (schemas s)(search_path s \<mapsto> f d)\<rparr>"

lemma save_workflow_quiet:
  assumes "cur_db s = Some d" and "\<not> is_terminal (wf_status w)"
  shows "save_workflow env w s = (Inr (), in_schema (stored w) d s)"
  using assms
  by (simp add: save_workflow_def put_workflow_def db_update_def seq_def bind_def report_to_platform_def
      stored_def in_schema_def split: option.splits)

lemma in_schema_simps [simp]:
  "cur_db (in_schema f d s) = Some (f d)" "search_path (in_schema f d s) = search_path s"
  "queue (in_schema f d s) = queue s" "clock (in_schema f d s) = clock s"
  "outbox (in_schema f d s) = outbox s" "schema_names (in_schema f d s) = schema_names s"
  "schema_exists c (in_schema f d s) = schema_exists c s"
  by (simp_all add: in_schema_def cur_db_def schema_exists_def)

lemma in_schema_twice [simp]: "in_schema g (f d) (in_schema f d s) = in_schema (g \<circ> f) d s"
  by (cases s) (simp add: in_schema_def)

lemma stored_simps [simp]:
  "tasks (stored w d) = tasks d" "templates (stored w d) = templates d" "spaces (stored w d) = spaces d"
  "find_row wf_id i (workflows (stored w d)) = (if i = wf_id w then Some w else find_row wf_id i (workflows d))"
  by (simp_all add: stored_def find_row_save_row)

text \<open>
  Pausing succeeds exactly for a workflow in progress, and then only its status changes.
\<close>

lemma pause_spec:
  assumes "cur_db s = Some d" and "find_row wf_id i (workflows d) = Some w"
  shows "\<exists>r. pause_workflow env i s =
    (if wf_status w = WProgress then (Inr r, in_schema (stored (w\<lparr>wf_status := WWait\<rparr>)) d s) else (Inr r, s)) \<and>
    resp_status r = (if wf_status w = WProgress then 200 else 400)"
  using assms save_workflow_quiet [OF assms(1), of "w\<lparr>wf_status := WWait\<rparr>" env]
  by (simp add: pause_workflow_def catch_def bind_def seq_def get_object_run ok_def bad_request_def is_terminal_def)

lemma sample_db_cur: "cur_db sample_world = Some sample_db"
  by (simp add: cur_db_def sample_world_def)

lemma sample_row: "find_row wf_id 1 (workflows sample_db) = Some sample_workflow"
  by (simp add: sample_db_def sample_workflow_def)

lemma pause_sample:
  "\<exists>r. pause_workflow sample_env 1 sample_world =
     (Inr r, in_schema (stored (sample_workflow\<lparr>wf_status := WWait\<rparr>)) sample_db sample_world) \<and> resp_status r = 200"
  using pause_spec [OF sample_db_cur sample_row, of sample_env] by (simp add: sample_workflow_def)

text \<open>A node that is reached while the workflow waits is parked, and nothing else happens.\<close>

lemma park_run:
  assumes "space_of ctx = Some code" and "schema_exists code s" and "schemas s (ascii_lower code) = Some d"
    and "find_row wf_id i (workflows d) = Some w" and "wf_status w = WWait" and "cur \<in> set (keys ns)"
  shows "process_next_node env app cur i ns ctx conns s =
    (Inr (), in_schema (stored (w\<lparr>current_node_id := Some cur\<rparr>)) d (s\<lparr>search_path := ascii_lower code\<rparr>))"
proof -
  let ?s = "s\<lparr>search_path := ascii_lower code\<rparr>"
  have enter: "set_schema_from_context ctx s = (Inr (), ?s)" using assms(1,2) by (simp add: set_schema_ok)
  have db: "cur_db ?s = Some d" using assms(3) by (simp add: cur_db_def)
  from assms(6) obtain node where node: "map_of ns cur = Some node"
    by (metis keys_def map_of_eq_None_iff not_Some_eq set_map)
  have "save_workflow env (w\<lparr>current_node_id := Some cur\<rparr>) ?s
      = (Inr (), in_schema (stored (w\<lparr>current_node_id := Some cur\<rparr>)) d ?s)"
    using assms(5) by (intro save_workflow_quiet db) (simp add: is_terminal_def)
  with enter db node assms(4,5) show ?thesis
    by (simp add: process_next_node_def seq_value catch_def bind_def get_workflow_def db_query_def)
qed

lemma sample_paused_facts:
  "space_of (Some sample_context) = Some ''space0''" "schema_exists ''space0'' sample_paused_world"
  "schemas sample_paused_world (ascii_lower ''space0'') = Some sample_paused"
  "cur_db sample_paused_world = Some sample_paused"
  "find_row wf_id 1 (workflows sample_paused) = Some (sample_workflow\<lparr>wf_status := WWait\<rparr>)"
proof -
  have "ascii_lower ''space0'' = ''space0''" by code_simp
  then show "schemas sample_paused_world (ascii_lower ''space0'') = Some sample_paused"
    by (simp add: sample_paused_world_def)
qed (simp_all add: space_of_def sample_context_def schema_exists_def sample_paused_world_def sample_world_def
    cur_db_def sample_paused_def sample_workflow_def)

lemma resume_from_run:
  assumes "cur_db s = Some d" and "workflow_template w = Some tpl"
    and "find_row tp_id tpl (templates d) = Some tp" and "read_graph (tp_data tp) = Inr (ns, conns, adj)"
    and "find_row space_id (wf_space w) (spaces d) = Some sp"
  shows "resume_from w cur s =
    (Inr (), s\<lparr>queue := queue s @ [ProcessNextNode cur (wf_id w) ns adj (context_of sp) conns]\<rparr>)"
  using assms
  by (simp add: resume_from_def bind_def get_template_def get_space_row_def db_query_def apply_async_def)

definition resumed :: "json \<Rightarrow> workflow_row \<Rightarrow> workflow_row" where
  "resumed v w = (if truthy v then set_payload v w else w)\<lparr>wf_status := WProgress\<rparr>"

lemma resumed_simps [simp]:
  "wf_status (resumed v w) = WProgress" "wf_id (resumed v w) = wf_id w"
  "current_node_id (resumed v w) = current_node_id w" "workflow_template (resumed v w) = workflow_template w"
  "wf_space (resumed v w) = wf_space w"
  by (simp_all add: resumed_def set_payload_def)

lemma resume_run:
  assumes "cur_db s = Some d" and "find_row wf_id i (workflows d) = Some w" and "wf_status w = WWait"
    and "\<not> has_active_tasks i d" and "current_node_id w = Some cur" and "cur \<noteq> []"
    and "workflow_template w = Some tpl" and "find_row tp_id tpl (templates d) = Some tp"
    and "read_graph (tp_data tp) = Inr (ns, conns, adj)"
    and "find_row space_id (wf_space w) (spaces d) = Some sp"
    and "resume_payload (req_data req) = Inr v"
  shows "\<exists>r. resume_workflow env req i s =
    (Inr r, (in_schema (stored (resumed v w)) d s)
       \<lparr>queue := queue s @ [ProcessNextNode cur i ns adj (context_of sp) conns]\<rparr>) \<and> resp_status r = 200"
proof -
  have i: "wf_id w = i" using assms(2) by (auto dest: find_row_Some)
  let ?s = "in_schema (stored (resumed v w)) d s"
  have save: "save_workflow env (resumed v w) s = (Inr (), ?s)"
    using assms(1) by (intro save_workflow_quiet) (simp_all add: is_terminal_def)
  have go: "resume_from (resumed v w) cur ?s =
      (Inr (), ?s\<lparr>queue := queue ?s @ [ProcessNextNode cur (wf_id (resumed v w)) ns adj (context_of sp) conns]\<rparr>)"
    using assms(7-10) by (intro resume_from_run [where d = "stored (resumed v w) d"]) simp_all
  have "resume_workflow env req i s = catch (seq (save_workflow env (resumed v w))
          (seq (resume_from (resumed v w) cur)
             (ret (ok (message_json (''Workflow '' @ show_nat i @ '' resumed successfully.'')))))) 
       (\<lambda>e. if e = DoesNotExist then ret \<lparr>resp_status = 404, resp_body = message_json ''Workflow not found.''\<rparr>
            else throw e) s"
    using assms(1-6,11) i
    by (simp add: resume_workflow_def catch_def bind_def get_object_run db_query_def resumed_def [symmetric] Let_def)
  also have "\<dots> = (Inr (ok (message_json (''Workflow '' @ show_nat i @ '' resumed successfully.''))),
      ?s\<lparr>queue := queue ?s @ [ProcessNextNode cur i ns adj (context_of sp) conns]\<rparr>)"
    using save go i by (simp add: catch_def seq_value)
  finally show ?thesis by (simp add: ok_def)
qed

text \<open>The paused workflow \<open>i\<close> of the schema \<open>code\<close>, with nothing active, on a readable graph.\<close>

definition paused :: "string \<Rightarrow> nat \<Rightarrow> workflow_row \<Rightarrow> schema_db \<Rightarrow> world \<Rightarrow> bool" where
  "paused code i w d s \<longleftrightarrow>
     schema_exists code s \<and> schemas s (ascii_lower code) = Some d \<and> find_row wf_id i (workflows d) = Some w \<and>
     wf_status w = WWait \<and> \<not> has_active_tasks i d"

definition on_graph :: "workflow_row \<Rightarrow> schema_db \<Rightarrow> nodes \<Rightarrow> connection list \<Rightarrow> adjacency \<Rightarrow> space_row \<Rightarrow> bool" where
  "on_graph w d ns conns adj sp \<longleftrightarrow>
     (case workflow_template w of
        None \<Rightarrow> False
      | Some tpl \<Rightarrow>
          (case find_row tp_id tpl (templates d) of
             None \<Rightarrow> False
           | Some tp \<Rightarrow> read_graph (tp_data tp) = Inr (ns, conns, adj))) \<and>
     find_row space_id (wf_space w) (spaces d) = Some sp"

lemma paused_park:
  assumes "paused code i w d s" and "space_of ctx = Some code" and "cur \<in> set (keys ns)"
  shows "process_next_node env app cur i ns ctx conns s =
      (Inr (), in_schema (stored (w\<lparr>current_node_id := Some cur\<rparr>)) d (s\<lparr>search_path := ascii_lower code\<rparr>))"
    and "paused code i (w\<lparr>current_node_id := Some cur\<rparr>) (stored (w\<lparr>current_node_id := Some cur\<rparr>) d)
      (in_schema (stored (w\<lparr>current_node_id := Some cur\<rparr>)) d (s\<lparr>search_path := ascii_lower code\<rparr>))"
proof -
  show "process_next_node env app cur i ns ctx conns s =
      (Inr (), in_schema (stored (w\<lparr>current_node_id := Some cur\<rparr>)) d (s\<lparr>search_path := ascii_lower code\<rparr>))"
    using assms by (intro park_run) (auto simp: paused_def)
  have "wf_id w = i" using assms(1) by (auto simp: paused_def dest: find_row_Some)
  then show "paused code i (w\<lparr>current_node_id := Some cur\<rparr>) (stored (w\<lparr>current_node_id := Some cur\<rparr>) d)
      (in_schema (stored (w\<lparr>current_node_id := Some cur\<rparr>)) d (s\<lparr>search_path := ascii_lower code\<rparr>))"
    using assms(1) by (auto simp: paused_def has_active_tasks_def in_schema_def schema_exists_def)
qed

lemma paused_resume:
  assumes "paused code i w d s" and "search_path s = ascii_lower code" and "current_node_id w = Some cur"
    and "cur \<noteq> []" and "on_graph w d ns conns adj sp" and "resume_payload (req_data req) = Inr v"
  shows "\<exists>r. resume_workflow env req i s =
    (Inr r, (in_schema (stored (resumed v w)) d s)
       \<lparr>queue := queue s @ [ProcessNextNode cur i ns adj (context_of sp) conns]\<rparr>) \<and> resp_status r = 200"
proof -
  from assms(5) obtain tpl tp where "workflow_template w = Some tpl" "find_row tp_id tpl (templates d) = Some tp"
      "read_graph (tp_data tp) = Inr (ns, conns, adj)" "find_row space_id (wf_space w) (spaces d) = Some sp"
    by (auto simp: on_graph_def split: option.splits)
  moreover have "cur_db s = Some d" using assms(1,2) by (simp add: paused_def cur_db_def)
  ultimately show ?thesis
    using assms(1,3,4,6) by (intro resume_run) (simp_all add: paused_def)
qed

lemma on_graph_stored [simp]: "on_graph w (stored w' d) ns conns adj sp = on_graph w d ns conns adj sp"
  by (simp add: on_graph_def cong: option.case_cong)

lemma on_graph_node [simp]: "on_graph (w\<lparr>current_node_id := c\<rparr>) d ns conns adj sp = on_graph w d ns conns adj sp"
  by (simp add: on_graph_def)

definition sample_nodes :: nodes where
  "sample_nodes = fst (projr (read_graph sample_graph))"

definition sample_connections :: "connection list" where
  "sample_connections = fst (snd (projr (read_graph sample_graph)))"

definition sample_adjacency :: adjacency where
  "sample_adjacency = snd (snd (projr (read_graph sample_graph)))"

lemma sample_graph_reads: "read_graph sample_graph = Inr (sample_nodes, sample_connections, sample_adjacency)"
  by code_simp

lemma sample_nodes_keys: "keys sample_nodes = [''a'', ''b'', ''c'', ''d'']"
  by code_simp

lemma sample_is_paused:
  "paused ''space0'' 1 (sample_workflow\<lparr>wf_status := WWait\<rparr>) sample_paused sample_paused_world"
  "on_graph (sample_workflow\<lparr>wf_status := WWait\<rparr>) sample_paused sample_nodes sample_connections sample_adjacency sample_space"
proof -
  have "\<not> has_active_tasks 1 sample_paused" by (simp add: has_active_tasks_def sample_paused_def)
  then show "paused ''space0'' 1 (sample_workflow\<lparr>wf_status := WWait\<rparr>) sample_paused sample_paused_world"
    using sample_paused_facts by (simp add: paused_def)
  show "on_graph (sample_workflow\<lparr>wf_status := WWait\<rparr>) sample_paused sample_nodes sample_connections
      sample_adjacency sample_space"
    by (simp add: on_graph_def sample_workflow_def sample_paused_def sample_db_def sample_template_def
        sample_graph_reads sample_space_def)
qed

definition sample_request :: http_request where
  "sample_request = \<lparr>req_username = ''finmars_bot'', req_realm = None, req_space = ''space0'', req_data = JObj []\<rparr>"

lemma sample_resume_payload: "resume_payload (req_data sample_request) = Inr JNull"
  by (simp add: sample_request_def resume_payload_def)

text \<open>
  C14: pausing loses nothing on one branch: a node reached while the workflow waits is parked,
  and resuming sets the workflow in progress again (with the new payload, if one is given)
  and dispatches exactly that node on the graph of the template.
\<close>

theorem parked_node_is_resumed:
  assumes "paused code i w d s" and "space_of ctx = Some code" and "cur \<in> set (keys ns)" and "cur \<noteq> []"
    and "on_graph w d ns conns adj sp" and "resume_payload (req_data req) = Inr v"
  shows "\<exists>r. seq (process_next_node env app cur i ns ctx conns) (resume_workflow env req i) s =
    (Inr r, (in_schema (stored (resumed v (w\<lparr>current_node_id := Some cur\<rparr>)) \<circ> stored (w\<lparr>current_node_id := Some cur\<rparr>)) d
         (s\<lparr>search_path := ascii_lower code\<rparr>))
       \<lparr>queue := queue s @ [ProcessNextNode cur i ns adj (context_of sp) conns]\<rparr>) \<and> resp_status r = 200"
proof -
  let ?w = "w\<lparr>current_node_id := Some cur\<rparr>"
  let ?s = "in_schema (stored ?w) d (s\<lparr>search_path := ascii_lower code\<rparr>)"
  note park = paused_park [OF assms(1-3)]
  have "on_graph ?w (stored ?w d) ns conns adj sp" using assms(5) by simp
  from paused_resume [OF park(2) _ _ assms(4) this assms(6)] obtain r where
    "resume_workflow env req i ?s = (Inr r, (in_schema (stored (resumed v ?w)) (stored ?w d) ?s)
       \<lparr>queue := queue ?s @ [ProcessNextNode cur i ns adj (context_of sp) conns]\<rparr>)" "resp_status r = 200"
    by auto
  then show ?thesis by (simp add: seq_def bind_def park(1))
qed

theorem parked_node_is_resumed_witness:
  "\<exists>r t. seq (process_next_node sample_env (\<lambda>_. ret ()) ''b'' 1 sample_nodes (Some sample_context) sample_connections)
      (resume_workflow sample_env sample_request 1) sample_paused_world = (Inr r, t) \<and> resp_status r = 200 \<and>
    queue t = [ProcessNextNode ''b'' 1 sample_nodes sample_adjacency (context_of sample_space) sample_connections]"
proof -
  have "''b'' \<in> set (keys sample_nodes)" by (simp add: sample_nodes_keys)
  from parked_node_is_resumed [OF sample_is_paused(1) sample_paused_facts(1) this _ sample_is_paused(2)
      sample_resume_payload, of sample_env "\<lambda>_. ret ()"]
  show ?thesis by (auto simp: sample_paused_world_def sample_world_def)
qed

text \<open>
  C19: a waiting workflow has room for one parked node.  When two branches arrive, the second
  node replaces the first one, and resuming dispatches only the second: the first branch is
  never run.
\<close>

theorem second_parked_branch_replaces_first:
  assumes "paused code i w d s" and "space_of ctx = Some code" and "a \<in> set (keys ns)" and "b \<in> set (keys ns)"
    and "b \<noteq> []" and "on_graph w d ns conns adj sp" and "resume_payload (req_data req) = Inr v"
  shows "\<exists>r t. seq (process_next_node env app a i ns ctx conns)
      (seq (process_next_node env app b i ns ctx conns) (resume_workflow env req i)) s = (Inr r, t) \<and>
    resp_status r = 200 \<and> queue t = queue s @ [ProcessNextNode b i ns adj (context_of sp) conns] \<and>
    (\<exists>d'. cur_db t = Some d' \<and> tasks d' = tasks d)"
proof -
  let ?wa = "w\<lparr>current_node_id := Some a\<rparr>" and ?wb = "w\<lparr>current_node_id := Some b\<rparr>"
  note pa = paused_park [OF assms(1-3)]
  note pb = paused_park [OF pa(2) assms(2,4), simplified]
  have "on_graph ?wb (stored ?wb (stored ?wa d)) ns conns adj sp" using assms(6) by simp
  from paused_resume [OF pb(2) _ _ assms(5) this assms(7)] obtain r where
    r: "resume_workflow env req i (in_schema (stored ?wb) (stored ?wa d)
        (in_schema (stored ?wa) d (s\<lparr>search_path := ascii_lower code\<rparr>)\<lparr>search_path := ascii_lower code\<rparr>)) =
      (Inr r, (in_schema (stored (resumed v ?wb)) (stored ?wb (stored ?wa d))
        (in_schema (stored ?wb) (stored ?wa d)
          (in_schema (stored ?wa) d (s\<lparr>search_path := ascii_lower code\<rparr>)\<lparr>search_path := ascii_lower code\<rparr>)))
       \<lparr>queue := queue s @ [ProcessNextNode b i ns adj (context_of sp) conns]\<rparr>)" "resp_status r = 200"
    by auto
  then show ?thesis
    by (simp add: seq_def bind_def pa(1) pb(1)) (simp add: in_schema_def cur_db_def)
qed

theorem second_parked_branch_replaces_first_witness:
  "\<exists>r t. seq (process_next_node sample_env (\<lambda>_. ret ()) ''b'' 1 sample_nodes (Some sample_context) sample_connections)
      (seq (process_next_node sample_env (\<lambda>_. ret ()) ''c'' 1 sample_nodes (Some sample_context) sample_connections)
      (resume_workflow sample_env sample_request 1)) sample_paused_world = (Inr r, t) \<and> resp_status r = 200 \<and>
    queue t = [ProcessNextNode ''c'' 1 sample_nodes sample_adjacency (context_of sample_space) sample_connections]"
proof -
  have "''b'' \<in> set (keys sample_nodes)" "''c'' \<in> set (keys sample_nodes)" by (simp_all add: sample_nodes_keys)
  from second_parked_branch_replaces_first [OF sample_is_paused(1) sample_paused_facts(1) this _ sample_is_paused(2)
      sample_resume_payload, of sample_env "\<lambda>_. ret ()"]
  show ?thesis by (auto simp: sample_paused_world_def sample_world_def)
qed

section \<open>Inputs of a node\<close>

lemma input_ready_iff:
  "input_ready i n d \<longleftrightarrow>
    (\<exists>t. filter (\<lambda>t. task_workflow t = i \<and> task_node_id t = Some n) (tasks d) = [t] \<and> task_status t = TSuccess)"
  by (auto simp: input_ready_def objects_get_def split: list.splits sum.splits)

text \<open>
  C13: a node is ready exactly when every node connected to it has one task row in this
  workflow, and that row is a success.
\<close>

theorem are_inputs_ready_iff:
  assumes "cur_db s = Some d"
  shows "are_inputs_ready i n conns s = (Inr (\<forall>c \<in> set conns. target c = n \<longrightarrow>
    (\<exists>t. filter (\<lambda>t. task_workflow t = i \<and> task_node_id t = Some (source c)) (tasks d) = [t] \<and>
       task_status t = TSuccess)), s)"
  using assms
  by (auto simp: are_inputs_ready_def catch_def db_query_def list_all_iff input_nodes_def input_ready_iff
      filter_empty_conv)

theorem are_inputs_ready_iff_witness:
  "are_inputs_ready 1 ''b'' sample_connections sample_paused_world = (Inr (\<forall>c \<in> set sample_connections. target c = ''b'' \<longrightarrow>
    (\<exists>t. filter (\<lambda>t. task_workflow t = 1 \<and> task_node_id t = Some (source c)) (tasks sample_paused) = [t] \<and>
       task_status t = TSuccess)), sample_paused_world)"
  by (rule are_inputs_ready_iff [OF sample_paused_facts(4)])

end
