(* ===== verification/Tenancy.thy ===== *)
theory Tenancy
  imports Control
begin

text \<open>
  How a request and a worker come to their schema: \<^verbatim>\<open>workflow/middleware.py\<close>, which reads the
  realm and the space from the path and sets the search path around the view, the signal
  \<^verbatim>\<open>workflow_prerun\<close> of \<^verbatim>\<open>tasks/base.py\<close>, and the bootstrap of \<^verbatim>\<open>workflow/apps.py\<close>, which
  writes the row that names the space into its schema.
\<close>

section \<open>The middleware\<close>

record page =
  page_streaming :: bool
  page_content :: string
  page_location :: "string option"

definition placeholder :: string where
  "placeholder = ''spacexxxxx''"

text \<open>The two codes a path names; a path with too few parts raises.\<close>

definition codes_of_path :: "string \<Rightarrow> exc + (string option \<times> string)" where
  "codes_of_path p =
     (let parts = split_on (CHR ''/'') p in
      rbind (nth_or_raise parts 1) (\<lambda>a.
        if contains ''realm'' a then rbind (nth_or_raise parts 2) (\<lambda>b. Inr (Some a, b))
        else Inr (None, a)))"

definition enter_request :: "string option \<Rightarrow> string \<Rightarrow> unit io" where
  "enter_request realm space =
     (case realm of
        None \<Rightarrow> set_search_path ''public''
      | Some _ \<Rightarrow> bind (query (schema_exists space)) (\<lambda>b.
          if b then set_search_path space else set_search_path ''public''))"

definition rewrite_admin :: "string \<Rightarrow> string \<Rightarrow> page \<Rightarrow> page" where
  "rewrite_admin p space r =
     (if \<not> page_streaming r \<and> contains ''/admin/'' p then
        r\<lparr>page_content := replace_str placeholder space (page_content r),
          page_location := map_option (replace_str placeholder space) (page_location r)\<rparr>
      else r)"

text \<open>
  \<^verbatim>\<open>RealmAndSpaceMiddleware.__call__\<close> around a view.  Django turns the exceptions of the
  view into responses inside \<^verbatim>\<open>get_response\<close>; an exception of the middleware's own code
  leaves it.
\<close>

definition realm_and_space :: "(string option \<Rightarrow> string \<Rightarrow> page io) \<Rightarrow> string \<Rightarrow> page io" where
  "realm_and_space get_response p =
     bind (lift (codes_of_path p)) (\<lambda>(realm, space).
     seq (enter_request realm space)
     (bind (get_response realm space) (\<lambda>r.
      seq (set_search_path ''public'') (ret (rewrite_admin p space r)))))"

section \<open>The signal before a task\<close>

definition ignored_task :: "string \<Rightarrow> bool" where
  "ignored_task name \<longleftrightarrow> startswith name ''workflow.tasks'' \<or> startswith name ''celery.''"

text \<open>
  \<^verbatim>\<open>workflow_prerun\<close>: \<open>ctx\<close> is the value of \<^verbatim>\<open>kwargs.get("context")\<close>, where Celery's signal
  passes the keyword arguments of the task under the one key \<^verbatim>\<open>kwargs\<close>; entering
  \<^verbatim>\<open>celery_app.app.app_context()\<close> is the parameter \<open>app_context\<close>.
\<close>

definition workflow_prerun :: "unit io \<Rightarrow> nat \<Rightarrow> string \<Rightarrow> string option \<Rightarrow> task_context option \<Rightarrow> unit io" where
  "workflow_prerun app_context task_id_value name host ctx =
     (if ignored_task name then ret ()
      else
        case ctx of
          None \<Rightarrow> throw (Raised ''Exception'' ''No context in kwargs'')
        | Some c \<Rightarrow>
            (case ctx_space_code c of
               None \<Rightarrow> throw (Raised ''Exception'' ''No space_code in context'')
             | Some code \<Rightarrow>
                 if code = [] then throw (Raised ''Exception'' ''No space_code in context'')
                 else seq (bind (query (schema_exists code)) (\<lambda>b.
                        if b then set_search_path code else set_search_path ''public''))
                   (seq app_context
                   (bind (get_task_by_celery_id (Some task_id_value)) (\<lambda>t.
                      save_task (t\<lparr>task_status := TProgress, worker_name := host\<rparr>))))))"

section \<open>Bootstrap\<close>

text \<open>\<^verbatim>\<open>SHOW search_path\<close> without the default \<^verbatim>\<open>"$user", \<close> in front.\<close>

definition get_current_search_path :: "string io" where
  "get_current_search_path = query (\<lambda>s. replace_str ([CHR 0x22] @ ''$user'' @ [CHR 0x22] @ '', '') [] (search_path s))"

definition create_space_if_not_exist :: "string option \<Rightarrow> unit io" where
  "create_space_if_not_exist realm =
     bind get_current_search_path (\<lambda>cur.
       let code = (if cur = ''public'' then ''space00000'' else cur) in
       bind (db_query (\<lambda>d. Inr (spaces d))) (\<lambda>sps.
         case sps of
           sp # _ \<Rightarrow> db_update (\<lambda>d. d\<lparr>spaces := save_row space_id
                       (sp\<lparr>space_code := code, space_name := Some code, realm_code := realm\<rparr>) (spaces d)\<rparr>)
         | [] \<Rightarrow> db_update (\<lambda>d. d\<lparr>spaces := [\<lparr>space_id = Suc (row_seq d), space_name = Some code,
                   realm_code = realm, space_code = code\<rparr>], row_seq := Suc (row_seq d)\<rparr>)))"

definition create_finmars_bot :: "unit io" where
  "create_finmars_bot =
     catch (seq (get_user ''finmars_bot'') (ret ()))
       (\<lambda>_. db_update (\<lambda>d. d\<lparr>users := users d @ [
          \<lparr>user_id = Suc (row_seq d), username = ''finmars_bot'', password = [], language = ''en'', timezone = ''UTC'',
           two_factor_verification = False, json_data = None, is_verified = False, is_bot = True,
           is_staff = False, is_superuser = False\<rparr>], row_seq := Suc (row_seq d)\<rparr>))"

definition bootstrap :: "string option \<Rightarrow> unit io" where
  "bootstrap realm =
     catch (seq (create_space_if_not_exist realm) create_finmars_bot) (\<lambda>_. ret ())"

section \<open>The schema of a request\<close>

lemma lower_public: "ascii_lower ''public'' = ''public''"
  by code_simp

definition request_schema :: "string option \<Rightarrow> string \<Rightarrow> world \<Rightarrow> string" where
  "request_schema realm space s = (if realm \<noteq> None \<and> schema_exists space s then ascii_lower space else ''public'')"

lemma enter_request_run: "enter_request realm space s = (Inr (), s\<lparr>search_path := request_schema realm space s\<rparr>)"
  by (auto simp: enter_request_def request_schema_def set_search_path_def bind_def lower_public split: option.splits)

text \<open>
  C22: a view runs in the schema its path names when that schema exists and in the public one
  otherwise, and the connection is back in the public schema when the response leaves: the
  next request cannot see the tenant of this one.
\<close>

theorem request_runs_in_its_schema:
  assumes "realm_and_space view p s = (Inr r', t)"
  shows "\<exists>realm space r u. codes_of_path p = Inr (realm, space) \<and>
    view realm space (s\<lparr>search_path := request_schema realm space s\<rparr>) = (Inr r, u) \<and>
    t = u\<lparr>search_path := ''public''\<rparr> \<and> r' = rewrite_admin p space r"
  using assms
  by (auto simp: realm_and_space_def bind_run seq_run enter_request_run set_search_path_def lower_public)

theorem request_runs_in_its_schema_witness:
  "\<exists>realm space r u. codes_of_path ''/realm0/space0/api/'' = Inr (realm, space) \<and>
    (\<lambda>_ _. bind (query search_path) (\<lambda>x. ret \<lparr>page_streaming = True, page_content = x, page_location = None\<rparr>))
      realm space (sample_world\<lparr>search_path := request_schema realm space sample_world\<rparr>) = (Inr r, u) \<and>
    page_content r = ''space0''"
proof -
  let ?v = "\<lambda>_ _. bind (query search_path) (\<lambda>x. ret \<lparr>page_streaming = True, page_content = x, page_location = None\<rparr>)"
  have c: "codes_of_path ''/realm0/space0/api/'' = Inr (Some ''realm0'', ''space0'')" by code_simp
  have low: "ascii_lower ''space0'' = ''space0''" by code_simp
  have "realm_and_space ?v ''/realm0/space0/api/'' sample_world =
      (Inr \<lparr>page_streaming = True, page_content = ''space0'', page_location = None\<rparr>, sample_world\<lparr>search_path := ''public''\<rparr>)"
    by (simp add: realm_and_space_def bind_def seq_def c enter_request_run request_schema_def schema_exists_def
        sample_world_def set_search_path_def lower_public rewrite_admin_def low)
  moreover have "\<not> contains ''/admin/'' ''/realm0/space0/api/''" by code_simp
  ultimately show ?thesis
    using request_runs_in_its_schema [of ?v "''/realm0/space0/api/''" sample_world]
    by (fastforce simp only: rewrite_admin_def page.simps simp_thms if_False)
qed

section \<open>The row that names the space\<close>

lemma save_row_single: "length xs \<le> 1 \<Longrightarrow> y \<in> set xs \<Longrightarrow> pk x = pk y \<Longrightarrow> save_row pk x xs = [x]"
  by (cases xs) (auto simp: save_row_def)

lemma create_finmars_bot_spaces:
  assumes "create_finmars_bot s = (r, t)" and "cur_db s = Some d"
  shows "\<exists>d'. r = Inr () \<and> cur_db t = Some d' \<and> spaces d' = spaces d \<and> search_path t = search_path s"
  using assms
  by (auto simp: create_finmars_bot_def catch_def seq_def bind_def get_user_def db_query_def db_update_def cur_db_def
      split: prod.splits sum.splits)



end
