(* ===== verification/Storage.thy ===== *)
theory Storage
  imports Tenancy
begin

text \<open>
  Files: the encrypting storage of \<^verbatim>\<open>workflow/storage.py\<close> over a backend that keeps bytes by
  name, the wrapper \<^verbatim>\<open>finmars.Storage\<close> that puts every name under the space, and the helpers
  of \<^verbatim>\<open>finmars.Utils\<close>.  AES-GCM and the random nonces are parameters; what the code relies
  on is that decrypting with the same key and nonce gives the content back.
\<close>

section \<open>The encrypting storage\<close>

record cipher =
  server_is_local :: bool
  symmetric_key :: string
  aes_encrypt :: "string \<Rightarrow> string \<Rightarrow> string \<Rightarrow> string"
  aes_decrypt :: "string \<Rightarrow> string \<Rightarrow> string \<Rightarrow> exc + string"
  urandom12 :: "nat \<Rightarrow> string"

text \<open>The backend: contents by name, and how many random nonces were drawn.\<close>

record store =
  files :: "(string, string) dict"
  draws :: nat

type_synonym 'a fs = "(store, 'a) comp"

definition encrypt_file :: "cipher \<Rightarrow> string \<Rightarrow> string fs" where
  "encrypt_file c content =
     bind (query draws) (\<lambda>n.
     seq (modify (\<lambda>s. s\<lparr>draws := Suc n\<rparr>))
       (ret (urandom12 c n @ aes_encrypt c (symmetric_key c) (urandom12 c n) content)))"

definition decrypt_file :: "cipher \<Rightarrow> string \<Rightarrow> exc + string" where
  "decrypt_file c data = aes_decrypt c (symmetric_key c) (take 12 data) (drop 12 data)"

definition backend_open :: "string \<Rightarrow> string fs" where
  "backend_open name =
     bind (query files) (\<lambda>fs. lift (or_raise (map_of fs name) (Raised ''FileNotFoundError'' name)))"

definition backend_save :: "string \<Rightarrow> string \<Rightarrow> unit fs" where
  "backend_save name data = modify (\<lambda>s. s\<lparr>files := AList.update name data (files s)\<rparr>)"

definition delete_file :: "string \<Rightarrow> unit fs" where
  "delete_file name = modify (\<lambda>s. s\<lparr>files := filter (\<lambda>(n, _). n \<noteq> name) (files s)\<rparr>)"

definition storage_exists :: "string \<Rightarrow> bool fs" where
  "storage_exists name = query (\<lambda>s. map_of (files s) name \<noteq> None)"

definition storage_open :: "cipher \<Rightarrow> string \<Rightarrow> string fs" where
  "storage_open c name =
     bind (backend_open name) (\<lambda>data. if server_is_local c then ret data else lift (decrypt_file c data))"

text \<open>\<^verbatim>\<open>open_skip_decrypt\<close> returns the stored bytes in both branches.\<close>

definition open_skip_decrypt :: "string \<Rightarrow> string fs" where
  "open_skip_decrypt name = backend_open name"

text \<open>\<^verbatim>\<open>save\<close>: \<^verbatim>\<open>get_available_name\<close> first deletes the file of that name.\<close>

definition storage_save :: "cipher \<Rightarrow> string \<Rightarrow> string \<Rightarrow> unit fs" where
  "storage_save c name content =
     seq (delete_file name)
     (if server_is_local c then backend_save name content
      else bind (encrypt_file c content) (backend_save name))"

text \<open>\<^verbatim>\<open>listdir\<close> of a folder whose name ends with a slash: its directories, then its files.\<close>

definition below :: "string \<Rightarrow> store \<Rightarrow> string list" where
  "below folder s = map (\<lambda>p. drop (length folder) (fst p)) (filter (\<lambda>p. startswith (fst p) folder) (files s))"

definition listdir :: "string \<Rightarrow> (string list \<times> string list) fs" where
  "listdir folder = query (\<lambda>s.
     (remdups (map (\<lambda>n. hd (split_on (CHR ''/'') n)) (filter (\<lambda>n. CHR ''/'' \<in> set n) (below folder s))),
      filter (\<lambda>n. CHR ''/'' \<notin> set n) (below folder s)))"

text \<open>\<^verbatim>\<open>files, folders = self.listdir(folder_path)\<close> takes the directories for the files.\<close>

definition folder_exists_and_has_files :: "string \<Rightarrow> bool fs" where
  "folder_exists_and_has_files folder =
     (let f = (if endswith folder ''/'' then folder else folder @ ''/'')
      in catch (bind (listdir f) (\<lambda>(first, second). ret (first \<noteq> []))) (\<lambda>_. ret False))"

text \<open>\<^verbatim>\<open>delete_directory\<close> of the Azure and S3 storages: everything that starts with the path.\<close>

definition delete_directory :: "string \<Rightarrow> unit fs" where
  "delete_directory p = modify (\<lambda>s. s\<lparr>files := filter (\<lambda>(n, _). \<not> startswith n p) (files s)\<rparr>)"

text \<open>\<^verbatim>\<open>get_storage\<close>: the last configured backend wins; none has no key to set.\<close>

datatype backend = SftpBackend | S3Backend | AzureBackend | LocalBackend

definition get_storage :: "bool \<Rightarrow> bool \<Rightarrow> bool \<Rightarrow> bool \<Rightarrow> exc + backend" where
  "get_storage sftp s3 azure filesystem =
     (if filesystem then Inr LocalBackend else if azure then Inr AzureBackend
      else if s3 then Inr S3Backend else if sftp then Inr SftpBackend else Inl AttributeError)"

section \<open>finmars.Storage\<close>

definition utf8 :: "string \<Rightarrow> string" where
  "utf8 s = concat (map (\<lambda>c. let n = (of_char c :: nat) in
     if n < 128 then [c] else [char_of (192 + n div 64), char_of (128 + n mod 64)]) s)"

definition under_base :: "string \<Rightarrow> string \<Rightarrow> exc + string" where
  "under_base base name =
     (case name of
        [] \<Rightarrow> Inl IndexError
      | c # _ \<Rightarrow> Inr (if c = CHR ''/'' then base @ name else base @ ''/'' @ name))"

definition open_text :: "cipher \<Rightarrow> string \<Rightarrow> string \<Rightarrow> string fs" where
  "open_text c base name = bind (lift (under_base base name)) (storage_open c)"

definition read_file :: "cipher \<Rightarrow> string \<Rightarrow> string \<Rightarrow> string fs" where
  "read_file c base name = open_text c base name"

definition read_json :: "cipher \<Rightarrow> string \<Rightarrow> string \<Rightarrow> json fs" where
  "read_json c base name = bind (open_text c base name) (\<lambda>t. lift (json_loads t))"

definition delete_name :: "string \<Rightarrow> string \<Rightarrow> unit fs" where
  "delete_name base name = bind (lift (under_base base name)) delete_file"

definition exists_name :: "string \<Rightarrow> string \<Rightarrow> bool fs" where
  "exists_name base name = bind (lift (under_base base name)) storage_exists"

definition save_content :: "cipher \<Rightarrow> string \<Rightarrow> string \<Rightarrow> string \<Rightarrow> unit fs" where
  "save_content c base name content = bind (lift (under_base base name)) (\<lambda>n. storage_save c n content)"

definition save_text :: "cipher \<Rightarrow> string \<Rightarrow> string \<Rightarrow> string \<Rightarrow> unit fs" where
  "save_text c base name content = bind (lift (under_base base name)) (\<lambda>n. storage_save c n (utf8 content))"

text \<open>
  A file opened in the mode \<^verbatim>\<open>"r"\<close>: the local file system decodes it and unifies the ends of
  lines; a decrypted file gives its bytes whatever the mode.  Characters are the code
  points below 256, as in \<^const>\<open>utf8\<close>.
\<close>

fun utf8_decode :: "string \<Rightarrow> exc + string" where
  "utf8_decode [] = Inr []"
| "utf8_decode (c # cs) =
     (let n = (of_char c :: nat) in
      if n < 128 then rbind (utf8_decode cs) (\<lambda>t. Inr (c # t))
      else if n \<in> {194, 195} then
        (case cs of
           [] \<Rightarrow> Inl (Raised ''UnicodeDecodeError'' [])
         | d # ds \<Rightarrow>
             (let m = (of_char d :: nat) in
              if 128 \<le> m \<and> m < 192 then rbind (utf8_decode ds) (\<lambda>t. Inr (char_of ((n - 192) * 64 + (m - 128)) # t))
              else Inl (Raised ''UnicodeDecodeError'' [])))
      else Inl (Raised ''UnicodeDecodeError'' []))"

fun unify_newlines :: "string \<Rightarrow> string" where
  "unify_newlines [] = []"
| "unify_newlines (c # cs) =
     (if c = CHR 0x0D then
        CHR 0x0A # (case cs of [] \<Rightarrow> [] | d # ds \<Rightarrow> if d = CHR 0x0A then unify_newlines ds else unify_newlines cs)
      else c # unify_newlines cs)"

definition text_of :: "string \<Rightarrow> exc + string" where
  "text_of data = rbind (utf8_decode data) (\<lambda>t. Inr (unify_newlines t))"

text \<open>
  \<^verbatim>\<open>append_text\<close> asks for and saves the bare name, reads the name under the base, and
  overwrites the new content with the old one; bytes and a text do not add.
\<close>

definition append_text :: "cipher \<Rightarrow> string \<Rightarrow> string \<Rightarrow> string \<Rightarrow> unit fs" where
  "append_text c base name content =
     bind (storage_exists name) (\<lambda>b.
     bind (if b then
             bind (open_text c base name) (\<lambda>data.
               if server_is_local c then bind (lift (text_of data)) (\<lambda>old. ret (old @ old @ [CHR 0x0A]))
               else throw TypeError)
           else ret content) (\<lambda>text.
       storage_save c name (utf8 text)))"

section \<open>finmars.Utils\<close>

text \<open>Dates are day numbers; whether a day is a business day is a parameter.\<close>

definition dates_between :: "int \<Rightarrow> int \<Rightarrow> int list" where
  "dates_between date_from date_to = map (\<lambda>i. date_from + int i) [0..<nat (date_to - date_from + 1)]"

definition business_days_between :: "(int \<Rightarrow> bool) \<Rightarrow> int \<Rightarrow> int \<Rightarrow> int list" where
  "business_days_between is_business_day date_from date_to = filter is_business_day (dates_between date_from date_to)"

text \<open>\<^verbatim>\<open>str.lower\<close> on the code points below 256.\<close>

definition latin_lower :: "char \<Rightarrow> char" where
  "latin_lower c =
     (let n = (of_char c :: nat) in
      if (65 \<le> n \<and> n \<le> 90) \<or> (192 \<le> n \<and> n \<le> 222 \<and> n \<noteq> 215) then char_of (n + 32) else c)"

definition to_ascii_or_unicode :: "char \<Rightarrow> string" where
  "to_ascii_or_unicode c = (let n = (of_char c :: nat) in if n < 128 then [c] else CHR ''U'' # show_nat n)"

definition convert_to_ascii :: "string \<Rightarrow> string" where
  "convert_to_ascii s =
     concat (map to_ascii_or_unicode
       (replace_char (CHR ''.'') (CHR ''_'') (replace_char (CHR '' '') (CHR ''_'') (map latin_lower s))))"

section \<open>Properties\<close>

text \<open>What the storage relies on of AES-GCM: 12 random bytes, and decryption undoes encryption.\<close>

definition aes_gcm_ok :: "cipher \<Rightarrow> bool" where
  "aes_gcm_ok c \<longleftrightarrow>
     (\<forall>n. length (urandom12 c n) = 12) \<and>
     (\<forall>n m. aes_decrypt c (symmetric_key c) (urandom12 c n) (aes_encrypt c (symmetric_key c) (urandom12 c n) m) = Inr m)"

lemma map_of_filter_ne: "map_of (filter (\<lambda>(n, _). n \<noteq> k) xs) n' = (if n' = k then None else map_of xs n')"
  by (induction xs) auto

text \<open>What the bytes of a name read back as.\<close>

definition content_of :: "cipher \<Rightarrow> store \<Rightarrow> string \<Rightarrow> (exc + string) option" where
  "content_of c s name = map_option (\<lambda>data. if server_is_local c then Inr data else decrypt_file c data) (map_of (files s) name)"

lemma storage_open_content:
  "storage_open c name s = (case content_of c s name of None \<Rightarrow> Inl (Raised ''FileNotFoundError'' name) | Some r \<Rightarrow> r, s)"
  by (auto simp: storage_open_def backend_open_def content_of_def bind_def split: option.splits)

lemma storage_save_content:
  assumes "aes_gcm_ok c"
  shows "\<exists>s'. storage_save c name content s = (Inr (), s') \<and>
    content_of c s' n = (if n = name then Some (Inr content) else content_of c s n)"
  using assms
  by (auto simp: storage_save_def seq_def bind_def delete_file_def backend_save_def encrypt_file_def content_of_def
      update_conv' map_of_filter_ne aes_gcm_ok_def decrypt_file_def)

text \<open>
  C30: what is saved under a name is what is read under it, encrypted or not, a second save
  replaces the first, and no other file changes.
\<close>

theorem saved_file_reads_back:
  assumes "aes_gcm_ok c" and "under_base base name = Inr full"
  shows "\<exists>s'. save_text c base name content s = (Inr (), s') \<and> read_file c base name s' = (Inr (utf8 content), s') \<and>
    (\<forall>n. n \<noteq> full \<longrightarrow> storage_open c n s' = (fst (storage_open c n s), s'))"
proof -
  obtain s' where s': "storage_save c full (utf8 content) s = (Inr (), s')"
    using storage_save_content [OF assms(1)] by blast
  have "content_of c s' n = (if n = full then Some (Inr (utf8 content)) else content_of c s n)" for n
    using storage_save_content [OF assms(1), of full "utf8 content" s n] s' by auto
  with s' assms(2) show ?thesis
    by (auto simp: save_text_def read_file_def open_text_def bind_def storage_open_content)
qed

definition sample_cipher :: cipher where
  "sample_cipher = \<lparr>server_is_local = False, symmetric_key = ''k'', aes_encrypt = (\<lambda>k n m. rev m),
     aes_decrypt = (\<lambda>k n m. Inr (rev m)), urandom12 = (\<lambda>_. replicate 12 CHR ''x'')\<rparr>"

theorem saved_file_reads_back_witness:
  "\<exists>s'. save_text sample_cipher ''space0'' ''/a.txt'' ''hi'' \<lparr>files = [], draws = 0\<rparr> = (Inr (), s') \<and>
    read_file sample_cipher ''space0'' ''/a.txt'' s' = (Inr (utf8 ''hi''), s')"
proof -
  have "aes_gcm_ok sample_cipher" by (simp add: aes_gcm_ok_def sample_cipher_def)
  moreover have "under_base ''space0'' ''/a.txt'' = Inr ''space0/a.txt''" by (simp add: under_base_def)
  ultimately show ?thesis using saved_file_reads_back [of sample_cipher "''space0''" "''/a.txt''" "''space0/a.txt''" "''hi''"]
    by blast
qed

text \<open>
  Appending to a file that exists never uses the new text: whatever it is, the outcome is
  the same.  On a local server the old text is saved twice, under the bare name instead of
  the space's, and with encryption the call raises.
\<close>

lemma append_text_loses_new_text:
  assumes "map_of (files s) name \<noteq> None" and "under_base base name = Inr full"
    and "map_of (files s) full = Some data" and "text_of data = Inr old"
  shows "append_text c base name content s = append_text c base name other s \<and>
    (\<not> server_is_local c \<longrightarrow> isl (fst (append_text c base name content s))) \<and>
    (server_is_local c \<longrightarrow> (\<exists>s'. append_text c base name content s = (Inr (), s') \<and>
       map_of (files s') name = Some (utf8 (old @ old @ [CHR 0x0A]))))"
proof -
  have "storage_exists name s = (Inr True, s)" using assms(1) by (simp add: storage_exists_def)
  moreover have "open_text c base name s = (if server_is_local c then Inr data else decrypt_file c data, s)"
    using assms(2,3) by (simp add: open_text_def storage_open_content content_of_def bind_def)
  ultimately show ?thesis using assms(4)
    by (cases "decrypt_file c data") (auto simp: append_text_def bind_def storage_save_def seq_def delete_file_def
        backend_save_def update_conv')
qed

lemma append_text_sample:
  "append_text (sample_cipher\<lparr>server_is_local := True\<rparr>) ''b'' ''n'' ''new'' \<lparr>files = [(''n'', []), (''b/n'', ''old'')], draws = 0\<rparr>
     = append_text (sample_cipher\<lparr>server_is_local := True\<rparr>) ''b'' ''n'' [] \<lparr>files = [(''n'', []), (''b/n'', ''old'')], draws = 0\<rparr>"
  by (rule conjunct1 [OF append_text_loses_new_text [where full = "''b/n''" and data = "''old''" and old = "''old''"]])
    (simp_all add: under_base_def text_of_def)

text \<open>
  The list of dates runs over every day from the first to the last, both included, once
  and in order, and is empty when the last day is before the first.
\<close>

lemma dates_between_exact:
  "set (dates_between a b) = {a..b} \<and> sorted_wrt (<) (dates_between a b) \<and> length (dates_between a b) = nat (b - a + 1)"
proof -
  have "x \<in> (\<lambda>i. a + int i) ` {0..<nat (b - a + 1)}" if "x \<in> {a..b}" for x
    using that by (intro image_eqI [of _ _ "nat (x - a)"]) auto
  then have "set (dates_between a b) = {a..b}" by (auto simp: dates_between_def)
  moreover have "sorted_wrt (<) (dates_between a b)"
    by (simp add: dates_between_def sorted_wrt_map sorted_wrt_iff_nth_less)
  ultimately show ?thesis by (simp add: dates_between_def)
qed

lemma replaced_char: "x \<in> set (replace_char a b xs) \<Longrightarrow> x = b \<or> x \<noteq> a \<and> x \<in> set xs"
  by (auto simp: replace_char_def)

lemma underscore_differs: "CHR ''_'' \<noteq> CHR '' ''" "CHR ''_'' \<noteq> CHR ''.''"
  by simp_all

text \<open>
  C40: a converted name is plain ASCII without spaces and dots, so that it can be a user code.
\<close>

theorem converted_name_is_plain:
  "list_all (\<lambda>c. (of_char c :: nat) < 128 \<and> c \<noteq> CHR '' '' \<and> c \<noteq> CHR ''.'') (convert_to_ascii s)"
proof -
  let ?plain = "\<lambda>c. (of_char c :: nat) < 128 \<and> c \<noteq> CHR '' '' \<and> c \<noteq> CHR ''.''"
  let ?spaces = "replace_char (CHR ''.'') (CHR ''_'') (replace_char (CHR '' '') (CHR ''_'') (map latin_lower s))"
  have digits: "?plain c" if "c \<in> set (show_nat n)" for c n
    using show_nat_digits [OF that] by (auto simp: is_digit_def)
  have each: "list_all ?plain (to_ascii_or_unicode x)" if "x \<noteq> CHR '' ''" "x \<noteq> CHR ''.''" for x
    using that digits by (auto simp: to_ascii_or_unicode_def list_all_iff Let_def)
  have "x \<noteq> CHR '' '' \<and> x \<noteq> CHR ''.''" if "x \<in> set ?spaces" for x
    using that replaced_char [of x "CHR ''.''" "CHR ''_''"] replaced_char [of x "CHR '' ''" "CHR ''_''"]
    by (metis (no_types) underscore_differs)
  then have "list_all (\<lambda>x. list_all ?plain (to_ascii_or_unicode x)) ?spaces"
    unfolding list_all_iff [of _ ?spaces] by (blast intro: each)
  then show ?thesis
    unfolding convert_to_ascii_def by (simp add: list_all_iff)
qed

end
