(* ===== verification/Downloads.thy ===== *)
theory Downloads
  imports Storage
begin

text \<open>
  Copies of stored files on the local disk: the downloads of \<^verbatim>\<open>workflow/storage.py\<close>, of one file
  through the encrypting storage and of a directory straight from the bucket, and the archive
  of several paths.  The state is the storage and the local files by path.
\<close>

section \<open>Paths\<close>

text \<open>\<^verbatim>\<open>os.path.relpath\<close> in a working directory.\<close>

definition abs_comps :: "string \<Rightarrow> string \<Rightarrow> string list" where
  "abs_comps cwd p = norm_comps True [] (split_on (CHR ''/'') (path_join2 cwd p))"

fun common_length :: "'a list \<Rightarrow> 'a list \<Rightarrow> nat" where
  "common_length (x # xs) (y # ys) = (if x = y then Suc (common_length xs ys) else 0)"
| "common_length _ _ = 0"

definition relpath :: "string \<Rightarrow> string \<Rightarrow> string \<Rightarrow> exc + string" where
  "relpath cwd p from_dir =
     (if p = [] then Inl ValueError
      else
        (let a = abs_comps cwd p; b = abs_comps cwd from_dir; i = common_length b a;
             parts = replicate (length b - i) ''..'' @ drop i a
         in Inr (if parts = [] then ''.'' else join ''/'' parts)))"

section \<open>Downloads\<close>

record machine =
  remote :: store
  local_files :: "(string, string) dict"

type_synonym 'a dl = "(machine, 'a) comp"

definition on_remote :: "'a fs \<Rightarrow> 'a dl" where
  "on_remote m s = (case m (remote s) of (r, t) \<Rightarrow> (r, s\<lparr>remote := t\<rparr>))"

definition write_local :: "string \<Rightarrow> string \<Rightarrow> unit dl" where
  "write_local p data = modify (\<lambda>s. s\<lparr>local_files := AList.update (normpath p) data (local_files s)\<rparr>)"

definition download_file_and_save_locally :: "cipher \<Rightarrow> string \<Rightarrow> string \<Rightarrow> string dl" where
  "download_file_and_save_locally c storage_path dest =
     bind (on_remote (storage_open c storage_path)) (\<lambda>data. seq (write_local dest data) (ret dest))"

text \<open>
  \<^verbatim>\<open>download_directory\<close> of the S3 and the Azure storage: every object whose key begins with the
  path, its bytes as they are stored.
\<close>

definition download_directory :: "string \<Rightarrow> string \<Rightarrow> string \<Rightarrow> unit dl" where
  "download_directory cwd dir dest =
     bind (query (\<lambda>s. filter (\<lambda>(k, _). startswith k dir) (files (remote s)))) (\<lambda>objs.
       for_each objs (\<lambda>(k, data).
         bind (lift (relpath cwd k dir)) (\<lambda>rel. write_local (path_join2 dest rel) data)))"

text \<open>\<^verbatim>\<open>zip_directory\<close> and \<^verbatim>\<open>download_local_folder_as_zip\<close>: an entry for every local file below the directory.\<close>

definition below_dir :: "string \<Rightarrow> string \<Rightarrow> bool" where
  "below_dir dir p \<longleftrightarrow> startswith p (dir @ ''/'')"

definition zip_directory :: "string \<Rightarrow> string \<Rightarrow> (string, string) dict dl" where
  "zip_directory cwd dir =
     bind (query (\<lambda>s. filter (\<lambda>(p, _). below_dir dir p) (local_files s))) (\<lambda>fs.
       map_each (\<lambda>(p, data). bind (lift (relpath cwd p dir)) (\<lambda>rel. ret (rel, data))) fs)"

definition temp_download :: string where
  "temp_download = ''tmp/temp_download''"

definition in_space :: "string \<Rightarrow> string \<Rightarrow> exc + string" where
  "in_space space p = (case p of [] \<Rightarrow> Inl IndexError | ch # _ \<Rightarrow> Inr (if ch = CHR ''/'' then space @ p else space @ ''/'' @ p))"

definition download_path :: "cipher \<Rightarrow> string \<Rightarrow> string \<Rightarrow> string \<Rightarrow> unit dl" where
  "download_path c cwd space p =
     bind (lift (in_space space p)) (\<lambda>full.
       let dest = temp_download @ ''/'' @ p in
       if endswith p ''/'' then download_directory cwd full dest
       else seq (download_file_and_save_locally c full dest) (ret ()))"

definition download_paths_as_zip :: "cipher \<Rightarrow> string \<Rightarrow> string \<Rightarrow> string list \<Rightarrow> (string, string) dict dl" where
  "download_paths_as_zip c cwd space paths =
     seq (for_each paths (download_path c cwd space)) (zip_directory cwd temp_download)"

section \<open>Encrypted or not\<close>

text \<open>One file is decrypted on its way to the disk.\<close>

lemma file_download_is_decrypted:
  assumes "content_of c (remote s) k = Some (Inr content)"
  shows "download_file_and_save_locally c k p s =
    (Inr p, s\<lparr>local_files := AList.update (normpath p) content (local_files s)\<rparr>)"
  using assms
  by (simp add: download_file_and_save_locally_def on_remote_def storage_open_content bind_def seq_def write_local_def)

text \<open>A directory is not: what arrives are the bytes of the bucket.\<close>

definition raw_copies :: "string \<Rightarrow> machine \<Rightarrow> machine \<Rightarrow> bool" where
  "raw_copies dir s t \<longleftrightarrow> remote t = remote s \<and>
     (\<forall>p d. map_of (local_files t) p = Some d \<longrightarrow>
        map_of (local_files s) p = Some d \<or> (\<exists>k. (k, d) \<in> set (files (remote s)) \<and> startswith k dir))"

lemma write_copies:
  assumes "raw_copies dir s t" and "\<forall>(k, d) \<in> set objs. (k, d) \<in> set (files (remote s)) \<and> startswith k dir"
  shows "raw_copies dir s (snd (for_each objs (\<lambda>(k, data). bind (lift (relpath cwd k dir)) (\<lambda>rel. write_local (path_join2 dest rel) data)) t))"
  using assms
proof (induction objs arbitrary: t)
  case (Cons kd objs)
  obtain k d where kd: "kd = (k, d)" by force
  show ?case
  proof (cases "relpath cwd k dir")
    case (Inl e)
    with Cons.prems kd show ?thesis by (simp add: seq_def bind_def)
  next
    case (Inr rel)
    let ?t = "t\<lparr>local_files := AList.update (normpath (path_join2 dest rel)) d (local_files t)\<rparr>"
    have "raw_copies dir s ?t" using Cons.prems kd by (auto simp: raw_copies_def update_conv' split: if_splits)
    with Cons.IH [of ?t] Cons.prems(2) Inr kd show ?thesis by (simp add: seq_def bind_def write_local_def)
  qed
qed simp

lemma directory_download_is_raw: "raw_copies dir s (snd (download_directory cwd dir dest s))"
proof -
  have "raw_copies dir s s" by (simp add: raw_copies_def)
  from write_copies [OF this, of "filter (\<lambda>(k, _). startswith k dir) (files (remote s))"] show ?thesis
    by (auto simp: download_directory_def bind_def)
qed

text \<open>Of a saved text the bucket holds the random bytes and the cipher text.\<close>

lemma saved_bytes:
  assumes "\<not> server_is_local c" and "storage_save c k content s = (Inr (), t)"
  shows "map_of (files t) k = Some (urandom12 c (draws s) @ aes_encrypt c (symmetric_key c) (urandom12 c (draws s)) content)"
  using assms
  by (auto simp: storage_save_def seq_def bind_def delete_file_def backend_save_def encrypt_file_def update_conv')

section \<open>The logs of user code\<close>

text \<open>
  \<^verbatim>\<open>finmars.create_logger\<close> and \<^verbatim>\<open>DjangoStorageHandler.emit\<close>: a logger appends each formatted record
  to its file in the storage; \<open>base\<close> is the space.
\<close>

definition log_file_of :: "string \<Rightarrow> string" where
  "log_file_of name = path_join2 ''/.system/log/'' (name @ ''.log'')"

definition storage_emit :: "cipher \<Rightarrow> string \<Rightarrow> string \<Rightarrow> string \<Rightarrow> unit fs" where
  "storage_emit c base name log_entry = append_text c base (log_file_of name) log_entry"

lemma storage_save_writes:
  "\<exists>t data. storage_save c n x s = (Inr (), t) \<and> files t = AList.update n data (filter (\<lambda>(k, _). k \<noteq> n) (files s))"
  by (cases "server_is_local c") (auto simp: storage_save_def seq_def bind_def delete_file_def encrypt_file_def backend_save_def)

text \<open>
  The first record is saved under the bare name; from then on the file is looked for under the
  space, where it is not, and every further record of the logger raises.
\<close>

lemma second_log_record_raises:
  assumes "map_of (files s) (log_file_of name) = None" and "base \<noteq> []"
    and "map_of (files s) (base @ log_file_of name) = None"
  shows "\<exists>t. storage_emit c base name r1 s = (Inr (), t) \<and>
    storage_emit c base name r2 t = (Inl (Raised ''FileNotFoundError'' (base @ log_file_of name)), t)"
proof -
  let ?f = "log_file_of name"
  have full: "under_base base ?f = Inr (base @ ?f)" by (cases name) (auto simp: log_file_of_def under_base_def startswith_def)
  obtain t data where t: "storage_save c ?f (utf8 r1) s = (Inr (), t)"
      "files t = AList.update ?f data (filter (\<lambda>(k, _). k \<noteq> ?f) (files s))"
    using storage_save_writes by blast
  then have here: "map_of (files t) ?f \<noteq> None" "map_of (files t) (base @ ?f) = None"
    using assms by (auto simp: update_conv' map_of_eq_None_iff)
  have "storage_emit c base name r1 s = (Inr (), t)"
    using assms(1) t(1) by (simp add: storage_emit_def append_text_def storage_exists_def bind_def)
  moreover have "storage_emit c base name r2 t = (Inl (Raised ''FileNotFoundError'' (base @ ?f)), t)"
    using here full
    by (simp add: storage_emit_def append_text_def storage_exists_def bind_def open_text_def storage_open_def backend_open_def)
  ultimately show ?thesis by blast
qed

end
