(* ===== verification/Filters.thy ===== *)
theory Filters
  imports Sample
begin

text \<open>
  Which workflows a list shows: the filter backends of \<^verbatim>\<open>workflow/filters.py\<close> and the search
  of \<^verbatim>\<open>finmars_standardized_errors/views.py\<close>.  A condition is a \<^verbatim>\<open>Q\<close> object of the ORM: no
  condition at all, or a predicate on rows; the database's case folding, its patterns and its
  texts of dates are parameters.
\<close>

section \<open>Conditions\<close>

type_synonym 'r q = "('r \<Rightarrow> bool) option"

datatype connector = AND | OR

definition q_holds :: "'r q \<Rightarrow> 'r \<Rightarrow> bool" where
  "q_holds q r = (case q of None \<Rightarrow> True | Some p \<Rightarrow> p r)"

text \<open>\<^verbatim>\<open>q.add(other, connector)\<close>: an empty condition is no operand.\<close>

definition q_add :: "'r q \<Rightarrow> connector \<Rightarrow> 'r q \<Rightarrow> 'r q" where
  "q_add q c other =
     (case (q, other) of
        (None, _) \<Rightarrow> other
      | (_, None) \<Rightarrow> q
      | (Some p, Some p') \<Rightarrow> Some (\<lambda>r. case c of AND \<Rightarrow> p r \<and> p' r | OR \<Rightarrow> p r \<or> p' r))"

text \<open>\<^verbatim>\<open>icontains\<close> on a column that may be null.\<close>

definition icontains :: "(string \<Rightarrow> string) \<Rightarrow> ('r \<Rightarrow> string option) \<Rightarrow> string \<Rightarrow> 'r q" where
  "icontains upper col piece = Some (\<lambda>r. case col r of None \<Rightarrow> False | Some v \<Rightarrow> contains (upper piece) (upper v))"

section \<open>WorkflowQueryFilter\<close>

definition all_pieces :: "(string \<Rightarrow> string) \<Rightarrow> string list \<Rightarrow> ('r \<Rightarrow> string option) \<Rightarrow> 'r q" where
  "all_pieces upper pieces col = foldl (\<lambda>q piece. q_add q AND (icontains upper col piece)) None pieces"

definition any_column :: "(string \<Rightarrow> string) \<Rightarrow> string list \<Rightarrow> ('r \<Rightarrow> string option) list \<Rightarrow> 'r q" where
  "any_column upper pieces cols = foldl (\<lambda>q col. q_add q OR (all_pieces upper pieces col)) None cols"

definition query_filter ::
  "(string \<Rightarrow> string) \<Rightarrow> ('r \<Rightarrow> string option) list \<Rightarrow> string option \<Rightarrow> 'r list \<Rightarrow> 'r list" where
  "query_filter upper cols given_query rows =
     (case given_query of
        None \<Rightarrow> rows
      | Some words \<Rightarrow>
          if words = [] then rows
          else filter (q_holds (any_column upper (split_on (CHR '' '') words) cols)) rows)"

text \<open>The columns of a workflow, in the order of the code; \<open>created\<close> is the text of \<^verbatim>\<open>created_at\<close>.\<close>

definition workflow_columns :: "(workflow_row \<Rightarrow> string) \<Rightarrow> (workflow_row \<Rightarrow> string option) list" where
  "workflow_columns created =
     [\<lambda>w. Some (show_nat (wf_id w)), wf_name, wf_user_code, \<lambda>w. Some (created w), \<lambda>w. Some (wf_status_str (wf_status w))]"

definition workflow_query_filter ::
  "(string \<Rightarrow> string) \<Rightarrow> (workflow_row \<Rightarrow> string) \<Rightarrow> string option \<Rightarrow> workflow_row list \<Rightarrow> workflow_row list" where
  "workflow_query_filter upper created given_query rows = query_filter upper (workflow_columns created) given_query rows"

section \<open>WholeWordsSearchFilter\<close>

text \<open>\<open>matches term v\<close>: the database finds \<^verbatim>\<open>\mterm\M\<close> in \<open>v\<close>; the term is not escaped.\<close>

definition term_query :: "(string \<Rightarrow> string \<Rightarrow> bool) \<Rightarrow> ('r \<Rightarrow> string option) list \<Rightarrow> string \<Rightarrow> 'r q" where
  "term_query matches cols tm =
     foldl (\<lambda>q col. q_add q OR (Some (\<lambda>r. case col r of None \<Rightarrow> False | Some v \<Rightarrow> matches tm v))) None cols"

definition whole_words_filter ::
  "(string \<Rightarrow> string \<Rightarrow> bool) \<Rightarrow> ('r \<Rightarrow> string option) list \<Rightarrow> string list \<Rightarrow> 'r list \<Rightarrow> 'r list" where
  "whole_words_filter matches cols terms rows =
     filter (q_holds (foldl (\<lambda>q tm. q_add q AND (term_query matches cols tm)) None terms)) rows"

section \<open>WorkflowSearchParamFilter\<close>

record search_params =
  date_from :: "string option"
  date_to :: "string option"
  param_status :: "string option"
  param_is_manager :: "string option"

text \<open>
  \<open>strptime\<close> gives the first microsecond of a day; \<open>created\<close> the microsecond a row was created
  in; \<open>to_bool\<close> is how the ORM reads the text given for a boolean column.
\<close>

definition given :: "string option \<Rightarrow> string option" where
  "given v = (case v of None \<Rightarrow> None | Some x \<Rightarrow> if x = [] then None else Some x)"

definition day :: int where
  "day = 86400000000"

definition search_param_filter ::
  "(string \<Rightarrow> exc + int) \<Rightarrow> (string \<Rightarrow> exc + bool) \<Rightarrow> (workflow_row \<Rightarrow> int) \<Rightarrow> search_params \<Rightarrow> workflow_row list \<Rightarrow>
    exc + workflow_row list" where
  "search_param_filter strptime to_bool created ps rows =
     rbind (case given (date_from ps) of None \<Rightarrow> Inr rows
            | Some x \<Rightarrow> rbind (strptime x) (\<lambda>d. Inr (filter (\<lambda>w. d \<le> created w) rows))) (\<lambda>rows1.
     rbind (case given (date_to ps) of None \<Rightarrow> Inr rows1
            | Some x \<Rightarrow> rbind (strptime x) (\<lambda>d. Inr (filter (\<lambda>w. created w \<le> d + (day - 1)) rows1))) (\<lambda>rows2.
     rbind (case given (param_status ps) of None \<Rightarrow> Inr rows2
            | Some x \<Rightarrow> Inr (filter (\<lambda>w. wf_status_str (wf_status w) \<in> set (split_on (CHR '','') x)) rows2)) (\<lambda>rows3.
       case given (param_is_manager ps) of None \<Rightarrow> Inr rows3
       | Some x \<Rightarrow> rbind (to_bool x) (\<lambda>b. Inr (filter (\<lambda>w. is_manager w = b) rows3)))))"

section \<open>What the filters select\<close>

lemma q_holds_fold_and:
  "q_holds (foldl (\<lambda>q x. q_add q AND (f x)) q xs) r \<longleftrightarrow> q_holds q r \<and> (\<forall>x \<in> set xs. q_holds (f x) r)"
  by (induction xs arbitrary: q) (auto simp: q_holds_def q_add_def split: option.splits)

lemma q_holds_fold_or:
  assumes "\<And>x. x \<in> set xs \<Longrightarrow> f x \<noteq> None"
  shows "q_holds (foldl (\<lambda>q x. q_add q OR (f x)) q xs) r \<longleftrightarrow>
    (if q = None then xs = [] \<or> (\<exists>x \<in> set xs. q_holds (f x) r) else q_holds q r \<or> (\<exists>x \<in> set xs. q_holds (f x) r))"
  using assms
proof (induction xs arbitrary: q)
  case (Cons x xs)
  then have "f x \<noteq> None" by simp
  then obtain p where p: "f x = Some p" by auto
  have step: "q_add q OR (f x) \<noteq> None" "q_holds (q_add q OR (f x)) r \<longleftrightarrow> (q \<noteq> None \<and> q_holds q r) \<or> q_holds (f x) r"
    by (auto simp: q_add_def q_holds_def p split: option.splits)
  have "q_holds (foldl (\<lambda>q x. q_add q OR (f x)) (q_add q OR (f x)) xs) r \<longleftrightarrow>
      q_holds (q_add q OR (f x)) r \<or> (\<exists>x \<in> set xs. q_holds (f x) r)"
    using Cons.IH [of "q_add q OR (f x)"] Cons.prems step(1) by simp
  then show ?case using step by auto
qed (auto simp: q_holds_def)

lemma all_pieces_Some:
  assumes "pieces \<noteq> []"
  shows "all_pieces upper pieces col \<noteq> None"
proof -
  have "foldl (\<lambda>q piece. q_add q AND (icontains upper col piece)) q ps \<noteq> None" if "q \<noteq> None" for q ps
    using that by (induction ps arbitrary: q) (auto simp: q_add_def icontains_def split: option.splits)
  moreover have "q_add None AND (icontains upper col p) \<noteq> None" for p by (simp add: q_add_def icontains_def)
  ultimately show ?thesis using assms by (cases pieces) (simp_all add: all_pieces_def)
qed

text \<open>
  A search shows exactly the rows of which one column contains every word of the query;
  words that occur in different columns only do not select a row.
\<close>

lemma query_filter_exact:
  assumes "words \<noteq> []" and "cols \<noteq> []"
  shows "query_filter upper cols (Some words) rows =
    filter (\<lambda>r. \<exists>col \<in> set cols. \<exists>v. col r = Some v \<and>
      (\<forall>piece \<in> set (split_on (CHR '' '') words). contains (upper piece) (upper v))) rows"
proof -
  let ?ps = "split_on (CHR '' '') words"
  have col: "q_holds (all_pieces upper ?ps col) r \<longleftrightarrow> (\<exists>v. col r = Some v \<and> (\<forall>p \<in> set ?ps. contains (upper p) (upper v)))" for col r
    unfolding all_pieces_def q_holds_fold_and
    by (cases "?ps") (auto simp: q_holds_def icontains_def split: option.splits)
  have "q_holds (any_column upper ?ps cols) r \<longleftrightarrow> (\<exists>col \<in> set cols. q_holds (all_pieces upper ?ps col) r)" for r
    using q_holds_fold_or [of cols "all_pieces upper ?ps" None r, OF all_pieces_Some] assms(2) by (simp add: any_column_def)
  then show ?thesis using assms(1) by (simp add: query_filter_def col cong: filter_cong)
qed

lemma query_filter_sample:
  "query_filter ascii_lower [wf_name, wf_user_code] (Some ''V2 com'') [sample_workflow] = [sample_workflow]"
proof -
  have "list_all (\<lambda>piece. contains (ascii_lower piece) (ascii_lower ''space0.com.v2'')) (split_on (CHR '' '') ''V2 com'')" by code_simp
  then show ?thesis
    by (subst query_filter_exact) (simp_all add: sample_workflow_def list_all_iff)
qed

text \<open>A search from a day to the same day shows what was created on that day.\<close>

lemma search_one_day:
  assumes "strptime x = Inr d" and "x \<noteq> []"
  shows "search_param_filter strptime to_bool created \<lparr>date_from = Some x, date_to = Some x, param_status = None, param_is_manager = None\<rparr> rows
    = Inr (filter (\<lambda>w. d \<le> created w \<and> created w < d + day) rows)"
  using assms by (simp add: search_param_filter_def given_def day_def conj_commute) (rule filter_cong, auto)

lemma whole_words_exact:
  assumes "cols \<noteq> []"
  shows "whole_words_filter matches cols terms rows =
    filter (\<lambda>r. \<forall>tm \<in> set terms. \<exists>col \<in> set cols. \<exists>v. col r = Some v \<and> matches tm v) rows"
proof -
  have "q_holds (term_query matches cols tm) r \<longleftrightarrow> (\<exists>col \<in> set cols. \<exists>v. col r = Some v \<and> matches tm v)" for tm r
    unfolding term_query_def using assms by (subst q_holds_fold_or) (auto simp: q_holds_def split: option.splits)
  then show ?thesis unfolding whole_words_filter_def q_holds_fold_and by (simp add: q_holds_def [of None] cong: filter_cong)
qed

end
