(* ===== verification/Monitoring.thy ===== *)
theory Monitoring
  imports Graph
begin

text \<open>
  \<^verbatim>\<open>workflow/monitoring.py\<close>: the summary of what the Celery workers hold and of the queues of
  RabbitMQ.  What Celery's inspection and RabbitMQ's management interface answer are the
  arguments.
\<close>

section \<open>Celery workers\<close>

datatype task_type = Active | Scheduled | Pending

record worker_data =
  active_tasks :: "json list"
  scheduled_tasks :: "json list"
  pending_tasks :: "json list"
  active_tasks_count :: nat
  pending_tasks_count :: nat
  scheduled_tasks_count :: nat
  total_tasks_count :: nat

definition empty_worker :: worker_data where
  "empty_worker =
     \<lparr>active_tasks = [], scheduled_tasks = [], pending_tasks = [], active_tasks_count = 0,
      pending_tasks_count = 0, scheduled_tasks_count = 0, total_tasks_count = 0\<rparr>"

type_synonym workers = "(string, (string, worker_data) dict) dict"

definition add_task :: "task_type \<Rightarrow> worker_data \<Rightarrow> json \<Rightarrow> worker_data" where
  "add_task ty w t =
     (case ty of
        Active \<Rightarrow> w\<lparr>active_tasks := active_tasks w @ [t], active_tasks_count := active_tasks_count w + 1,
                    total_tasks_count := total_tasks_count w + 1\<rparr>
      | Scheduled \<Rightarrow> w\<lparr>scheduled_tasks := scheduled_tasks w @ [t], scheduled_tasks_count := scheduled_tasks_count w + 1,
                       total_tasks_count := total_tasks_count w + 1\<rparr>
      | Pending \<Rightarrow> w\<lparr>pending_tasks := pending_tasks w @ [t], pending_tasks_count := pending_tasks_count w + 1,
                     total_tasks_count := total_tasks_count w + 1\<rparr>)"

definition get_dict :: "('k, 'v) dict \<Rightarrow> 'k \<Rightarrow> 'v \<Rightarrow> 'v" where
  "get_dict d k dflt = (case map_of d k of None \<Rightarrow> dflt | Some v \<Rightarrow> v)"

text \<open>One worker's tasks of one type; a worker's name is \<^verbatim>\<open>type@name\<close>.\<close>

definition add_worker :: "task_type \<Rightarrow> workers \<Rightarrow> string \<times> json list \<Rightarrow> exc + workers" where
  "add_worker ty data item =
     (case split_on (CHR ''@'') (fst item) of
        [wt, wn] \<Rightarrow>
          (let names = get_dict data wt [];
               w = foldl (add_task ty) (get_dict names wn empty_worker) (snd item)
           in Inr (AList.update wt (AList.update wn w names) data))
      | _ \<Rightarrow> Inl ValueError)"

fun add_workers :: "task_type \<Rightarrow> workers \<Rightarrow> (string \<times> json list) list \<Rightarrow> exc + workers" where
  "add_workers ty data [] = Inr data"
| "add_workers ty data (x # xs) = rbind (add_worker ty data x) (\<lambda>d. add_workers ty d xs)"

type_synonym inspection = "exc + (string, json list) dict option"

definition or_empty :: "('k, 'v) dict option \<Rightarrow> ('k, 'v) dict" where
  "or_empty x = (case x of None \<Rightarrow> [] | Some d \<Rightarrow> d)"

definition collect_tasks :: "inspection \<Rightarrow> inspection \<Rightarrow> inspection \<Rightarrow> exc + workers" where
  "collect_tasks active scheduled reserved =
     rbind active (\<lambda>a. rbind scheduled (\<lambda>s. rbind reserved (\<lambda>p.
     rbind (add_workers Active [] (or_empty a)) (\<lambda>d1.
     rbind (add_workers Scheduled d1 (or_empty s)) (\<lambda>d2.
       add_workers Pending d2 (or_empty p))))))"

definition get_tasks_data :: "inspection \<Rightarrow> inspection \<Rightarrow> inspection \<Rightarrow> workers" where
  "get_tasks_data active scheduled reserved =
     (case collect_tasks active scheduled reserved of Inl _ \<Rightarrow> [] | Inr d \<Rightarrow> d)"

section \<open>Queues of RabbitMQ\<close>

definition queue_name :: "json \<Rightarrow> exc + string" where
  "queue_name v = (case v of JStr s \<Rightarrow> Inr s | JList _ \<Rightarrow> Inl AttributeError | JObj _ \<Rightarrow> Inl AttributeError | _ \<Rightarrow> Inl TypeError)"

definition skipped_queue :: "string \<Rightarrow> bool" where
  "skipped_queue n \<longleftrightarrow> contains ''.celery.pidbox'' n \<or> contains ''celeryev.'' n"

definition queue_group :: "string \<Rightarrow> string option" where
  "queue_group n =
     (if skipped_queue n then None
      else if startswith n ''backend-'' then Some ''backend''
      else if n = ''workflow'' then Some ''workflow'' else None)"

definition or_zero :: "(string \<times> json) list \<Rightarrow> string \<Rightarrow> json" where
  "or_zero ps k = get_dict ps k (JInt 0)"

definition queue_info :: "string \<Rightarrow> (string \<times> json) list \<Rightarrow> json" where
  "queue_info n ps =
     JObj [(''name'', JStr n), (''messages'', or_zero ps ''messages''), (''messages_ready'', or_zero ps ''messages_ready''),
           (''messages_unacknowledged'', or_zero ps ''messages_unacknowledged''),
           (''consumers'', or_zero ps ''consumers''), (''consumer_utilisation'', or_zero ps ''consumer_utilisation'')]"

type_synonym queues = "(string, (string, json) dict) dict"

fun add_queues :: "queues \<Rightarrow> json list \<Rightarrow> exc + queues" where
  "add_queues acc [] = Inr acc"
| "add_queues acc (q # qs) =
     (case q of
        JObj ps \<Rightarrow>
          rbind (queue_name (get_dict ps ''name'' (JStr []))) (\<lambda>n.
            case queue_group n of
              None \<Rightarrow> add_queues acc qs
            | Some g \<Rightarrow> add_queues (AList.update g (AList.update n (queue_info n ps) (get_dict acc g [])) acc) qs)
      | _ \<Rightarrow> add_queues acc qs)"

text \<open>\<^verbatim>\<open>_make_request\<close>: only the status 200 has data, every failure has none.\<close>

definition make_request :: "exc + (nat \<times> (exc + json)) \<Rightarrow> json option" where
  "make_request reply =
     (case reply of
        Inl _ \<Rightarrow> None
      | Inr (status, body) \<Rightarrow> if status = 200 then (case body of Inl _ \<Rightarrow> None | Inr v \<Rightarrow> Some v) else None)"

definition get_main_queues_info :: "exc + (nat \<times> (exc + json)) \<Rightarrow> exc + queues" where
  "get_main_queues_info reply =
     (case make_request reply of
        None \<Rightarrow> Inr []
      | Some v \<Rightarrow> if \<not> truthy v then Inr [] else
          (case v of
             JList qs \<Rightarrow> add_queues [] qs
           | JObj ps \<Rightarrow> Inr []
           | JStr s \<Rightarrow> Inr []
           | _ \<Rightarrow> Inl TypeError))"

section \<open>What the summary says\<close>

definition counted :: "worker_data \<Rightarrow> bool" where
  "counted w \<longleftrightarrow>
     active_tasks_count w = length (active_tasks w) \<and> scheduled_tasks_count w = length (scheduled_tasks w) \<and>
     pending_tasks_count w = length (pending_tasks w) \<and>
     total_tasks_count w = length (active_tasks w) + length (scheduled_tasks w) + length (pending_tasks w)"

definition tasks_of_type :: "task_type \<Rightarrow> worker_data \<Rightarrow> json list" where
  "tasks_of_type ty w = (case ty of Active \<Rightarrow> active_tasks w | Scheduled \<Rightarrow> scheduled_tasks w | Pending \<Rightarrow> pending_tasks w)"

definition worker_at :: "workers \<Rightarrow> string \<Rightarrow> string \<Rightarrow> worker_data" where
  "worker_at data wt wn = get_dict (get_dict data wt []) wn empty_worker"

lemma get_dict_update [simp]: "get_dict (AList.update k v d) k' x = (if k' = k then v else get_dict d k' x)"
  by (simp add: get_dict_def update_conv')

lemma get_dict_Nil [simp]: "get_dict [] k x = x"
  by (simp add: get_dict_def)

lemma add_task_counted: "counted w \<Longrightarrow> counted (add_task ty w t)"
  by (cases ty) (simp_all add: counted_def add_task_def)

lemma add_tasks_counted: "counted w \<Longrightarrow> counted (foldl (add_task ty) w ts)"
  by (induction ts arbitrary: w) (simp_all add: add_task_counted)

lemma tasks_of_type_add: "tasks_of_type ty' (add_task ty w t) = tasks_of_type ty' w @ (if ty' = ty then [t] else [])"
  by (cases ty; cases ty') (simp_all add: tasks_of_type_def add_task_def)

lemma tasks_of_type_adds:
  "tasks_of_type ty' (foldl (add_task ty) w ts) = tasks_of_type ty' w @ (if ty' = ty then ts else [])"
  by (induction ts arbitrary: w) (simp_all add: tasks_of_type_add)

lemma worker_at_add:
  assumes "add_worker ty data x = Inr data'"
  shows "worker_at data' wt wn =
    (if fst x = wt @ ''@'' @ wn \<and> CHR ''@'' \<notin> set wt \<and> CHR ''@'' \<notin> set wn
     then foldl (add_task ty) (worker_at data wt wn) (snd x) else worker_at data wt wn)"
proof -
  from assms obtain a b where ab: "split_on (CHR ''@'') (fst x) = [a, b]"
    by (auto simp: add_worker_def split: list.splits)
  have x: "fst x = a @ ''@'' @ b" using join_split_on [of "CHR ''@''" "fst x"] ab by simp
  have pieces: "CHR ''@'' \<notin> set a" "CHR ''@'' \<notin> set b"
    using ab split_on_pieces [of _ "CHR ''@''" "fst x"] by auto
  have "(fst x = wt @ ''@'' @ wn \<and> CHR ''@'' \<notin> set wt \<and> CHR ''@'' \<notin> set wn) \<longleftrightarrow> wt = a \<and> wn = b"
  proof
    assume "fst x = wt @ ''@'' @ wn \<and> CHR ''@'' \<notin> set wt \<and> CHR ''@'' \<notin> set wn"
    then have "split_on (CHR ''@'') (fst x) = [wt, wn]" by (simp add: split_on_append split_on_no_sep)
    with ab show "wt = a \<and> wn = b" by simp
  qed (use x pieces in simp)
  then show ?thesis using assms ab by (auto simp: add_worker_def Let_def worker_at_def)
qed

text \<open>The tasks reported of one worker, in the order of the report.\<close>

definition reported :: "string \<Rightarrow> string \<Rightarrow> (string \<times> json list) list \<Rightarrow> json list" where
  "reported wt wn xs =
     (if CHR ''@'' \<in> set wt \<or> CHR ''@'' \<in> set wn then []
      else concat (map snd (filter (\<lambda>x. fst x = wt @ ''@'' @ wn) xs)))"

lemma add_workers_tasks:
  "add_workers ty data xs = Inr data' \<Longrightarrow>
    tasks_of_type ty' (worker_at data' wt wn)
      = tasks_of_type ty' (worker_at data wt wn) @ (if ty' = ty then reported wt wn xs else [])"
proof (induction xs arbitrary: data)
  case (Cons x xs)
  then obtain d where d: "add_worker ty data x = Inr d" "add_workers ty d xs = Inr data'"
    by (auto simp: rbind_Inr)
  from Cons.IH [OF d(2)] worker_at_add [OF d(1), of wt wn] show ?case
    by (auto simp: reported_def tasks_of_type_adds)
qed (simp add: reported_def)

lemma add_workers_counted:
  assumes "add_workers ty data xs = Inr data'" and "\<And>wt wn. counted (worker_at data wt wn)"
  shows "counted (worker_at data' wt wn)"
  using assms
proof (induction xs arbitrary: data)
  case (Cons x xs)
  then obtain d where d: "add_worker ty data x = Inr d" "add_workers ty d xs = Inr data'"
    by (auto simp: rbind_Inr)
  have "counted (worker_at d wt' wn')" for wt' wn'
    using worker_at_add [OF d(1), of wt' wn'] Cons.prems(2) by (simp add: add_tasks_counted)
  with Cons.IH [OF d(2)] show ?case by blast
qed simp

lemma counted_empty [simp]: "counted empty_worker"
  by (simp add: counted_def empty_worker_def)

text \<open>
  The summary of the workers is exact: for every worker each list holds the tasks reported
  for it under that type, in order, each count is the length of its list, and the total is
  the sum of the three.
\<close>

lemma worker_summary_exact:
  assumes "collect_tasks (Inr a) (Inr s) (Inr p) = Inr data"
  shows "get_tasks_data (Inr a) (Inr s) (Inr p) = data \<and> counted (worker_at data wt wn) \<and>
    active_tasks (worker_at data wt wn) = reported wt wn (or_empty a) \<and>
    scheduled_tasks (worker_at data wt wn) = reported wt wn (or_empty s) \<and>
    pending_tasks (worker_at data wt wn) = reported wt wn (or_empty p)"
proof -
  from assms obtain d1 d2 where d: "add_workers Active [] (or_empty a) = Inr d1"
      "add_workers Scheduled d1 (or_empty s) = Inr d2" "add_workers Pending d2 (or_empty p) = Inr data"
    by (auto simp: collect_tasks_def rbind_Inr)
  have start: "worker_at [] wt wn = empty_worker" for wt wn by (simp add: worker_at_def)
  then have "counted (worker_at d1 wt wn)" for wt wn using add_workers_counted [OF d(1)] by simp
  then have "counted (worker_at d2 wt wn)" for wt wn using add_workers_counted [OF d(2)] by blast
  then have "counted (worker_at data wt wn)" using add_workers_counted [OF d(3)] by blast
  moreover have "tasks_of_type ty (worker_at data wt wn) =
      (case ty of Active \<Rightarrow> reported wt wn (or_empty a) | Scheduled \<Rightarrow> reported wt wn (or_empty s)
        | Pending \<Rightarrow> reported wt wn (or_empty p))" for ty
    using add_workers_tasks [OF d(1), of ty wt wn] add_workers_tasks [OF d(2), of ty wt wn]
      add_workers_tasks [OF d(3), of ty wt wn] start
    by (cases ty) (simp_all add: tasks_of_type_def empty_worker_def)
  from this [of Active] this [of Scheduled] this [of Pending] have
    "active_tasks (worker_at data wt wn) = reported wt wn (or_empty a)"
    "scheduled_tasks (worker_at data wt wn) = reported wt wn (or_empty s)"
    "pending_tasks (worker_at data wt wn) = reported wt wn (or_empty p)"
    by (simp_all add: tasks_of_type_def)
  ultimately show ?thesis using assms by (simp add: get_tasks_data_def)
qed

lemma worker_summary_sample:
  "\<exists>data. get_tasks_data (Inr (Some [(''workflow@h'', [JInt 1, JInt 2])])) (Inr None) (Inr (Some [(''workflow@h'', [JInt 3])])) = data \<and>
     counted (worker_at data ''workflow'' ''h'') \<and> active_tasks (worker_at data ''workflow'' ''h'') = [JInt 1, JInt 2]"
proof -
  have "\<not> isl (collect_tasks (Inr (Some [(''workflow@h'', [JInt 1, JInt 2])])) (Inr None) (Inr (Some [(''workflow@h'', [JInt 3])])))"
    by code_simp
  then obtain data where "collect_tasks (Inr (Some [(''workflow@h'', [JInt 1, JInt 2])])) (Inr None)
      (Inr (Some [(''workflow@h'', [JInt 3])])) = Inr data" by (metis isl_def sum.exhaust_sel)
  from worker_summary_exact [OF this, of "''workflow''" "''h''"] show ?thesis
    by (auto simp: reported_def or_empty_def)
qed

end
