(* ===== verification/Errors.thy ===== *)
theory Errors
  imports Models Graph
begin

text \<open>
  The package \<^verbatim>\<open>finmars_standardized_errors\<close>: how an exception of a view becomes a response
  (\<^verbatim>\<open>handler.py\<close>, \<^verbatim>\<open>formatter.py\<close>, \<^verbatim>\<open>types.py\<close>) and a stored record (\<^verbatim>\<open>models.py\<close>).  The
  nested details of a validation error are flattened to a list of errors with the path of
  each field; the flattening is compared with a definition over structured paths.
\<close>

section \<open>Details\<close>

text \<open>\<^verbatim>\<open>ErrorDetail\<close> is a string with a code; details nest in lists and dictionaries.\<close>

datatype detail = Detail string string | DList "detail list" | DObj "(string \<times> detail) list"

record error =
  err_code :: string
  err_detail :: string
  err_attr :: "string option"

definition is_leaf :: "detail \<Rightarrow> bool" where
  "is_leaf d = (case d of Detail _ _ \<Rightarrow> True | _ \<Rightarrow> False)"

text \<open>\<^verbatim>\<open>f"{attr}{separator}{key}" if attr else key\<close>\<close>

definition under :: "string \<Rightarrow> string option \<Rightarrow> string \<Rightarrow> string" where
  "under sep attr key = (case attr of None \<Rightarrow> key | Some a \<Rightarrow> if a = [] then key else a @ sep @ key)"

function flatten_errors :: "string \<Rightarrow> detail \<Rightarrow> string option \<Rightarrow> nat option \<Rightarrow> error list" where
  "flatten_errors sep (Detail code text) attr idx =
     (if text = [] then [] else [\<lparr>err_code = code, err_detail = text, err_attr = attr\<rparr>])"
| "flatten_errors sep (DList []) attr idx = []"
| "flatten_errors sep (DList (x # xs)) attr idx =
     (if \<not> is_leaf x then
        (let i = (case idx of None \<Rightarrow> 0 | Some n \<Rightarrow> n + 1)
         in flatten_errors sep x (Some (under sep attr (show_nat i))) (Some i)
              @ flatten_errors sep (DList xs) attr (Some i))
      else flatten_errors sep x attr idx @ flatten_errors sep (DList xs) attr idx)"
| "flatten_errors sep (DObj []) attr idx = []"
| "flatten_errors sep (DObj ((k, v) # rest)) attr idx =
     flatten_errors sep v (Some (under sep attr k)) None @ flatten_errors sep (DObj rest) attr None"
  by pat_completeness auto
termination
  by (relation "measure (\<lambda>(sep, d, attr, idx). size d)") auto

section \<open>The handler\<close>

text \<open>What the handler tells apart; the fields of an \<^verbatim>\<open>APIException\<close> that it reads.\<close>

record api_exception =
  api_is_validation :: bool
  api_status :: nat
  api_detail :: detail
  api_auth_header :: "string option"
  api_wait :: "nat option"

datatype view_exception = Http404 | PermissionDenied | ApiException api_exception | OtherException string

definition convert_known_exceptions :: "view_exception \<Rightarrow> view_exception" where
  "convert_known_exceptions e =
     (case e of
        Http404 \<Rightarrow> ApiException \<lparr>api_is_validation = False, api_status = 404,
          api_detail = Detail ''not_found'' ''Not found.'', api_auth_header = None, api_wait = None\<rparr>
      | PermissionDenied \<Rightarrow> ApiException \<lparr>api_is_validation = False, api_status = 403,
          api_detail = Detail ''permission_denied'' ''You do not have permission to perform this action.'',
          api_auth_header = None, api_wait = None\<rparr>
      | _ \<Rightarrow> e)"

definition is_api :: "view_exception \<Rightarrow> bool" where
  "is_api e = (case e of ApiException _ \<Rightarrow> True | _ \<Rightarrow> False)"

definition should_not_handle :: "bool \<Rightarrow> bool \<Rightarrow> view_exception \<Rightarrow> bool" where
  "should_not_handle debug enabled_in_debug e \<longleftrightarrow> debug \<and> \<not> enabled_in_debug \<and> \<not> is_api e"

definition convert_unhandled_exceptions :: "view_exception \<Rightarrow> api_exception" where
  "convert_unhandled_exceptions e =
     (case e of
        ApiException a \<Rightarrow> a
      | OtherException m \<Rightarrow> \<lparr>api_is_validation = False, api_status = 500, api_detail = Detail ''error'' m,
          api_auth_header = None, api_wait = None\<rparr>
      | _ \<Rightarrow> \<lparr>api_is_validation = False, api_status = 500, api_detail = Detail ''error'' [],
          api_auth_header = None, api_wait = None\<rparr>)"

datatype error_type = ValidationErrorType | ClientErrorType | ServerErrorType

fun error_type_str :: "error_type \<Rightarrow> string" where
  "error_type_str ValidationErrorType = ''validation_error''"
| "error_type_str ClientErrorType = ''client_error''"
| "error_type_str ServerErrorType = ''server_error''"

definition get_error_type :: "api_exception \<Rightarrow> error_type" where
  "get_error_type e =
     (if api_is_validation e then ValidationErrorType
      else if 400 \<le> api_status e \<and> api_status e \<le> 499 then ClientErrorType else ServerErrorType)"

text \<open>\<^verbatim>\<open>{v.value: v.description for v in HTTPStatus}\<close>\<close>

definition http_code_to_message :: "(nat, string) dict" where
  "http_code_to_message =
     [(100, ''Request received, please continue''),
      (101, ''Switching to new protocol; obey Upgrade header''),
      (102, []),
      (103, []),
      (200, ''Request fulfilled, document follows''),
      (201, ''Document created, URL follows''),
      (202, ''Request accepted, processing continues off-line''),
      (203, ''Request fulfilled from cache''),
      (204, ''Request fulfilled, nothing follows''),
      (205, ''Clear input form for further input''),
      (206, ''Partial content follows''),
      (207, []),
      (208, []),
      (226, []),
      (300, ''Object has several resources -- see URI list''),
      (301, ''Object moved permanently -- see URI list''),
      (302, ''Object moved temporarily -- see URI list''),
      (303, ''Object moved -- see Method and URL list''),
      (304, ''Document has not changed since given time''),
      (305, ''You must use proxy specified in Location to access this resource''),
      (307, ''Object moved temporarily -- see URI list''),
      (308, ''Object moved permanently -- see URI list''),
      (400, ''Bad request syntax or unsupported method''),
      (401, ''No permission -- see authorization schemes''),
      (402, ''No payment -- see charging schemes''),
      (403, ''Request forbidden -- authorization will not help''),
      (404, ''Nothing matches the given URI''),
      (405, ''Specified method is invalid for this resource''),
      (406, ''URI not available in preferred format''),
      (407, ''You must authenticate with this proxy before proceeding''),
      (408, ''Request timed out; try again later''),
      (409, ''Request conflict''),
      (410, ''URI no longer exists and has been permanently removed''),
      (411, ''Client must specify Content-Length''),
      (412, ''Precondition in headers is false''),
      (413, ''Entity is too large''),
      (414, ''URI is too long''),
      (415, ''Entity body in unsupported format''),
      (416, ''Cannot satisfy request range''),
      (417, ''Expect condition could not be satisfied''),
      (418, ''Server refuses to brew coffee because it is a teapot.''),
      (421, ''Server is not able to produce a response''),
      (422, []),
      (423, []),
      (424, []),
      (425, []),
      (426, []),
      (428, ''The origin server requires the request to be conditional''),
      (429, ''The user has sent too many requests in a given amount of time ('' @ [CHR 0x22] @ ''rate limiting'' @ [CHR 0x22] @ '')''),
      (431, ''The server is unwilling to process the request because its header fields are too large''),
      (451, ''The server is denying access to the resource as a consequence of a legal demand''),
      (500, ''Server got itself in trouble''),
      (501, ''Server does not support this operation''),
      (502, ''Invalid responses from another server/proxy''),
      (503, ''The server cannot process the request due to a high load''),
      (504, ''The gateway server did not receive a timely response''),
      (505, ''Cannot fulfill request''),
      (506, []),
      (507, []),
      (508, []),
      (510, []),
      (511, ''The client needs to authenticate to gain network access'')]"

definition error_json :: "error \<Rightarrow> json" where
  "error_json e = JObj [(''code'', JStr (err_code e)), (''detail'', JStr (err_detail e)), (''attr'', opt_str (err_attr e))]"

definition details_json :: "error_type \<Rightarrow> error list \<Rightarrow> json" where
  "details_json ty es = JObj [(''type'', JStr (error_type_str ty)), (''errors'', JList (map error_json es))]"

section \<open>Records of errors\<close>

record error_record =
  rec_url :: string
  rec_username :: string
  rec_status_code :: nat
  rec_message :: string
  rec_details_data :: "string option"

text \<open>\<^verbatim>\<open>ErrorRecord.details\<close>\<close>

definition set_details :: "json \<Rightarrow> error_record \<Rightarrow> error_record" where
  "set_details v r = r\<lparr>rec_details_data := if truthy v then Some (dumps_sorted v) else None\<rparr>"

definition details :: "error_record \<Rightarrow> json" where
  "details r =
     (case rec_details_data r of
        None \<Rightarrow> JNull
      | Some s \<Rightarrow> if s = [] then JNull else (case json_loads s of Inl _ \<Rightarrow> JNull | Inr v \<Rightarrow> v))"

text \<open>The request as the formatter reads it, and the response with its headers.\<close>

record error_context =
  ctx_url :: string
  ctx_username :: string
  ctx_now :: string

record error_response =
  er_status :: nat
  er_headers :: "(string, string) dict"
  er_body :: json
  er_reported :: bool

definition get_headers :: "api_exception \<Rightarrow> (string, string) dict" where
  "get_headers e =
     (case api_auth_header e of
        None \<Rightarrow> []
      | Some h \<Rightarrow> if h = [] then [] else [(''WWW-Authenticate'', h)])
     @ (case api_wait e of
          None \<Rightarrow> []
        | Some w \<Rightarrow> if w = 0 then [] else [(''Retry-After'', show_nat w)])"

text \<open>
  \<^verbatim>\<open>ExceptionFormatter.run\<close>: a status without a description raises before anything is stored.
\<close>

definition format_exception :: "string \<Rightarrow> error_context \<Rightarrow> api_exception \<Rightarrow> (error_record list, json) comp" where
  "format_exception sep c e =
     (let ty = get_error_type e; es = flatten_errors sep (api_detail e) None None in
      bind (lift (or_raise (map_of http_code_to_message (api_status e)) (KeyError (show_nat (api_status e))))) (\<lambda>message.
      seq (modify (\<lambda>rs. rs @ [set_details (details_json ty es)
             \<lparr>rec_url = ctx_url c, rec_username = ctx_username c, rec_status_code = api_status e,
              rec_message = message, rec_details_data = None\<rparr>]))
        (ret (JObj [(''error'', JObj [(''url'', JStr (ctx_url c)), (''username'', JStr (ctx_username c)),
           (''status_code'', JInt (int (api_status e))), (''message'', JStr message),
           (''datetime'', JStr (ctx_now c)), (''details'', details_json ty es)])]))))"

text \<open>\<^verbatim>\<open>ExceptionHandler.run\<close>; a server error is also sent to the monitoring signal.\<close>

definition handle_exception ::
  "bool \<Rightarrow> bool \<Rightarrow> string \<Rightarrow> error_context \<Rightarrow> view_exception \<Rightarrow> (error_record list, error_response option) comp" where
  "handle_exception debug enabled_in_debug sep c e =
     (let e1 = convert_known_exceptions e in
      if should_not_handle debug enabled_in_debug e1 then ret None
      else
        (let a = convert_unhandled_exceptions e1 in
         bind (format_exception sep c a) (\<lambda>data.
           ret (Some \<lparr>er_status = api_status a, er_headers = get_headers a, er_body = data,
                      er_reported = (500 \<le> api_status a \<and> api_status a \<le> 599)\<rparr>))))"

section \<open>What flattening gives\<close>

text \<open>A field's place in the details: keys and positions from the outside in.\<close>

datatype step = Key string | Pos nat

fun step_str :: "step \<Rightarrow> string" where
  "step_str (Key k) = k"
| "step_str (Pos n) = show_nat n"

definition place :: "string \<Rightarrow> step list \<Rightarrow> string option" where
  "place sep p = (if p = [] then None else Some (join sep (map step_str p)))"

text \<open>
  The reference: every leaf with its place, in order; in a list only the elements that are
  not leaves are numbered.
\<close>

function leaves_at :: "detail \<Rightarrow> step list \<Rightarrow> nat \<Rightarrow> (step list \<times> string \<times> string) list" where
  "leaves_at (Detail code text) p n = (if text = [] then [] else [(p, code, text)])"
| "leaves_at (DList []) p n = []"
| "leaves_at (DList (x # xs)) p n =
     (if is_leaf x then leaves_at x p 0 @ leaves_at (DList xs) p n
      else leaves_at x (p @ [Pos n]) 0 @ leaves_at (DList xs) p (n + 1))"
| "leaves_at (DObj kvs) p n = concat (map (\<lambda>kv. leaves_at (snd kv) (p @ [Key (fst kv)]) 0) kvs)"
  by pat_completeness auto

lemma size_member: "kv \<in> set kvs \<Longrightarrow> size (snd kv) < Suc (size_list (size_prod (\<lambda>_. 0) size) kvs)"
  by (induction kvs) (auto simp: prod.size_neq less_Suc_eq_le intro: le_SucI trans_le_add2)

termination leaves_at
  by (relation "measure (\<lambda>(d, p, n). size d)") (auto simp: size_member)

text \<open>The details the serializers produce: keys are not empty and no list holds a list.\<close>

function well_shaped :: "detail \<Rightarrow> bool" where
  "well_shaped (Detail code text) = True"
| "well_shaped (DList xs) = (\<forall>x \<in> set xs. (case x of DList _ \<Rightarrow> False | _ \<Rightarrow> True) \<and> well_shaped x)"
| "well_shaped (DObj kvs) = (\<forall>kv \<in> set kvs. fst kv \<noteq> [] \<and> well_shaped (snd kv))"
  by pat_completeness auto

lemma size_element: "x \<in> set xs \<Longrightarrow> size x < Suc (size_list size xs)"
  by (induction xs) auto

termination well_shaped
  by (relation "measure size") (auto simp: size_member size_element)

definition solid :: "step list \<Rightarrow> bool" where
  "solid p \<longleftrightarrow> (\<forall>st \<in> set p. step_str st \<noteq> [])"

lemma place_under: "solid p \<Longrightarrow> Some (under sep (place sep p) (step_str st)) = place sep (p @ [st])"
  using join_nonempty [of "map step_str p" sep]
  by (auto simp: place_def under_def solid_def join_snoc)

definition to_errors :: "string \<Rightarrow> (step list \<times> string \<times> string) list \<Rightarrow> error list" where
  "to_errors sep ls = map (\<lambda>(p, c, t). \<lparr>err_code = c, err_detail = t, err_attr = place sep p\<rparr>) ls"

lemma flatten_errors_leaves:
  assumes "well_shaped d" and "solid p"
  shows "flatten_errors sep d (place sep p) idx
    = to_errors sep (leaves_at d p (case idx of None \<Rightarrow> 0 | Some i \<Rightarrow> i + 1))"
  using assms
proof (induction sep d "place sep p" idx arbitrary: p rule: flatten_errors.induct)
  case (1 sep code msg idx)
  then show ?case by (simp add: to_errors_def)
next
  case (2 sep idx)
  then show ?case by (simp add: to_errors_def)
next
  case (3 sep x xs idx)
  show ?case
  proof (cases x)
    case (Detail code msg)
    with 3 show ?thesis by (simp add: is_leaf_def to_errors_def)
  next
    case (DList ys)
    with 3 show ?thesis by simp
  next
    case (DObj kvs)
    define i where "i = (case idx of None \<Rightarrow> 0 | Some n \<Rightarrow> n + 1)"
    have leaf: "\<not> is_leaf x" by (simp add: DObj is_leaf_def)
    have pos: "Some (under sep (place sep p) (show_nat i)) = place sep (p @ [Pos i])"
      using place_under [OF "3.prems"(2), of sep "Pos i"] by simp
    have "flatten_errors sep x (place sep (p @ [Pos i])) (Some i) = to_errors sep (leaves_at x (p @ [Pos i]) (i + 1))"
      using 3 leaf pos i_def by (simp add: solid_def)
    moreover have "flatten_errors sep (DList xs) (place sep p) (Some i) = to_errors sep (leaves_at (DList xs) p (i + 1))"
      using 3 leaf i_def by simp
    moreover have "leaves_at x (p @ [Pos i]) (i + 1) = leaves_at x (p @ [Pos i]) 0" by (simp add: DObj)
    ultimately show ?thesis using leaf pos by (simp add: Let_def i_def [symmetric] to_errors_def)
  qed
next
  case (4 sep idx)
  then show ?case by (simp add: to_errors_def)
next
  case (5 sep k v rest idx)
  have key: "Some (under sep (place sep p) k) = place sep (p @ [Key k])"
    using place_under [OF "5.prems"(2), of sep "Key k"] by simp
  have "flatten_errors sep v (place sep (p @ [Key k])) None = to_errors sep (leaves_at v (p @ [Key k]) 0)"
    using 5 key by (simp add: solid_def)
  moreover have "flatten_errors sep (DObj rest) (place sep p) None = to_errors sep (leaves_at (DObj rest) p 0)"
    using 5 by simp
  ultimately show ?case using key by (simp add: to_errors_def)
qed

text \<open>
  C26: flattening a validation error lists every non-empty message once, in order, under the
  path of its field: keys joined by the separator, nested list elements numbered from 0.
\<close>

theorem flatten_errors_correct:
  assumes "well_shaped d"
  shows "flatten_errors sep d None None = to_errors sep (leaves_at d [] 0)"
  using flatten_errors_leaves [OF assms, of "[]" sep None] by (simp add: solid_def place_def)

theorem flatten_errors_correct_witness:
  "flatten_errors ''.'' (DObj [(''accounts'', DList [DObj [], DObj [(''email'', DList [Detail ''invalid'' ''Enter'']) ]])]) None None
    = [\<lparr>err_code = ''invalid'', err_detail = ''Enter'', err_attr = Some ''accounts.1.email''\<rparr>]"
proof -
  have "show_nat 1 = ''1''" by code_simp
  then show ?thesis
    by (subst flatten_errors_correct) (simp_all add: to_errors_def place_def is_leaf_def)
qed

text \<open>
  A list inside a list is numbered on from its own position: the element at position 0
  of the list at position 1 is reported at position 2.
\<close>

lemma nested_list_is_misnumbered:
  "flatten_errors ''.'' (DList [DObj [], DList [DObj [(k, Detail c (m # ms))]]]) None None
    = [\<lparr>err_code = c, err_detail = m # ms, err_attr = Some (''1.2.'' @ k)\<rparr>]"
proof -
  have "show_nat (Suc 0) = ''1''" "show_nat (Suc (Suc 0)) = ''2''" by code_simp+
  then show ?thesis by (simp add: is_leaf_def under_def)
qed

text \<open>
  Outside the debug mode every exception of a view gets a response: its status is that of
  the API exception (404 and 403 for the two exceptions of Django, 500 for any other), its
  body carries the same status, one record with the same status and readable details is
  stored, and it is reported exactly for the server errors.
\<close>

lemma handle_exception_answers:
  assumes "\<not> debug" and "map_of http_code_to_message
      (api_status (convert_unhandled_exceptions (convert_known_exceptions e))) = Some message"
  shows "\<exists>r rec. handle_exception debug enabled sep c e rs = (Inr (Some r), rs @ [rec]) \<and>
    er_status r = (case e of Http404 \<Rightarrow> 404 | PermissionDenied \<Rightarrow> 403 | ApiException a \<Rightarrow> api_status a | OtherException m \<Rightarrow> 500) \<and>
    path (er_body r) [''error'', ''status_code''] = Inr (JInt (int (er_status r))) \<and>
    rec_status_code rec = er_status r \<and> rec_message rec = message \<and>
    er_reported r = (500 \<le> er_status r \<and> er_status r \<le> 599)"
  using assms
  by (cases e) (simp_all add: handle_exception_def should_not_handle_def convert_known_exceptions_def
      convert_unhandled_exceptions_def format_exception_def bind_def seq_def Let_def set_details_def)

lemma handle_exception_sample:
  "\<exists>r rec. handle_exception False False ''.'' \<lparr>ctx_url = [], ctx_username = [], ctx_now = []\<rparr> Http404 [] = (Inr (Some r), [rec]) \<and>
    er_status r = 404 \<and> rec_status_code rec = 404"
proof -
  have "map_of http_code_to_message (api_status (convert_unhandled_exceptions (convert_known_exceptions Http404)))
      = Some ''Nothing matches the given URI''"
    by (simp add: convert_known_exceptions_def convert_unhandled_exceptions_def http_code_to_message_def)
  from handle_exception_answers [OF _ this, of False False "''.''" "\<lparr>ctx_url = [], ctx_username = [], ctx_now = []\<rparr>" "[]"]
  show ?thesis by auto
qed

lemma details_set_details:
  "jwf v \<Longrightarrow> details (set_details v r) = (if truthy v then jsort v else JNull)"
  by (simp add: details_def set_details_def text_compact.dumps_nonempty text_compact.loads_dumps)

end
