(* ===== verification/Support.thy ===== *)
theory Support
  imports Errors
begin

text \<open>
  The parts around the service: the formatter of log records in \<^verbatim>\<open>logstash/\<close>, the readers of
  environment variables and the filter of error reports in \<^verbatim>\<open>workflow_app/utils.py\<close>, and the
  middleware that answers for views outside the REST framework.
\<close>

section \<open>Log records\<close>

text \<open>An attribute of a record: a value of a plain type, or another object by its \<^verbatim>\<open>repr\<close>.\<close>

datatype log_value = Easy json | Opaque string

record log_record =
  log_attrs :: "(string, log_value) dict"
  log_created :: "string \<times> nat"
  log_message :: string
  log_pathname :: string
  log_levelname :: string
  log_name :: string
  log_module :: string
  log_lineno :: int
  log_process :: int
  log_thread_name :: string
  log_func_name :: "string option"
  log_process_name :: "string option"
  log_exception :: "string option"

definition skip_list :: "string list" where
  "skip_list =
     [''args'', ''asctime'', ''created'', ''exc_info'', ''exc_text'', ''filename'', ''funcName'', ''id'', ''levelname'', ''levelno'',
      ''lineno'', ''module'', ''msecs'', ''msecs'', ''message'', ''msg'', ''name'', ''pathname'', ''process'', ''processName'',
      ''relativeCreated'', ''thread'', ''threadName'', ''extra'']"

definition plain_value :: "log_value \<Rightarrow> json" where
  "plain_value v = (case v of Easy j \<Rightarrow> j | Opaque r \<Rightarrow> JStr r)"

definition get_extra_fields :: "log_record \<Rightarrow> (string, json) dict" where
  "get_extra_fields r = map (\<lambda>(k, v). (k, plain_value v)) (filter (\<lambda>(k, v). k \<notin> set skip_list) (log_attrs r))"

text \<open>The names of the function and of the process are added only when the record has none.\<close>

definition no_name :: "string option \<Rightarrow> bool" where
  "no_name n = (case n of None \<Rightarrow> True | Some x \<Rightarrow> x = [])"

definition log_exception_text :: "log_record \<Rightarrow> string" where
  "log_exception_text r = (case log_exception r of None \<Rightarrow> [] | Some t \<Rightarrow> t)"

definition get_debug_fields :: "log_record \<Rightarrow> (string, json) dict" where
  "get_debug_fields r =
     [(''stack_trace'', JStr (log_exception_text r)), (''lineno'', JInt (log_lineno r)), (''process'', JInt (log_process r)),
      (''thread_name'', JStr (log_thread_name r))]
     @ (if no_name (log_func_name r) then [(''funcName'', opt_str (log_func_name r))] else [])
     @ (if no_name (log_process_name r) then [(''processName'', opt_str (log_process_name r))] else [])"

definition format_source :: "string \<Rightarrow> string \<Rightarrow> string \<Rightarrow> string" where
  "format_source ty host p = ty @ ''://'' @ host @ ''/'' @ p"

text \<open>
  \<^verbatim>\<open>str(m / 1000)\<close> of a float, for the microseconds of a second: the thousandths without
  trailing zeros, and at least one digit behind the point.
\<close>

fun drop_zeros :: "string \<Rightarrow> string" where
  "drop_zeros [] = []"
| "drop_zeros (c # cs) = (if c = CHR ''0'' then drop_zeros cs else c # cs)"

definition thousandths :: "nat \<Rightarrow> string" where
  "thousandths m =
     (let ds = [digit_char (m div 100 mod 10), digit_char (m div 10 mod 10), digit_char (m mod 10)];
          short = rev (drop_zeros (rev ds))
      in if short = [] then ''0'' else short)"

definition float_of_micros :: "nat \<Rightarrow> string" where
  "float_of_micros m = show_nat (m div 1000) @ ''.'' @ thousandths (m mod 1000)"

text \<open>\<open>log_created\<close> is the text of the time up to the second, and the microseconds.\<close>

definition format_timestamp :: "string \<times> nat \<Rightarrow> string" where
  "format_timestamp t = fst t @ ''.'' @ float_of_micros (snd t) @ ''Z''"

record log_formatter =
  message_type_name :: string
  log_tags :: "string list"
  log_host :: string
  host_location :: string

definition dict_update :: "('k, 'v) dict \<Rightarrow> ('k, 'v) dict \<Rightarrow> ('k, 'v) dict" where
  "dict_update d new = foldl (\<lambda>d (k, v). AList.update k v d) d new"

definition base_fields :: "log_formatter \<Rightarrow> log_record \<Rightarrow> (string, json) dict" where
  "base_fields f r =
     [(''@timestamp'', JStr (format_timestamp (log_created r))), (''@version'', JStr ''1''), (''message'', JStr (log_message r)),
      (''host'', JStr (log_host f)), (''path'', JStr (log_pathname r)), (''tags'', JList (map JStr (log_tags f))),
      (''type'', JStr (message_type_name f)), (''host_location'', JStr (host_location f)), (''level'', JStr (log_levelname r)),
      (''logger_name'', JStr (log_name r)), (''module'', JStr (log_module r)), (''lineno'', JInt (log_lineno r))]"

definition format_fields :: "log_formatter \<Rightarrow> log_record \<Rightarrow> (string, json) dict" where
  "format_fields f r =
     (let m = dict_update (base_fields f r) (get_extra_fields r) in
      if log_exception r \<noteq> None then dict_update m (get_debug_fields r) else m)"

definition format_record :: "log_formatter \<Rightarrow> log_record \<Rightarrow> string" where
  "format_record f r = dumps_plain (JObj (format_fields f r))"

text \<open>What the handler sends over the socket: one line.\<close>

definition make_pickle :: "log_formatter \<Rightarrow> log_record \<Rightarrow> string" where
  "make_pickle f r = format_record f r @ [CHR 0x0A]"

section \<open>Environment variables\<close>

text \<open>
  \<^verbatim>\<open>ENV_BOOL\<close>, \<^verbatim>\<open>ENV_STR\<close>, \<^verbatim>\<open>ENV_INT\<close>: a variable that is not set or empty gives the default; a
  text that is no boolean is warned about and gives \<^verbatim>\<open>None\<close>; the call of \<^verbatim>\<open>warnings.warn\<close> itself
  fails, as its second argument is no category.
\<close>

definition env_value :: "(string, string) dict \<Rightarrow> string \<Rightarrow> string option" where
  "env_value environ name = (case map_of environ name of None \<Rightarrow> None | Some v \<Rightarrow> if v = [] then None else Some v)"

definition env_bool :: "(string, string) dict \<Rightarrow> string \<Rightarrow> bool \<Rightarrow> exc + bool" where
  "env_bool environ name dflt =
     (case env_value environ name of
        None \<Rightarrow> Inr dflt
      | Some v \<Rightarrow> if v = ''True'' then Inr True else if v = ''False'' then Inr False else Inl TypeError)"

definition env_str :: "(string, string) dict \<Rightarrow> string \<Rightarrow> string \<Rightarrow> string" where
  "env_str environ name dflt = (case env_value environ name of None \<Rightarrow> dflt | Some v \<Rightarrow> v)"

text \<open>\<^verbatim>\<open>int(v)\<close>: blanks around, an optional sign, and digits with single underscores between them.\<close>

definition is_blank :: "char \<Rightarrow> bool" where
  "is_blank c \<longleftrightarrow> c \<in> {CHR '' '', CHR 0x09, CHR 0x0A, CHR 0x0B, CHR 0x0C, CHR 0x0D, CHR 0x1C, CHR 0x1D, CHR 0x1E, CHR 0x1F, CHR 0x85, CHR 0xA0}"

definition strip_blanks :: "string \<Rightarrow> string" where
  "strip_blanks s = rev (dropWhile is_blank (rev (dropWhile is_blank s)))"

fun grouped_digits :: "string \<Rightarrow> bool" where
  "grouped_digits [] = False"
| "grouped_digits [c] = is_digit c"
| "grouped_digits (c # d # cs) = (is_digit c \<and> (if d = CHR ''_'' then grouped_digits cs else grouped_digits (d # cs)))"

definition int_of_text :: "string \<Rightarrow> exc + int" where
  "int_of_text v =
     (let s = strip_blanks v;
          neg = (s \<noteq> [] \<and> hd s = CHR ''-'');
          ds = (if s \<noteq> [] \<and> (hd s = CHR ''-'' \<or> hd s = CHR ''+'') then tl s else s);
          n = int (nat_of_digits (filter (\<lambda>c. c \<noteq> CHR ''_'') ds))
      in if grouped_digits ds then Inr (if neg then - n else n) else Inl ValueError)"

definition env_int :: "(string, string) dict \<Rightarrow> string \<Rightarrow> int \<Rightarrow> exc + int" where
  "env_int environ name dflt = (case env_value environ name of None \<Rightarrow> Inr dflt | Some v \<Rightarrow> int_of_text v)"

section \<open>Error reports\<close>

text \<open>
  \<^verbatim>\<open>filter_sentry_events\<close>: a report whose first exception was raised below a step of a workflow
  is dropped; anything unexpected in it lets it through.
\<close>

definition first_of :: "json \<Rightarrow> exc + json" where
  "first_of v =
     (case v of
        JList (x # _) \<Rightarrow> Inr x
      | JList [] \<Rightarrow> Inl IndexError
      | JStr (c # _) \<Rightarrow> Inr (JStr [c])
      | JStr [] \<Rightarrow> Inl IndexError
      | JObj _ \<Rightarrow> Inl (KeyError ''0'')
      | _ \<Rightarrow> Inl TypeError)"

fun drop_event :: "json list \<Rightarrow> exc + bool" where
  "drop_event [] = Inr False"
| "drop_event (fr # rest) =
     rbind (subscript fr ''function'') (\<lambda>fn. if fn = JStr ''execute_workflow_step'' \<and> rest \<noteq> [] then Inr True else drop_event rest)"

definition event_frames :: "json \<Rightarrow> exc + json list" where
  "event_frames event =
     rbind (path event [''exception'', ''values'']) (\<lambda>vs.
     rbind (first_of vs) (\<lambda>x.
     rbind (path x [''stacktrace'', ''frames'']) as_list))"

definition filter_sentry_events :: "json \<Rightarrow> json option" where
  "filter_sentry_events event =
     (case rbind (event_frames event) drop_event of Inr True \<Rightarrow> None | _ \<Rightarrow> Some event)"

section \<open>The error middleware\<close>

text \<open>
  \<^verbatim>\<open>ExceptionMiddleware.process_exception\<close>: the last six lines of the traceback with the
  directories taken out (\<open>hide\<close>), a record and a response with the status 500.
\<close>

record failed_request =
  fr_url :: string
  fr_username :: string
  fr_traceback :: "string list"
  fr_repr :: string
  fr_now :: string

definition last_lines :: "nat \<Rightarrow> 'a list \<Rightarrow> 'a list" where
  "last_lines n xs = drop (length xs - n) xs"

definition failure_details :: "(string \<Rightarrow> string) \<Rightarrow> failed_request \<Rightarrow> json" where
  "failure_details hide r =
     JObj [(''traceback'', JStr (join [CHR 0x0A] (map hide (last_lines 6 (fr_traceback r))))), (''error_message'', JStr (fr_repr r))]"

definition process_exception :: "(string \<Rightarrow> string) \<Rightarrow> failed_request \<Rightarrow> (error_record list, nat \<times> json) comp" where
  "process_exception hide r =
     bind (lift (or_raise (map_of http_code_to_message 500) (KeyError ''500''))) (\<lambda>message.
     seq (modify (\<lambda>rs. rs @ [set_details (failure_details hide r)
            \<lparr>rec_url = fr_url r, rec_username = fr_username r, rec_status_code = 500, rec_message = message, rec_details_data = None\<rparr>]))
       (ret (500, JObj [(''error'', JObj [(''url'', JStr (fr_url r)), (''username'', JStr (fr_username r)),
          (''details'', failure_details hide r), (''message'', JStr message), (''status_code'', JInt 500),
          (''datetime'', JStr (fr_now r))])])))"

section \<open>What they promise\<close>

text \<open>A field of a log line: the debug fields win over the extra ones, those over the basic ones.\<close>

lemma map_of_dict_update:
  "map_of (dict_update d new) k = (case map_of (rev new) k of None \<Rightarrow> map_of d k | Some v \<Rightarrow> Some v)"
  by (simp add: dict_update_def map_of_foldl_update)

lemma extra_fields_are_shown:
  assumes "dict_ok (log_attrs r)" and "map_of (log_attrs r) k = Some v" and "k \<notin> set skip_list" and "log_exception r = None"
  shows "map_of (format_fields f r) k = Some (plain_value v)"
proof -
  let ?xs = "get_extra_fields r"
  have "distinct (map fst ?xs)"
    using assms(1) by (simp add: get_extra_fields_def dict_ok_def comp_def case_prod_beta distinct_map_filter)
  moreover have "(k, plain_value v) \<in> set ?xs"
    using map_of_SomeD [OF assms(2)] assms(3) by (auto simp: get_extra_fields_def)
  ultimately have "map_of (rev ?xs) k = Some (plain_value v)" by (intro map_of_is_SomeI) (simp_all add: rev_map [symmetric])
  then show ?thesis using assms(4) by (simp add: format_fields_def map_of_dict_update)
qed

text \<open>
  The time of a log line is no time stamp of ISO 8601: the milliseconds are printed as a
  float, so that two points follow the seconds.
\<close>

lemma drop_zeros_subset: "set (drop_zeros cs) \<subseteq> set cs"
  by (induction cs) auto

lemma thousandths_digits: "c \<in> set (thousandths m) \<Longrightarrow> is_digit c"
proof -
  assume c: "c \<in> set (thousandths m)"
  let ?ds = "[digit_char (m div 100 mod 10), digit_char (m div 10 mod 10), digit_char (m mod 10)]"
  have digit: "is_digit (digit_char n)" if "n < 10" for n using show_nat_digits [of "digit_char n" n] that by (simp add: show_nat.simps [of n])
  have "is_digit (CHR ''0'')" by code_simp
  moreover have "c = CHR ''0'' \<or> c \<in> set ?ds"
    using c drop_zeros_subset [of "rev ?ds"] by (auto simp: thousandths_def Let_def split: if_splits)
  ultimately show ?thesis using digit by auto
qed

lemma timestamp_has_two_points:
  assumes "CHR ''.'' \<notin> set seconds"
  shows "length (filter (\<lambda>c. c = CHR ''.'') (format_timestamp (seconds, m))) = 2"
proof -
  have "\<not> is_digit (CHR ''.'')" by code_simp
  then have "CHR ''.'' \<notin> set (show_nat n)" "CHR ''.'' \<notin> set (thousandths n)" for n
    using show_nat_digits thousandths_digits by blast+
  then have "filter (\<lambda>c. c = CHR ''.'') (show_nat n) = []" "filter (\<lambda>c. c = CHR ''.'') (thousandths n) = []" for n
    by (auto simp: filter_empty_conv)
  moreover have "filter (\<lambda>c. c = CHR ''.'') seconds = []" using assms by (auto simp: filter_empty_conv)
  ultimately show ?thesis by (simp add: format_timestamp_def float_of_micros_def)
qed

text \<open>A number that is written out is read back.\<close>

lemma grouped_digits_plain: "xs \<noteq> [] \<Longrightarrow> \<forall>c \<in> set xs. is_digit c \<Longrightarrow> grouped_digits xs"
proof (induction xs rule: grouped_digits.induct)
  case (3 c d cs)
  have "\<not> is_digit (CHR ''_'')" by code_simp
  then show ?case using 3 by auto
qed simp_all

section \<open>Tags of error reports\<close>

text \<open>
  \<^verbatim>\<open>workflow/middleware.py:SentryContextMiddleware\<close>: the codes of the request and the domain become
  tags and contexts of the scope; whatever fails there is only logged.
\<close>

record sentry_scope =
  scope_tags :: "(string, string) dict"
  scope_contexts :: "(string, (string, string) dict) dict"

definition tag_scope :: "string \<Rightarrow> string \<Rightarrow> string \<Rightarrow> string option \<Rightarrow> sentry_scope \<Rightarrow> sentry_scope" where
  "tag_scope tag ctx key v sc =
     (case v of
        None \<Rightarrow> sc
      | Some x \<Rightarrow>
          if x = [] then sc
          else sc\<lparr>scope_tags := AList.update tag x (scope_tags sc), scope_contexts := AList.update ctx [(key, x)] (scope_contexts sc)\<rparr>)"

definition set_sentry_context :: "string option \<Rightarrow> string option \<Rightarrow> string \<Rightarrow> sentry_scope \<Rightarrow> sentry_scope" where
  "set_sentry_context realm space domain sc =
     tag_scope ''domain'' ''domain'' ''name'' (Some domain)
       (tag_scope ''space_code'' ''space'' ''code'' space
         (tag_scope ''realm_code'' ''realm'' ''code'' realm sc))"

definition sentry_context_middleware ::
  "exc option \<Rightarrow> string option \<Rightarrow> string option \<Rightarrow> string \<Rightarrow> (sentry_scope, 'a) comp \<Rightarrow> (sentry_scope, 'a) comp" where
  "sentry_context_middleware broken realm space domain get_response =
     seq (catch (case broken of Some e \<Rightarrow> throw e | None \<Rightarrow> modify (set_sentry_context realm space domain)) (\<lambda>_. ret ()))
       get_response"

text \<open>A report of a view names the tenant, and a failure of the reporting never keeps the view from running.\<close>

lemma reports_name_the_tenant:
  assumes "realm \<noteq> []" and "space \<noteq> []"
  shows "sentry_context_middleware None (Some realm) (Some space) domain (query scope_tags) sc = (Inr tags, sc') \<Longrightarrow>
    map_of tags ''realm_code'' = Some realm \<and> map_of tags ''space_code'' = Some space"
  using assms
  by (auto simp: sentry_context_middleware_def seq_def bind_def catch_def set_sentry_context_def tag_scope_def update_conv')

lemma broken_reports_do_not_matter:
  "sentry_context_middleware (Some e) realm space domain get_response sc = get_response sc"
  by (simp add: sentry_context_middleware_def seq_def bind_def catch_def)

end
