(* ===== verification/Authentication.thy ===== *)
theory Authentication
  imports Platform Sample "HOL-Library.Countable"
begin

text \<open>
  Who a request comes from: \<^verbatim>\<open>workflow/authentication.py\<close>, which reads a token from the request
  and asks for its user, with the signed tokens of the platform or with Keycloak, and
  \<^verbatim>\<open>workflow/keycloak.py\<close>, the client of that service.  The libraries that sign and check
  tokens, hash passwords and send requests are parameters.  A token is kept as its bytes,
  which are what \<^verbatim>\<open>decode\<close> is injective on.
\<close>

section \<open>Bytes\<close>

text \<open>\<^verbatim>\<open>bytes.split()\<close>: the words between runs of ASCII white space.\<close>

definition is_space :: "char \<Rightarrow> bool" where
  "is_space c \<longleftrightarrow> c \<in> {CHR '' '', CHR 0x09, CHR 0x0A, CHR 0x0B, CHR 0x0C, CHR 0x0D}"

fun split_words :: "string \<Rightarrow> string \<Rightarrow> string list" where
  "split_words w [] = (if w = [] then [] else [w])"
| "split_words w (c # cs) =
     (if is_space c then (if w = [] then split_words [] cs else w # split_words [] cs)
      else split_words (w @ [c]) cs)"

definition words :: "string \<Rightarrow> string list" where
  "words s = split_words [] s"

text \<open>\<^verbatim>\<open>bytes.decode()\<close> fails unless the bytes are well-formed UTF-8.\<close>

definition continues :: "char \<Rightarrow> bool" where
  "continues c \<longleftrightarrow> (let n = (of_char c :: nat) in 128 \<le> n \<and> n < 192)"

fun utf8_valid :: "string \<Rightarrow> bool" where
  "utf8_valid [] = True"
| "utf8_valid (c # cs) =
     (let n = (of_char c :: nat) in
      if n < 128 then utf8_valid cs
      else if 194 \<le> n \<and> n < 224 then
        (case cs of d # ds \<Rightarrow> continues d \<and> utf8_valid ds | _ \<Rightarrow> False)
      else if 224 \<le> n \<and> n < 240 then
        (case cs of d # e # ds \<Rightarrow>
             continues d \<and> continues e \<and> (n = 224 \<longrightarrow> 160 \<le> (of_char d :: nat)) \<and> (n = 237 \<longrightarrow> (of_char d :: nat) < 160) \<and>
             utf8_valid ds
         | _ \<Rightarrow> False)
      else if 240 \<le> n \<and> n < 245 then
        (case cs of d # e # f # ds \<Rightarrow>
             continues d \<and> continues e \<and> continues f \<and> (n = 240 \<longrightarrow> 144 \<le> (of_char d :: nat)) \<and>
             (n = 244 \<longrightarrow> (of_char d :: nat) < 144) \<and> utf8_valid ds
         | _ \<Rightarrow> False)
      else False)"

section \<open>Tokens of a request\<close>

record auth_request =
  auth_method :: string
  auth_header :: string
  auth_cookies :: "(string, string) dict"

definition auth_failed :: "string \<Rightarrow> exc" where
  "auth_failed msg = Raised ''AuthenticationFailed'' msg"

definition invalid_characters :: string where
  "invalid_characters = ''Invalid token header. Token string should not contain invalid characters.''"

definition decode_token :: "string \<Rightarrow> exc + string" where
  "decode_token b = (if utf8_valid b then Inr b else Inl (auth_failed invalid_characters))"

definition get_access_token_of :: "auth_request \<Rightarrow> exc + string" where
  "get_access_token_of req =
     (case words (auth_header req) of _ # b # _ \<Rightarrow> decode_token b | _ \<Rightarrow> Inl IndexError)"

text \<open>What the two authentication classes do with the words of the header.\<close>

definition token_of_words :: "string \<Rightarrow> string list \<Rightarrow> exc + string option" where
  "token_of_words keyword auth =
     (case auth of
        [] \<Rightarrow> Inr None
      | kind # rest \<Rightarrow>
          if ascii_lower kind \<noteq> ascii_lower keyword then Inr None
          else
            (case rest of
               [] \<Rightarrow> Inl (auth_failed ''Invalid token header. No credentials provided.'')
             | [b] \<Rightarrow> rbind (decode_token b) (\<lambda>t. Inr (Some t))
             | _ \<Rightarrow> Inl (auth_failed ''Invalid token header. Token string should not contain spaces.'')))"

text \<open>\<^verbatim>\<open>KeycloakAuthentication.get_auth_token_from_request\<close> also takes the cookie \<^verbatim>\<open>access_token\<close>.\<close>

definition keycloak_words :: "auth_request \<Rightarrow> string list" where
  "keycloak_words req =
     (let auth = words (auth_header req) in
      if auth = [] then
        (case map_of (auth_cookies req) ''access_token'' of None \<Rightarrow> [] | Some v \<Rightarrow> [''Token'', v])
      else auth)"

definition keycloak_token :: "auth_request \<Rightarrow> exc + string option" where
  "keycloak_token req = token_of_words ''Token'' (keycloak_words req)"

definition jwt_token :: "auth_request \<Rightarrow> exc + string option" where
  "jwt_token req = token_of_words ''Bearer'' (words (auth_header req))"

section \<open>Keycloak\<close>

record keycloak =
  server_url :: string
  realm_name :: string
  client_id :: string
  client_secret_key :: "string option"

record http_call =
  call_method :: string
  call_url :: string
  call_data :: "(string \<times> string option) list"
  call_headers :: "(string \<times> string) list"

text \<open>The service: an answer or an exception for every request.\<close>

type_synonym service = "http_call \<Rightarrow> exc + response"

definition realm_url :: "keycloak \<Rightarrow> string \<Rightarrow> string" where
  "realm_url k p = server_url k @ ''/realms/'' @ realm_name k @ p"

definition well_known_endpoint :: "keycloak \<Rightarrow> string" where
  "well_known_endpoint k = realm_url k ''/.well-known/openid-configuration''"

definition token_introspection_endpoint :: "keycloak \<Rightarrow> string" where
  "token_introspection_endpoint k = realm_url k ''/protocol/openid-connect/token/introspect''"

definition userinfo_endpoint :: "keycloak \<Rightarrow> string" where
  "userinfo_endpoint k = realm_url k ''/protocol/openid-connect/userinfo''"

text \<open>
  \<^verbatim>\<open>raise_for_status\<close> raises for the statuses 400 to 599 and returns nothing otherwise, so
  that the branch on its value is never taken; then the body is parsed.
\<close>

definition checked_json :: "exc + response \<Rightarrow> exc + json" where
  "checked_json r =
     rbind r (\<lambda>x. if 400 \<le> status_code x \<and> status_code x < 600 then Inl (Raised ''HTTPError'' (show_int (status_code x)))
                  else json_loads (response_text x))"

definition well_known :: "service \<Rightarrow> keycloak \<Rightarrow> exc + json" where
  "well_known send k =
     checked_json (send \<lparr>call_method = ''GET'', call_url = well_known_endpoint k, call_data = [], call_headers = []\<rparr>)"

definition introspect :: "service \<Rightarrow> keycloak \<Rightarrow> string \<Rightarrow> exc + json" where
  "introspect send k tok =
     checked_json (send \<lparr>call_method = ''POST'', call_url = token_introspection_endpoint k,
       call_data = [(''token'', Some tok), (''client_id'', Some (client_id k)), (''client_secret'', client_secret_key k)],
       call_headers = [(''content-type'', ''application/x-www-form-urlencoded''), (''authorization'', ''Bearer '' @ tok)]\<rparr>)"

definition is_token_active :: "service \<Rightarrow> keycloak \<Rightarrow> string \<Rightarrow> exc + bool" where
  "is_token_active send k tok =
     rbind (introspect send k tok) (\<lambda>v. rbind (get_or_none v ''active'') (\<lambda>a. Inr (truthy a)))"

text \<open>\<^verbatim>\<open>a + b\<close> of two parsed values.\<close>

fun json_add :: "json \<Rightarrow> json \<Rightarrow> exc + json" where
  "json_add (JList xs) (JList ys) = Inr (JList (xs @ ys))"
| "json_add (JStr x) (JStr y) = Inr (JStr (x @ y))"
| "json_add (JInt x) (JInt y) = Inr (JInt (x + y))"
| "json_add (JInt x) (JBool y) = Inr (JInt (x + of_bool y))"
| "json_add (JBool x) (JInt y) = Inr (JInt (of_bool x + y))"
| "json_add (JBool x) (JBool y) = Inr (JInt (of_bool x + of_bool y))"
| "json_add _ _ = Inl TypeError"

definition get_unless_none :: "json \<Rightarrow> string \<Rightarrow> exc + json" where
  "get_unless_none v key = (if v = JNull then Inr JNull else get_or_none v key)"

definition roles_from_token :: "service \<Rightarrow> keycloak \<Rightarrow> string \<Rightarrow> exc + json" where
  "roles_from_token send k tok =
     rbind (introspect send k tok) (\<lambda>v.
     rbind (get_or_none v ''realm_access'') (\<lambda>realm_access.
     rbind (get_or_none v ''resource_access'') (\<lambda>resource_access.
     rbind (get_unless_none resource_access (client_id k)) (\<lambda>client_access.
     rbind (get_unless_none client_access ''roles'') (\<lambda>client_roles.
     rbind (get_unless_none realm_access ''roles'') (\<lambda>realm_roles.
       if client_roles = JNull then Inr realm_roles
       else if realm_roles = JNull then Inr client_roles
       else json_add client_roles realm_roles))))))"

definition userinfo :: "service \<Rightarrow> keycloak \<Rightarrow> string \<Rightarrow> exc + json" where
  "userinfo send k tok =
     checked_json (send \<lparr>call_method = ''GET'', call_url = userinfo_endpoint k, call_data = [],
       call_headers = [(''authorization'', ''Bearer '' @ tok)]\<rparr>)"

section \<open>Users\<close>

text \<open>
  The settings of the administrator, and what is taken from Django and Python: the
  normalisation of a user name, the hash of a password, the text of a value that is no
  string.
\<close>

record accounts =
  admin_username :: string
  admin_password :: string
  normalize_username :: "string \<Rightarrow> string"
  make_password :: "string \<Rightarrow> string"
  py_str :: "json \<Rightarrow> string"

text \<open>\<^verbatim>\<open>User.objects.get(username=v)\<close>: no row has the name \<^verbatim>\<open>None\<close>.\<close>

definition user_named :: "accounts \<Rightarrow> json \<Rightarrow> user_row io" where
  "user_named acc v =
     (case v of
        JNull \<Rightarrow> db_query (\<lambda>_. Inl DoesNotExist)
      | JStr n \<Rightarrow> get_user n
      | _ \<Rightarrow> get_user (py_str acc v))"

definition alphabet :: string where
  "alphabet = ''abcdefghijklmnopqrstuvwxyz0123456789''"

text \<open>\<open>pick i\<close> is the \<open>i\<close>-th outcome of \<^verbatim>\<open>random.choice\<close>.\<close>

definition generate_random_string :: "(nat \<Rightarrow> nat) \<Rightarrow> nat \<Rightarrow> string" where
  "generate_random_string pick n = map (\<lambda>i. alphabet ! (pick i mod length alphabet)) [0..<n]"

text \<open>
  \<^verbatim>\<open>User.objects.create_user\<close> of Django: an empty name is refused, the name is normalised, the
  password hashed, and the column of names is unique.
\<close>

definition create_user :: "accounts \<Rightarrow> json \<Rightarrow> string \<Rightarrow> bool \<Rightarrow> user_row io" where
  "create_user acc v pw admin =
     (if \<not> truthy v then throw ValueError
      else
        (let n = (case v of JStr x \<Rightarrow> normalize_username acc x | _ \<Rightarrow> py_str acc v) in
         bind (db_query (\<lambda>d. if n \<in> username ` set (users d) then Inl (Raised ''IntegrityError'' n) else Inr (Suc (row_seq d)))) (\<lambda>i.
           let u = \<lparr>user_id = i, username = n, password = make_password acc pw, language = ''en'', timezone = ''UTC'',
                    two_factor_verification = False, json_data = None, is_verified = False, is_bot = False,
                    is_staff = admin, is_superuser = admin\<rparr>
           in seq (db_update (\<lambda>d. d\<lparr>users := users d @ [u], row_seq := i\<rparr>)) (ret u))))"

section \<open>The authentication classes\<close>

text \<open>The two classes let a request with the method \<^verbatim>\<open>OPTIONS\<close> pass as the bot.\<close>

type_synonym authenticated = "(user_row \<times> string option) option"

definition with_token :: "auth_request \<Rightarrow> (auth_request \<Rightarrow> exc + string option) \<Rightarrow> (string \<Rightarrow> user_row io) \<Rightarrow> authenticated io" where
  "with_token req token credentials =
     (if auth_method req = ''OPTIONS'' then bind (get_user ''finmars_bot'') (\<lambda>u. ret (Some (u, None)))
      else bind (lift (token req)) (\<lambda>t.
        case t of
          None \<Rightarrow> ret None
        | Some key \<Rightarrow> bind (credentials key) (\<lambda>u. ret (Some (u, Some key)))))"

definition keycloak_credentials ::
  "env \<Rightarrow> accounts \<Rightarrow> service \<Rightarrow> keycloak \<Rightarrow> (nat \<Rightarrow> nat) \<Rightarrow> string \<Rightarrow> user_row io" where
  "keycloak_credentials env acc send k pick key =
     bind (catch (lift (userinfo send k key)) (\<lambda>_. throw (auth_failed ''Invalid or expired token.''))) (\<lambda>info.
       let name = subscript info ''preferred_username'' in
       catch (bind (lift name) (user_named acc))
         (\<lambda>_. catch
           (bind (lift name) (\<lambda>v.
             let is_admin = (v = JStr (admin_username acc));
                 pw = (if is_admin then admin_password acc else generate_random_string pick 12)
             in create_user acc v pw is_admin))
           (\<lambda>_. catch (bind (lift name) (user_named acc)) (\<lambda>e. throw (auth_failed (str_exc env e))))))"

definition keycloak_authenticate ::
  "env \<Rightarrow> accounts \<Rightarrow> service \<Rightarrow> keycloak \<Rightarrow> (nat \<Rightarrow> nat) \<Rightarrow> auth_request \<Rightarrow> authenticated io" where
  "keycloak_authenticate env acc send k pick req = with_token req keycloak_token (keycloak_credentials env acc send k pick)"

text \<open>The library of signed tokens: signing a payload, and checking a token at a time in milliseconds.\<close>

datatype jwt_failure = ExpiredSignatureError | InvalidTokenError | OtherFailure exc

record jwt_lib =
  jwt_encode :: "json \<Rightarrow> string \<Rightarrow> string"
  jwt_decode :: "string \<Rightarrow> string \<Rightarrow> nat \<Rightarrow> jwt_failure + json"

definition jwt_credentials :: "env \<Rightarrow> accounts \<Rightarrow> jwt_lib \<Rightarrow> string \<Rightarrow> string \<Rightarrow> user_row io" where
  "jwt_credentials env acc jwt secret key =
     bind now (\<lambda>time.
       case jwt_decode jwt key secret time of
         Inl ExpiredSignatureError \<Rightarrow> throw (auth_failed ''Token has expired'')
       | Inl InvalidTokenError \<Rightarrow> throw (auth_failed ''Invalid token'')
       | Inl (OtherFailure e) \<Rightarrow> throw (auth_failed (str_exc env e))
       | Inr claims \<Rightarrow>
           catch (bind (lift (subscript claims ''username'')) (user_named acc)) (\<lambda>e. throw (auth_failed (str_exc env e))))"

definition jwt_authenticate :: "env \<Rightarrow> accounts \<Rightarrow> jwt_lib \<Rightarrow> string \<Rightarrow> auth_request \<Rightarrow> authenticated io" where
  "jwt_authenticate env acc jwt secret req = with_token req jwt_token (jwt_credentials env acc jwt secret)"

text \<open>\<^verbatim>\<open>DEFAULT_AUTHENTICATION_CLASSES\<close>: signed tokens first; the first class that knows the request decides.\<close>

definition authenticate_request ::
  "env \<Rightarrow> accounts \<Rightarrow> jwt_lib \<Rightarrow> string \<Rightarrow> service \<Rightarrow> keycloak \<Rightarrow> (nat \<Rightarrow> nat) \<Rightarrow> auth_request \<Rightarrow> authenticated io" where
  "authenticate_request env acc jwt secret send k pick req =
     bind (jwt_authenticate env acc jwt secret req) (\<lambda>r.
       case r of None \<Rightarrow> keycloak_authenticate env acc send k pick req | Some _ \<Rightarrow> ret r)"

section \<open>What authentication promises\<close>

definition is_auth_failure :: "exc \<Rightarrow> bool" where
  "is_auth_failure e \<longleftrightarrow> (\<exists>msg. e = auth_failed msg)"

lemma token_of_words_Some:
  "token_of_words keyword auth = Inr (Some key) \<longleftrightarrow>
    (\<exists>kind. auth = [kind, key] \<and> ascii_lower kind = ascii_lower keyword \<and> utf8_valid key)"
  by (auto simp: token_of_words_def decode_token_def split: list.splits)

lemma token_of_words_None:
  "token_of_words keyword auth = Inr None \<longleftrightarrow>
    (case auth of [] \<Rightarrow> True | kind # _ \<Rightarrow> ascii_lower kind \<noteq> ascii_lower keyword)"
  by (auto simp: token_of_words_def decode_token_def split: list.splits)

lemma token_of_words_Inl: "token_of_words keyword auth = Inl e \<Longrightarrow> is_auth_failure e"
  by (auto simp: token_of_words_def decode_token_def is_auth_failure_def split: list.splits if_splits)

lemma user_named_state: "user_named acc v s = (r, t) \<Longrightarrow> t = s"
  by (auto simp: user_named_def get_user_def db_query_def split: json.splits option.splits)

lemma jwt_credentials_run:
  assumes "jwt_credentials env acc jwt secret key s = (r, t)"
  shows "t = s" and "r = Inl e \<Longrightarrow> is_auth_failure e"
    and "r = Inr u \<longleftrightarrow> (\<exists>claims v. jwt_decode jwt key secret (clock s) = Inr claims \<and>
      subscript claims ''username'' = Inr v \<and> user_named acc v s = (Inr u, s))"
  using assms
  by (auto simp: jwt_credentials_def now_def bind_def catch_def is_auth_failure_def throw_def lift_def
      dest: user_named_state split: sum.splits jwt_failure.splits prod.splits)


text \<open>What the sources rely on of the library of tokens: a token it signed is accepted from the second it
  was issued in until the second it expires in, and is a word of ASCII characters.\<close>

definition jwt_ok :: "jwt_lib \<Rightarrow> bool" where
  "jwt_ok jwt \<longleftrightarrow>
     (\<forall>ps secret time issued expires. map_of ps ''iat'' = Some (JInt issued) \<and> map_of ps ''exp'' = Some (JInt expires) \<and>
        1000 * issued \<le> int time \<and> int time < 1000 * expires \<longrightarrow>
        jwt_decode jwt (jwt_encode jwt (JObj ps) secret) secret time = Inr (JObj ps)) \<and>
     (\<forall>v secret. jwt_encode jwt v secret \<noteq> [] \<and> list_all (\<lambda>c. (of_char c :: nat) < 128 \<and> \<not> is_space c) (jwt_encode jwt v secret))"

text \<open>The payload \<^verbatim>\<open>get_refresh_token\<close> signs; dates are signed as seconds.\<close>

definition token_claims :: "token \<Rightarrow> json" where
  "token_claims tok =
     JObj [(''username'', JStr (tok_username tok)), (''realm_code'', opt_str (tok_realm_code tok)),
           (''space_code'', opt_str (tok_space_code tok)), (''exp'', JInt (int (tok_exp tok div 1000))),
           (''iat'', JInt (int (tok_iat tok div 1000)))]"

lemma split_words_word: "list_all (\<lambda>c. \<not> is_space c) xs \<Longrightarrow> split_words w xs = (if w @ xs = [] then [] else [w @ xs])"
  by (induction xs arbitrary: w) auto

lemma utf8_valid_ascii: "list_all (\<lambda>c. (of_char c :: nat) < 128) xs \<Longrightarrow> utf8_valid xs"
  by (induction xs) auto

lemma words_bearer:
  assumes "key \<noteq> []" and "list_all (\<lambda>c. \<not> is_space c) key"
  shows "words (''Bearer '' @ key) = [''Bearer'', key]"
  using split_words_word [OF assms(2), of "[]"] assms(1) by (simp add: words_def is_space_def)


text \<open>A library of tokens for concrete runs: a payload is written as so many letters.\<close>

instance json :: countable
  by countable_datatype

definition sample_decode :: "string \<Rightarrow> nat \<Rightarrow> jwt_failure + json" where
  "sample_decode key time =
     (case from_nat (length key - 1) of
        JObj ps \<Rightarrow>
          (case (map_of ps ''iat'', map_of ps ''exp'') of
             (Some (JInt issued), Some (JInt expires)) \<Rightarrow>
               if int time < 1000 * issued then Inl InvalidTokenError
               else if int time < 1000 * expires then Inr (JObj ps) else Inl ExpiredSignatureError
           | _ \<Rightarrow> Inr (JObj ps))
      | _ \<Rightarrow> Inl InvalidTokenError)"

definition sample_jwt :: jwt_lib where
  "sample_jwt = \<lparr>jwt_encode = (\<lambda>v _. replicate (Suc (to_nat v)) (CHR ''a'')), jwt_decode = (\<lambda>key _. sample_decode key)\<rparr>"

lemma sample_jwt_ok: "jwt_ok sample_jwt"
proof -
  have "(of_char (CHR ''a'') :: nat) < 128" by code_simp
  then show ?thesis by (auto simp: jwt_ok_def sample_jwt_def sample_decode_def is_space_def list_all_iff)
qed

definition sample_accounts :: accounts where
  "sample_accounts = \<lparr>admin_username = ''admin'', admin_password = ''secret'', normalize_username = id, make_password = rev,
     py_str = (\<lambda>_. ''value'')\<rparr>"

definition sample_token :: token where
  "sample_token = \<lparr>tok_username = ''finmars_bot'', tok_realm_code = Some ''realm0'', tok_space_code = Some ''realm0'',
     tok_exp = 28801000, tok_iat = 1000\<rparr>"

lemma sample_token_issued: "get_refresh_token default_ttl sample_world = (Inr sample_token, sample_world)"
  by (simp add: get_refresh_token_def default_ttl_def sample_token_def bind_def get_user_def first_space_def now_def db_query_def cur_db_def
      objects_get_def sample_world_def sample_db_def sample_user_def sample_space_def)



text \<open>
  A token that Keycloak accepts for a name authenticates the user of that name: the first
  such request creates the one row, with the rights of an administrator exactly for the
  configured name, and every later one finds it and changes nothing.
\<close>

lemma keycloak_user_created_once:
  assumes "userinfo send k key = Inr info" and "subscript info ''preferred_username'' = Inr (JStr name)"
    and "name \<noteq> []" and "normalize_username acc name = name" and "cur_db s = Some d"
    and "distinct (map username (users d))"
  shows "\<exists>u t. keycloak_credentials env acc send k pick key s = (Inr u, t) \<and> username u = name \<and>
    keycloak_credentials env acc send k pick' key t = (Inr u, t) \<and>
    (if name \<in> username ` set (users d) then t = s \<and> u \<in> set (users d)
     else t = s\<lparr>schemas := (schemas s)(search_path s \<mapsto> d\<lparr>users := users d @ [u], row_seq := Suc (row_seq d)\<rparr>)\<rparr> \<and>
       is_staff u = (name = admin_username acc) \<and> is_superuser u = (name = admin_username acc))"
proof -
  have known: "keycloak_credentials env acc send k p key x = (Inr u, x)"
    if "cur_db x = Some dx" "filter (\<lambda>u. username u = name) (users dx) = [u]" for p x dx u
    using that assms(1,2) by (simp add: keycloak_credentials_def bind_def catch_def user_named_def get_user_def db_query_def objects_get_def Let_def)
  show ?thesis
  proof (cases "name \<in> username ` set (users d)")
    case True
    then obtain u where u: "u \<in> set (users d)" "username u = name" by auto
    then obtain xs ys where split: "users d = xs @ u # ys" by (auto dest: split_list)
    have "filter (\<lambda>v. username v = name) xs = []" "filter (\<lambda>v. username v = name) ys = []"
      using assms(6) u(2) split by (auto simp: filter_empty_conv image_iff)
    then have "filter (\<lambda>u. username u = name) (users d) = [u]" using split u(2) by simp
    from known [OF assms(5) this] True u show ?thesis by auto
  next
    case False
    then have none: "filter (\<lambda>u. username u = name) (users d) = []" by (auto simp: filter_empty_conv)
    let ?adm = "name = admin_username acc"
    let ?pw = "if ?adm then admin_password acc else generate_random_string pick 12"
    let ?u = "\<lparr>user_id = Suc (row_seq d), username = name, password = make_password acc ?pw, language = ''en'', timezone = ''UTC'',
        two_factor_verification = False, json_data = None, is_verified = False, is_bot = False, is_staff = ?adm, is_superuser = ?adm\<rparr>"
    let ?d = "d\<lparr>users := users d @ [?u], row_seq := Suc (row_seq d)\<rparr>"
    let ?t = "s\<lparr>schemas := (schemas s)(search_path s \<mapsto> ?d)\<rparr>"
    have "create_user acc (JStr name) ?pw ?adm s = (Inr ?u, ?t)"
      using assms(3,4,5) False by (simp add: create_user_def bind_def seq_def db_query_def db_update_def Let_def)
    then have run: "keycloak_credentials env acc send k pick key s = (Inr ?u, ?t)"
      using assms(1,2,5) none
      by (simp add: keycloak_credentials_def bind_def catch_def user_named_def get_user_def db_query_def objects_get_def Let_def)
    have "cur_db ?t = Some ?d" "filter (\<lambda>u. username u = name) (users ?d) = [?u]" using none by (simp_all add: cur_db_def)
    from known [OF this] run False show ?thesis by (intro exI [of _ ?u] exI [of _ ?t]) simp
  qed
qed

definition sample_keycloak :: keycloak where
  "sample_keycloak = \<lparr>server_url = ''https://id.test'', realm_name = ''r'', client_id = ''c'', client_secret_key = None\<rparr>"

definition sample_send :: service where
  "sample_send call = Inr \<lparr>status_code = 200,
     response_text = dumps_plain (JObj [(''preferred_username'', JStr ''admin'')])\<rparr>"

lemma keycloak_user_sample:
  "\<exists>u t. keycloak_credentials sample_env sample_accounts sample_send sample_keycloak id ''key'' sample_world = (Inr u, t) \<and>
    username u = ''admin'' \<and> is_superuser u \<and> map_option (\<lambda>d. length (users d)) (cur_db t) = Some 2"
proof -
  let ?info = "JObj [(''preferred_username'', JStr ''admin'')]"
  have "userinfo sample_send sample_keycloak ''key'' = Inr ?info" "subscript ?info ''preferred_username'' = Inr (JStr ''admin'')"
    by code_simp+
  moreover have "normalize_username sample_accounts ''admin'' = ''admin''" by (simp add: sample_accounts_def)
  moreover have "cur_db sample_world = Some sample_db" "distinct (map username (users sample_db))" "''admin'' \<notin> username ` set (users sample_db)"
    by (simp_all add: cur_db_def sample_world_def sample_db_def sample_user_def)
  ultimately show ?thesis
    using keycloak_user_created_once [of sample_send sample_keycloak "''key''" ?info "''admin''" sample_accounts sample_world sample_db
        sample_env id id]
    by (auto simp: sample_accounts_def cur_db_def sample_db_def)
qed

end
