(* ===== verification/Endpoints.thy ===== *)
theory Endpoints
  imports Downloads Filters Monitoring Support Authentication
begin

text \<open>
  The remaining operations of \<^verbatim>\<open>workflow/views.py\<close>, \<^verbatim>\<open>workflow/serializers.py\<close>, \<^verbatim>\<open>workflow/fields.py\<close> and
  \<^verbatim>\<open>finmars_standardized_errors/views.py\<close>: how rows are shown, templates written to the
  storage, and the views that ask Celery, RabbitMQ or Django.
\<close>

section \<open>Templates\<close>

text \<open>\<^verbatim>\<open>WorkflowTemplateSerializer.save_to_storage\<close>; \<open>base\<close> is the space the storage puts names under.\<close>

definition save_to_storage :: "cipher \<Rightarrow> string \<Rightarrow> template_row \<Rightarrow> unit fs" where
  "save_to_storage c base tp = bind (lift (template_file tp)) (\<lambda>(name, content). save_text c base name content)"

text \<open>
  \<^verbatim>\<open>create\<close> and \<^verbatim>\<open>update\<close>: the row is stored first, and stays when the storage fails.
\<close>

record site =
  site_world :: world
  site_store :: store

type_synonym 'a site_op = "(site, 'a) comp"

definition in_world :: "'a io \<Rightarrow> 'a site_op" where
  "in_world m s = (case m (site_world s) of (r, t) \<Rightarrow> (r, s\<lparr>site_world := t\<rparr>))"

definition in_store :: "'a fs \<Rightarrow> 'a site_op" where
  "in_store m s = (case m (site_store s) of (r, t) \<Rightarrow> (r, s\<lparr>site_store := t\<rparr>))"

definition insert_template :: "template_row \<Rightarrow> template_row io" where
  "insert_template tp =
     bind (db_query (\<lambda>d. Inr (Suc (row_seq d)))) (\<lambda>i.
       let tp' = tp\<lparr>tp_id := i\<rparr> in
       seq (db_update (\<lambda>d. d\<lparr>templates := templates d @ [tp'], row_seq := i\<rparr>)) (ret tp'))"

definition create_template :: "cipher \<Rightarrow> string \<Rightarrow> template_row \<Rightarrow> template_row site_op" where
  "create_template c base tp =
     bind (in_world (insert_template tp)) (\<lambda>tp'. seq (in_store (save_to_storage c base tp')) (ret tp'))"

definition update_template :: "cipher \<Rightarrow> string \<Rightarrow> template_row \<Rightarrow> template_row site_op" where
  "update_template c base tp =
     seq (in_world (db_update (\<lambda>d. d\<lparr>templates := save_row tp_id tp (templates d)\<rparr>)))
       (seq (in_store (save_to_storage c base tp)) (ret tp))"

text \<open>The view of templates has its own copy of \<^verbatim>\<open>run_workflow\<close>.\<close>

definition template_run_workflow :: "env \<Rightarrow> http_request \<Rightarrow> http_response io" where
  "template_run_workflow env req =
     bind (lift (rbind (subscript (req_data req) ''user_code'') as_str)) (\<lambda>uc.
     bind (lift (subscript (req_data req) ''payload'')) (\<lambda>pl.
     bind (lift (get_or_none (req_data req) ''platform_task_id'')) (\<lambda>pid.
       let code = (if \<not> contains (req_space req) uc then req_space req @ ''.'' @ uc else uc) in
       bind (get_by_user_code env True code) (\<lambda>_.
       bind (execute_workflow env (req_username req) code pl (req_realm req) (Some (req_space req)) pid None) (\<lambda>data.
         ret (ok data))))))"

section \<open>How rows are shown\<close>

text \<open>\<^verbatim>\<open>TaskSerializer.to_representation\<close>: the prefix Celery gives to the names of workers is taken out.\<close>

definition shown_worker_name :: "task_row \<Rightarrow> string option" where
  "shown_worker_name t =
     (case worker_name t of None \<Rightarrow> None | Some n \<Rightarrow> Some (if n = [] then n else replace_str ''celery@'' [] n))"

definition celery_task_representation :: "(string, json) dict \<Rightarrow> json \<Rightarrow> exc + (string, json) dict" where
  "celery_task_representation data instance_data =
     rbind (celery_task_url instance_data) (\<lambda>url. Inr (AList.update ''url'' url data))"

definition owner_username :: "schedule_row \<Rightarrow> string io" where
  "owner_username r = bind (get_user_row (sched_owner r)) (\<lambda>u. ret (username u))"

text \<open>\<^verbatim>\<open>CurrentSpaceDefault\<close> and \<^verbatim>\<open>CurrentOwnerDefault\<close>\<close>

definition current_space :: "space_row option io" where
  "current_space = db_query (\<lambda>d. Inr (case spaces d of [] \<Rightarrow> None | sp # _ \<Rightarrow> Some sp))"

section \<open>Views\<close>

text \<open>\<^verbatim>\<open>PingViewSet\<close>; a header of one word has no token to read.\<close>

definition get_bearer_token :: "auth_request \<Rightarrow> exc + string option" where
  "get_bearer_token req =
     (case words (auth_header req) of
        [] \<Rightarrow> Inr None
      | [_] \<Rightarrow> Inl IndexError
      | _ # b # _ \<Rightarrow> if utf8_valid b then Inr (Some b) else Inl (Raised ''UnicodeDecodeError'' b))"

definition ping :: "string option \<Rightarrow> string \<Rightarrow> http_response" where
  "ping version time =
     \<lparr>resp_status = 200, resp_body = JObj [(''message'', JStr ''pong''), (''version'', opt_str version), (''now'', JStr time)]\<rparr>"

text \<open>A view that answers 500 with the text of the exception.\<close>

definition or_server_error :: "(exc \<Rightarrow> string) \<Rightarrow> exc + json \<Rightarrow> http_response" where
  "or_server_error show r =
     (case r of
        Inr v \<Rightarrow> ok v
      | Inl e \<Rightarrow> \<lparr>resp_status = 500, resp_body = JObj [(''message'', JStr (show e))]\<rparr>)"

definition serialize_each :: "('v \<Rightarrow> exc + json) \<Rightarrow> (string \<times> 'v) list \<Rightarrow> exc + json" where
  "serialize_each f ps =
     foldr (\<lambda>(k, v) acc. rbind (f v) (\<lambda>j. rbind acc (\<lambda>a. case a of JObj xs \<Rightarrow> Inr (JObj ((k, j) # xs)) | _ \<Rightarrow> Inl TypeError)))
       ps (Inr (JObj []))"

text \<open>\<open>task\<close> shows one task, which the framework fills from its fields before the address is added.\<close>

definition worker_json :: "(json \<Rightarrow> exc + json) \<Rightarrow> worker_data \<Rightarrow> exc + json" where
  "worker_json task w =
     (let list = (\<lambda>xs. foldr (\<lambda>x acc. rbind (task x) (\<lambda>j. rbind acc (\<lambda>js. Inr (j # js)))) xs (Inr [])) in
      rbind (list (active_tasks w)) (\<lambda>a. rbind (list (scheduled_tasks w)) (\<lambda>s. rbind (list (pending_tasks w)) (\<lambda>p.
        Inr (JObj [(''active_tasks'', JList a), (''scheduled_tasks'', JList s), (''pending_tasks'', JList p),
          (''active_tasks_count'', JInt (int (active_tasks_count w))), (''pending_tasks_count'', JInt (int (pending_tasks_count w))),
          (''scheduled_tasks_count'', JInt (int (scheduled_tasks_count w))), (''total_tasks_count'', JInt (int (total_tasks_count w)))])))))"

definition celery_monitoring :: "(exc \<Rightarrow> string) \<Rightarrow> (json \<Rightarrow> exc + json) \<Rightarrow> workers \<Rightarrow> http_response" where
  "celery_monitoring show task data = or_server_error show (serialize_each (serialize_each (worker_json task)) data)"

text \<open>\<open>number\<close> shows the count or the share a queue has under a key.\<close>

definition queue_json :: "(json \<Rightarrow> exc + json) \<Rightarrow> json \<Rightarrow> exc + json" where
  "queue_json number q =
     foldr (\<lambda>k acc. rbind (subscript q k) (\<lambda>v. rbind (if k = ''name'' then Inr v else number v) (\<lambda>j.
         rbind acc (\<lambda>a. case a of JObj xs \<Rightarrow> Inr (JObj ((k, j) # xs)) | _ \<Rightarrow> Inl TypeError))))
       [''name'', ''messages'', ''messages_ready'', ''messages_unacknowledged'', ''consumers'', ''consumer_utilisation''] (Inr (JObj []))"

definition rabbitmq_monitoring :: "(exc \<Rightarrow> string) \<Rightarrow> (json \<Rightarrow> exc + json) \<Rightarrow> exc + queues \<Rightarrow> http_response" where
  "rabbitmq_monitoring show number r =
     or_server_error show (rbind r (\<lambda>qs. serialize_each (serialize_each (queue_json number)) qs))"

text \<open>\<^verbatim>\<open>RealmMigrateSchemeView.create\<close>: Django's command \<^verbatim>\<open>migrate\<close> is a parameter; an error is answered with 200.\<close>

definition realm_migrate :: "(exc \<Rightarrow> string) \<Rightarrow> unit io \<Rightarrow> http_response io" where
  "realm_migrate show migrate =
     catch (seq migrate (ret (ok (JObj [(''status'', JStr ''ok'')]))))
       (\<lambda>e. ret (ok (JObj [(''status'', JStr ''error''), (''message'', JStr (show e))])))"

text \<open>\<^verbatim>\<open>ErrorRecordViewSet.list\<close>: the whole query in one of the columns; \<open>created\<close> is the text of the date.\<close>

definition error_columns :: "(error_record \<Rightarrow> string) \<Rightarrow> (error_record \<Rightarrow> string option) list" where
  "error_columns created =
     [\<lambda>r. Some (rec_username r), \<lambda>r. Some (rec_message r), rec_details_data, \<lambda>r. Some (rec_url r),
      \<lambda>r. Some (show_nat (rec_status_code r)), \<lambda>r. Some (created r)]"

definition error_record_search ::
  "(string \<Rightarrow> string) \<Rightarrow> (error_record \<Rightarrow> string) \<Rightarrow> string option \<Rightarrow> error_record list \<Rightarrow> error_record list" where
  "error_record_search upper created text_given rows =
     (case given text_given of
        None \<Rightarrow> rows
      | Some w \<Rightarrow> filter (q_holds (foldl (\<lambda>q col. q_add q OR (icontains upper col w)) None (error_columns created))) rows)"

section \<open>What they promise\<close>

lemma template_run_is_run: "template_run_workflow env req = run_workflow env req"
  by (simp add: template_run_workflow_def run_workflow_def)

text \<open>The file a template is written to is read back as the data of the template.\<close>

lemma template_reads_back:
  assumes "aes_gcm_ok c" and "template_file tp = Inr (name, content)" and "under_base base name = Inr full" and "jwf (tp_data tp)"
    and "list_all (\<lambda>ch. (of_char ch :: nat) < 128) content"
  shows "\<exists>s'. save_to_storage c base tp s = (Inr (), s') \<and> content_of c s' full = Some (Inr content) \<and> json_loads content = Inr (tp_data tp)"
proof -
  have "utf8 content = content" using assms(5) by (induction content) (simp_all add: utf8_def Let_def)
  then have "save_to_storage c base tp s = storage_save c full content s"
    using assms(2,3) by (simp add: save_to_storage_def save_text_def bind_def)
  moreover obtain s' where "storage_save c full content s = (Inr (), s')" "content_of c s' full = Some (Inr content)"
    using storage_save_content [OF assms(1), of full content s full] by auto
  moreover have "content = dump (Some 4) 0 (tp_data tp)"
    using assms(2) by (auto simp: template_file_def rbind_def Let_def or_raise_def nth_or_raise_def split: option.splits sum.splits if_splits)
  then have "json_loads content = Inr (tp_data tp)" using loads_dump [OF assms(4)] by simp
  ultimately show ?thesis by auto
qed

lemma error_record_search_exact:
  assumes "w \<noteq> []"
  shows "error_record_search upper created (Some w) rows =
    filter (\<lambda>r. \<exists>col \<in> set (error_columns created). \<exists>v. col r = Some v \<and> contains (upper w) (upper v)) rows"
proof -
  have "icontains upper col w \<noteq> None" for col :: "error_record \<Rightarrow> string option" by (simp add: icontains_def)
  from q_holds_fold_or [of "error_columns created" "\<lambda>col. icontains upper col w" None, OF this]
  have "q_holds (foldl (\<lambda>q col. q_add q OR (icontains upper col w)) None (error_columns created)) r \<longleftrightarrow>
      (\<exists>col \<in> set (error_columns created). \<exists>v. col r = Some v \<and> contains (upper w) (upper v))" for r
    by (auto simp: error_columns_def q_holds_def icontains_def split: option.splits)
  then show ?thesis using assms by (simp add: error_record_search_def given_def cong: filter_cong)
qed

end
