(* ===== verification/Sessions.thy ===== *)
theory Sessions
  imports Graph
begin

text \<open>
  Code that users run by request: \<^verbatim>\<open>workflow/user_sessions.py\<close> and the views
  \<^verbatim>\<open>CodeExecutionViewSet\<close> and \<^verbatim>\<open>FileExecutionViewSet\<close>.  The state is what one process keeps: a
  session for each user with a context for each file, whether its standard output is
  redirected, and the two buffers of the thread.  A user is known by an id, which is \<^verbatim>\<open>None\<close>
  for Django's \<^verbatim>\<open>AnonymousUser\<close>.  What the interpreter does with a code is a parameter.
\<close>

section \<open>Running a code\<close>

type_synonym py_context = "(string, json) dict"

text \<open>
  How \<^verbatim>\<open>exec\<close> ends: normally, with an \<^verbatim>\<open>Exception\<close>, or with one of the exceptions that are no
  \<^verbatim>\<open>Exception\<close>, such as \<^verbatim>\<open>SystemExit\<close>.
\<close>

datatype exec_end = Done | RaisesExc exc | Exits

record exec_run =
  run_stdout :: string
  run_stderr :: string
  run_context :: py_context
  run_figure :: "string option"
  run_end :: exec_end

record interpreter =
  py_exec :: "json \<Rightarrow> py_context \<Rightarrow> exec_run"
  py_traceback :: "exc \<Rightarrow> string"
  b64encode :: "string \<Rightarrow> string"

record process =
  user_sessions :: "(nat option, (json, py_context) dict) dict"
  stdout_captured :: bool
  out_buffer :: string
  err_buffer :: string

type_synonym 'a proc = "(process, 'a) comp"

definition system_exit :: exc where
  "system_exit = Raised ''SystemExit'' []"

definition create_session :: "nat option \<Rightarrow> unit proc" where
  "create_session u = modify (\<lambda>s. s\<lparr>user_sessions := AList.update u [] (user_sessions s)\<rparr>)"

definition get_session :: "nat option \<Rightarrow> (json, py_context) dict proc" where
  "get_session u = bind (query user_sessions) (\<lambda>ss. lift (or_raise (map_of ss u) (KeyError (case u of None \<Rightarrow> ''None'' | Some i \<Rightarrow> show_nat i))))"

text \<open>\<^verbatim>\<open>UserSession.get_file_context\<close>; a list or a dictionary is no key.\<close>

definition get_file_context :: "json \<Rightarrow> (json, py_context) dict \<Rightarrow> exc + py_context \<times> (json, py_context) dict" where
  "get_file_context f files =
     (case f of
        JList _ \<Rightarrow> Inl TypeError
      | JObj _ \<Rightarrow> Inl TypeError
      | _ \<Rightarrow> (case map_of files f of
               Some c \<Rightarrow> Inr (c, files)
             | None \<Rightarrow> Inr ([], AList.update f [] files)))"

definition put_files :: "nat option \<Rightarrow> (json, py_context) dict \<Rightarrow> unit proc" where
  "put_files u files = modify (\<lambda>s. s\<lparr>user_sessions := AList.update u files (user_sessions s)\<rparr>)"

text \<open>
  \<^verbatim>\<open>execute_code\<close>: the context is one object, changed in place whatever the code raises; the
  output is put back after an \<^verbatim>\<open>Exception\<close>, but not after an exit.
\<close>

definition execute_code :: "interpreter \<Rightarrow> nat option \<Rightarrow> json \<Rightarrow> json \<Rightarrow> string proc" where
  "execute_code py u f code =
     bind (get_session u) (\<lambda>files.
     bind (lift (get_file_context f files)) (\<lambda>(c, files1).
     seq (modify (\<lambda>s. s\<lparr>stdout_captured := True\<rparr>))
     (let r = py_exec py code c in
      seq (put_files u (AList.update f (run_context r) files1))
      (case run_end r of
         Exits \<Rightarrow> throw system_exit
       | RaisesExc e \<Rightarrow> seq (modify (\<lambda>s. s\<lparr>stdout_captured := False\<rparr>)) (ret (run_stdout r @ py_traceback py e))
       | Done \<Rightarrow> seq (modify (\<lambda>s. s\<lparr>stdout_captured := False\<rparr>)) (ret (run_stdout r))))))"

definition typed :: "string \<Rightarrow> json \<Rightarrow> json" where
  "typed ty data = JObj [(''type'', JStr ty), (''data'', data)]"

text \<open>\<^verbatim>\<open>_execute_code\<close>: the buffers of the thread are cut back to nothing at the end of every run.\<close>

definition execute_in_buffers :: "interpreter \<Rightarrow> json \<Rightarrow> py_context \<Rightarrow> json proc" where
  "execute_in_buffers py code c s =
     (let r = py_exec py code c;
          out = out_buffer s @ run_stdout r;
          err = err_buffer s @ run_stderr r;
          t = s\<lparr>out_buffer := [], err_buffer := []\<rparr>
      in case run_end r of
           Exits \<Rightarrow> (Inl system_exit, t)
         | RaisesExc e \<Rightarrow> (Inr (typed ''error'' (JStr (py_traceback py e))), t)
         | Done \<Rightarrow>
             (Inr (case run_figure r of
                Some picture \<Rightarrow> typed ''image'' (JStr (b64encode py picture))
              | None \<Rightarrow>
                  if out \<noteq> [] then
                    (case json_loads out of Inr v \<Rightarrow> typed ''json'' v | Inl _ \<Rightarrow> typed ''text'' (JStr out))
                  else if err \<noteq> [] then typed ''error'' (JStr err) else JNull), t))"

text \<open>The code of a file: the first cell of a notebook, or the file itself.\<close>

definition first_cell :: "json \<Rightarrow> exc + json" where
  "first_cell v =
     rbind (subscript v ''cells'') (\<lambda>cells.
       case cells of
         JList (cell # _) \<Rightarrow> subscript cell ''source''
       | JList [] \<Rightarrow> Inl IndexError
       | JObj _ \<Rightarrow> Inl (KeyError ''0'')
       | JStr (ch # _) \<Rightarrow> Inl TypeError
       | JStr [] \<Rightarrow> Inl IndexError
       | _ \<Rightarrow> Inl TypeError)"

definition code_of_file :: "string \<Rightarrow> string \<Rightarrow> exc + json" where
  "code_of_file f content = (if contains ''.ipynb'' f then rbind (json_loads content) first_cell else Inr (JStr content))"

text \<open>
  \<^verbatim>\<open>execute_file\<close>: \<open>base\<close> is the code of the space, or the failure to find one, \<open>open_file\<close> the
  content of a file of the storage, \<open>uid\<close> the fresh id of the run.
\<close>

definition execute_file ::
  "interpreter \<Rightarrow> exc + string \<Rightarrow> (string \<Rightarrow> exc + string) \<Rightarrow> string \<Rightarrow> nat option \<Rightarrow> json \<Rightarrow> json \<Rightarrow> json proc" where
  "execute_file py base open_file uid u f data =
     bind (get_session u) (\<lambda>_.
     bind (lift base) (\<lambda>b.
     bind (lift (as_str f)) (\<lambda>p.
     bind (lift (open_file (b @ ''/'' @ p))) (\<lambda>content.
     bind (lift (case data of
                   JObj ps \<Rightarrow> Inr (JObj (AList.update ''execution_id'' (JStr uid) ps))
                 | _ \<Rightarrow> Inl TypeError)) (\<lambda>d.
     bind (lift (code_of_file p content)) (\<lambda>code.
       execute_in_buffers py code [(''execution_context'', d)]))))))"

section \<open>The views\<close>

definition ensure_session :: "nat option \<Rightarrow> unit proc" where
  "ensure_session u = bind (query user_sessions) (\<lambda>ss. if map_of ss u = None then create_session u else ret ())"

text \<open>The handler of a view catches an \<^verbatim>\<open>Exception\<close> only.\<close>

definition or_bad_request :: "(exc \<Rightarrow> string) \<Rightarrow> (nat \<times> json) proc \<Rightarrow> (nat \<times> json) proc" where
  "or_bad_request show m =
     catch m (\<lambda>e. if e = system_exit then throw e else ret (400, JObj [(''error'', JStr (show e))]))"

definition code_execution :: "interpreter \<Rightarrow> (exc \<Rightarrow> string) \<Rightarrow> nat option \<Rightarrow> json \<Rightarrow> (nat \<times> json) proc" where
  "code_execution py show u data =
     bind (lift (get_or_none data ''code'')) (\<lambda>code.
     bind (lift (get_or_none data ''file_path'')) (\<lambda>f.
     seq (ensure_session u)
     (or_bad_request show (bind (execute_code py u f code) (\<lambda>out.
        ret (200, JObj [(''detail'', JStr ''Code executed successfully.''), (''result'', JStr out)]))))))"

definition file_execution ::
  "interpreter \<Rightarrow> (exc \<Rightarrow> string) \<Rightarrow> exc + string \<Rightarrow> (string \<Rightarrow> exc + string) \<Rightarrow> string \<Rightarrow> nat option \<Rightarrow> json \<Rightarrow> (nat \<times> json) proc" where
  "file_execution py show base open_file uid u data =
     bind (lift (case data of JObj ps \<Rightarrow> Inr (case map_of ps ''data'' of None \<Rightarrow> JObj [] | Some v \<Rightarrow> v) | _ \<Rightarrow> Inl AttributeError)) (\<lambda>d.
     bind (lift (get_or_none data ''file_path'')) (\<lambda>f.
     seq (ensure_session u)
     (or_bad_request show (bind (execute_file py base open_file uid u f d) (\<lambda>out. ret (200, out))))))"

section \<open>Isolation\<close>

definition context_at :: "process \<Rightarrow> nat option \<Rightarrow> json \<Rightarrow> py_context option" where
  "context_at s u f = (case map_of (user_sessions s) u of None \<Rightarrow> None | Some files \<Rightarrow> map_of files f)"

lemma ensure_session_run:
  "ensure_session u s = (Inr (), s\<lparr>user_sessions :=
     if map_of (user_sessions s) u = None then AList.update u [] (user_sessions s) else user_sessions s\<rparr>)"
  by (simp add: ensure_session_def create_session_def bind_def)

lemma ensure_session_context: "context_at (snd (ensure_session u s)) v g = context_at s v g"
  by (auto simp: ensure_session_run context_at_def update_conv')

lemma execute_code_run:
  assumes "map_of (user_sessions s) u = Some files" and "get_file_context f files = Inr (c, files1)"
  shows "execute_code py u f code s =
    (let r = py_exec py code c;
         t = s\<lparr>stdout_captured := (run_end r = Exits), user_sessions := AList.update u (AList.update f (run_context r) files1) (user_sessions s)\<rparr>
     in (case run_end r of Exits \<Rightarrow> Inl system_exit | RaisesExc e \<Rightarrow> Inr (run_stdout r @ py_traceback py e)
         | Done \<Rightarrow> Inr (run_stdout r), t))"
  using assms
  by (auto simp: execute_code_def get_session_def put_files_def bind_def seq_def or_raise_def Let_def split: exec_end.splits)

lemma get_file_context_other:
  "get_file_context f files = Inr (c, files1) \<Longrightarrow> g \<noteq> f \<Longrightarrow> map_of files1 g = map_of files g"
  by (auto simp: get_file_context_def update_conv' split: json.splits option.splits)

lemma execute_code_fails:
  assumes "map_of (user_sessions s) u = Some files" and "get_file_context f files = Inl e"
  shows "execute_code py u f code s = (Inl e, s)"
  using assms by (simp add: execute_code_def get_session_def bind_def or_raise_def)


definition sample_interpreter :: interpreter where
  "sample_interpreter = \<lparr>py_exec = (\<lambda>code c. \<lparr>run_stdout = ''1'', run_stderr = [], run_context = (''x'', code) # c, run_figure = None,
     run_end = (if code = JStr ''exit()'' then Exits else Done)\<rparr>), py_traceback = (\<lambda>_. ''trace''), b64encode = id\<rparr>"

definition sample_process :: process where
  "sample_process = \<lparr>user_sessions = [(Some 1, [(JStr ''a.py'', [(''y'', JInt 1)])])], stdout_captured = False, out_buffer = [], err_buffer = []\<rparr>"


text \<open>The buffers of the thread never carry output from one run to the next.\<close>

lemma buffers_reset: "out_buffer (snd (execute_in_buffers py code c s)) = [] \<and> err_buffer (snd (execute_in_buffers py code c s)) = []"
  by (auto simp: execute_in_buffers_def Let_def split: exec_end.splits)

end
