(* ===== verification/Access.thy ===== *)
theory Access
  imports Endpoints Tenancy Sessions
begin

text \<open>
  From an address to the code that answers it: the patterns and the router of
  \<^verbatim>\<open>workflow_app/urls.py\<close>, the actions and the classes of the view sets of \<^verbatim>\<open>workflow/views.py\<close>
  with the defaults of \<^verbatim>\<open>workflow_app/settings.py\<close>, and the order in which the REST framework
  authenticates a request, checks its permissions and calls the action.  Redirections to a
  missing slash, the debug toolbar and the pages of the admin site themselves are Django's.
\<close>

section \<open>View sets\<close>

datatype view_set =
    WorkflowViewSet | WorkflowTemplateViewSet | TaskViewSet | RefreshStorageViewSet | DefinitionViewSet | ScheduleViewSet
  | LogFileViewSet | CodeExecutionViewSet | FileExecutionViewSet | RealmMigrateSchemeView | CeleryMonitoringViewSet
  | RabbitMQMonitoringViewSet

datatype permission_class = AllowAny | IsAuthenticated
datatype authentication_class = JWTAuthentication | KeycloakAuthentication

text \<open>
  \<^verbatim>\<open>REST_FRAMEWORK\<close> names the authentication classes; its \<^verbatim>\<open>DEFAULT_PERMISSION_CLASSES\<close> are
  commented out, and the framework's own default is \<^verbatim>\<open>AllowAny\<close>.
\<close>

definition default_authentication_classes :: "authentication_class list" where
  "default_authentication_classes = [JWTAuthentication, KeycloakAuthentication]"

definition default_permission_classes :: "permission_class list" where
  "default_permission_classes = [AllowAny]"

fun permission_classes :: "view_set \<Rightarrow> permission_class list" where
  "permission_classes WorkflowTemplateViewSet = default_permission_classes @ []"
| "permission_classes WorkflowViewSet = default_permission_classes @ []"
| "permission_classes TaskViewSet = default_permission_classes @ []"
| "permission_classes ScheduleViewSet = default_permission_classes @ []"
| "permission_classes RealmMigrateSchemeView = [AllowAny]"
| "permission_classes _ = default_permission_classes"

fun authentication_classes :: "view_set \<Rightarrow> authentication_class list" where
  "authentication_classes RealmMigrateSchemeView = []"
| "authentication_classes _ = default_authentication_classes"

text \<open>The standard actions a view set has; a \<^verbatim>\<open>ModelViewSet\<close> has all of them.\<close>

fun standard_actions :: "view_set \<Rightarrow> string list" where
  "standard_actions RefreshStorageViewSet = [''list'']"
| "standard_actions DefinitionViewSet = [''list'']"
| "standard_actions LogFileViewSet = [''list'']"
| "standard_actions CodeExecutionViewSet = [''create'']"
| "standard_actions FileExecutionViewSet = [''create'']"
| "standard_actions RealmMigrateSchemeView = [''create'']"
| "standard_actions CeleryMonitoringViewSet = [''list'']"
| "standard_actions RabbitMQMonitoringViewSet = [''list'']"
| "standard_actions _ = [''list'', ''create'', ''retrieve'', ''update'', ''partial_update'', ''destroy'']"

text \<open>The methods under \<^verbatim>\<open>@action\<close>: name, \<^verbatim>\<open>detail\<close>, \<^verbatim>\<open>url_path\<close> and HTTP method.\<close>

record extra_action =
  act_name :: string
  act_detail :: bool
  act_path :: string
  act_method :: string

definition extra :: "string \<Rightarrow> bool \<Rightarrow> string \<Rightarrow> string \<Rightarrow> extra_action" where
  "extra n d p m = \<lparr>act_name = n, act_detail = d, act_path = p, act_method = m\<rparr>"

fun extra_actions :: "view_set \<Rightarrow> extra_action list" where
  "extra_actions WorkflowTemplateViewSet = [extra ''run_workflow'' False ''run-workflow'' ''POST'']"
| "extra_actions WorkflowViewSet =
     [extra ''bulk_cancel'' False ''bulk-cancel'' ''POST'', extra ''bulk_delete'' False ''bulk-delete'' ''POST'',
      extra ''cancel'' True ''cancel'' ''POST'', extra ''list_light'' False ''light'' ''GET'',
      extra ''pause_workflow'' True ''pause'' ''PUT'', extra ''relaunch'' True ''relaunch'' ''POST'',
      extra ''resume_workflow'' True ''resume'' ''PUT'', extra ''run_workflow'' False ''run-workflow'' ''POST'']"
| "extra_actions ScheduleViewSet = [extra ''run_manual'' True ''run-manual'' ''PUT'']"
| "extra_actions _ = []"

section \<open>The router\<close>

definition registered :: "(string \<times> view_set) list" where
  "registered =
     [(''workflow'', WorkflowViewSet), (''workflow-template'', WorkflowTemplateViewSet), (''task'', TaskViewSet),
      (''refresh-storage'', RefreshStorageViewSet), (''definition'', DefinitionViewSet), (''schedule'', ScheduleViewSet),
      (''log'', LogFileViewSet), (''execute-code'', CodeExecutionViewSet), (''execute-file'', FileExecutionViewSet),
      (''authorizer/migrate'', RealmMigrateSchemeView), (''monitoring/celery'', CeleryMonitoringViewSet),
      (''monitoring/rabbitmq'', RabbitMQMonitoringViewSet)]"

text \<open>A route: the view set, the action of each HTTP method, and the key of the row.\<close>

type_synonym methods = "(string \<times> string) list"

definition method_map :: "view_set \<Rightarrow> methods \<Rightarrow> methods" where
  "method_map v ms = filter (\<lambda>(m, a). a \<in> set (standard_actions v)) ms"

definition list_methods :: "view_set \<Rightarrow> methods" where
  "list_methods v = method_map v [(''GET'', ''list''), (''POST'', ''create'')]"

definition detail_methods :: "view_set \<Rightarrow> methods" where
  "detail_methods v =
     method_map v [(''GET'', ''retrieve''), (''PUT'', ''update''), (''PATCH'', ''partial_update''), (''DELETE'', ''destroy'')]"

definition extra_methods :: "view_set \<Rightarrow> bool \<Rightarrow> string \<Rightarrow> methods" where
  "extra_methods v detail url =
     map (\<lambda>a. (act_method a, act_name a)) (filter (\<lambda>a. act_detail a = detail \<and> act_path a = url) (extra_actions v))"

definition non_empty :: "methods \<Rightarrow> string option \<Rightarrow> (methods \<times> string option) option" where
  "non_empty ms pk = (if ms = [] then None else Some (ms, pk))"

text \<open>\<^verbatim>\<open>[^/.]+\<close>\<close>

definition is_lookup :: "string \<Rightarrow> bool" where
  "is_lookup s \<longleftrightarrow> s \<noteq> [] \<and> CHR ''.'' \<notin> set s \<and> CHR ''/'' \<notin> set s"

text \<open>
  The routes of one view set, in the order of \<^verbatim>\<open>SimpleRouter.routes\<close>: the list, the actions on
  the list, one row, the actions on one row.
\<close>

definition view_route :: "view_set \<Rightarrow> string list \<Rightarrow> (methods \<times> string option) option" where
  "view_route v tail =
     (case tail of
        [] \<Rightarrow> non_empty (list_methods v) None
      | [x] \<Rightarrow>
          if extra_methods v False x \<noteq> [] then Some (extra_methods v False x, None)
          else if is_lookup x then non_empty (detail_methods v) (Some x) else None
      | [x, y] \<Rightarrow> if is_lookup x then non_empty (extra_methods v True y) (Some x) else None
      | _ \<Rightarrow> None)"

definition strip_prefix :: "string list \<Rightarrow> string list \<Rightarrow> string list option" where
  "strip_prefix ps xs = (if take (length ps) xs = ps then Some (drop (length ps) xs) else None)"

datatype target = ApiRoot | Api view_set methods "string option" | IndexPage | AdminSite "string list" | DocsPage | DocsApi

fun first_route :: "(string \<times> view_set) list \<Rightarrow> string list \<Rightarrow> target option" where
  "first_route [] key = None"
| "first_route ((prefix, v) # rs) key =
     (case Option.bind (strip_prefix (split_on (CHR ''/'') prefix) key) (view_route v) of
        Some (ms, pk) \<Rightarrow> Some (Api v ms pk)
      | None \<Rightarrow> first_route rs key)"

text \<open>
  The router adds to each route the same one with a suffix for the format, \<^verbatim>\<open>.json\<close> say, after
  which the slash is optional; without the slash after the prefix nothing matches.
\<close>

definition without_format :: "string \<Rightarrow> string option" where
  "without_format seg =
     (case split_on (CHR ''.'') seg of
        [b, f] \<Rightarrow> if f \<noteq> [] \<and> list_all (\<lambda>c. c \<in> set ''abcdefghijklmnopqrstuvwxyz0123456789'') f then Some b else None
      | _ \<Rightarrow> None)"

definition route_key :: "string list \<Rightarrow> string list option" where
  "route_key segs =
     (let slash = (last segs = []); body = (if slash then butlast segs else segs) in
      if segs = [] then None
      else if body = [] then Some []
      else case without_format (last body) of
             Some b \<Rightarrow> Some (if b = [] \<and> length body = 1 then [] else butlast body @ [b])
           | None \<Rightarrow> if slash then Some body else None)"

definition router_urls :: "string list \<Rightarrow> target option" where
  "router_urls segs =
     Option.bind (route_key segs) (\<lambda>key. case first_route registered key of Some t \<Rightarrow> Some t | None \<Rightarrow> if key = [] then Some ApiRoot else None)"

section \<open>The patterns of the site\<close>

text \<open>\<^verbatim>\<open><slug:...>\<close>, and the space of the admin pages, \<^verbatim>\<open>space\w{5}\<close>, for ASCII texts.\<close>

definition is_word :: "char \<Rightarrow> bool" where
  "is_word c \<longleftrightarrow> c \<in> set ''abcdefghijklmnopqrstuvwxyzABCDEFGHIJKLMNOPQRSTUVWXYZ0123456789_''"

definition is_slug :: "string \<Rightarrow> bool" where
  "is_slug s \<longleftrightarrow> s \<noteq> [] \<and> list_all (\<lambda>c. is_word c \<or> c = CHR ''-'') s"

definition is_admin_space :: "string \<Rightarrow> bool" where
  "is_admin_space s \<longleftrightarrow> startswith s ''space'' \<and> length s = 10 \<and> list_all is_word (drop 5 s)"

text \<open>
  \<^verbatim>\<open>urlpatterns\<close>, in their order; a pattern that includes the router gives way to the next one
  when no route matches.  \<open>own_realm\<close> is \<^verbatim>\<open>settings.REALM_CODE\<close>.
\<close>

definition short_index :: "string list \<Rightarrow> target option" where
  "short_index segs = (case segs of [space, w, e] \<Rightarrow> if space \<noteq> [] \<and> w = ''workflow'' \<and> e = [] then Some IndexPage else None | _ \<Rightarrow> None)"

definition after_space :: "string list \<Rightarrow> string list \<Rightarrow> string list option" where
  "after_space ps segs =
     (case segs of realm # space # rest \<Rightarrow> if realm \<noteq> [] \<and> space \<noteq> [] then strip_prefix ps rest else None | _ \<Rightarrow> None)"

definition api_urls :: "string list \<Rightarrow> target option" where
  "api_urls segs = Option.bind (after_space [''workflow'', ''api''] segs) router_urls"

definition api_v1_urls :: "string list \<Rightarrow> target option" where
  "api_v1_urls segs = Option.bind (after_space [''workflow'', ''api'', ''v1''] segs) router_urls"

definition admin_urls :: "string \<Rightarrow> string list \<Rightarrow> target option" where
  "admin_urls own_realm segs =
     (case segs of
        realm # space # w # a # rest \<Rightarrow>
          if realm = own_realm \<and> is_admin_space space \<and> w = ''workflow'' \<and> a = ''admin'' \<and> rest \<noteq> [] then Some (AdminSite rest) else None
      | _ \<Rightarrow> None)"

definition index_url :: "string list \<Rightarrow> target option" where
  "index_url segs = (if after_space [''workflow''] segs = Some [[]] then Some IndexPage else None)"

definition get_redoc_urlpatterns :: "string list \<Rightarrow> target option" where
  "get_redoc_urlpatterns segs =
     (case segs of
        realm # space # rest \<Rightarrow>
          if is_slug realm \<and> is_slug space then
            (if rest = [''workflow'', ''docs'', []] then Some DocsPage
             else if rest = [''workflow'', ''docs'', ''api'', []] then Some DocsApi else None)
          else None
      | _ \<Rightarrow> None)"

fun first_match :: "(string list \<Rightarrow> target option) list \<Rightarrow> string list \<Rightarrow> target option" where
  "first_match [] segs = None"
| "first_match (f # fs) segs = (case f segs of Some t \<Rightarrow> Some t | None \<Rightarrow> first_match fs segs)"

definition urlpatterns :: "string \<Rightarrow> (string list \<Rightarrow> target option) list" where
  "urlpatterns own_realm = [short_index, api_urls, api_v1_urls, admin_urls own_realm, index_url] @ [get_redoc_urlpatterns]"

definition resolve :: "string \<Rightarrow> string \<Rightarrow> target option" where
  "resolve own_realm p =
     (case p of
        [] \<Rightarrow> None
      | c # cs \<Rightarrow> if c = CHR ''/'' then first_match (urlpatterns own_realm) (split_on (CHR ''/'') cs) else None)"

section \<open>Who reaches a view\<close>

record auth_site =
  site_env :: env
  site_accounts :: accounts
  site_jwt :: jwt_lib
  site_secret :: string
  site_service :: service
  site_keycloak :: keycloak
  site_pick :: "nat \<Rightarrow> nat"

definition authenticate_class :: "auth_site \<Rightarrow> auth_request \<Rightarrow> authentication_class \<Rightarrow> authenticated io" where
  "authenticate_class a req c =
     (case c of
        JWTAuthentication \<Rightarrow> jwt_authenticate (site_env a) (site_accounts a) (site_jwt a) (site_secret a) req
      | KeycloakAuthentication \<Rightarrow> keycloak_authenticate (site_env a) (site_accounts a) (site_service a) (site_keycloak a) (site_pick a) req)"

text \<open>\<^verbatim>\<open>perform_authentication\<close>: the first class that knows the request decides; \<open>None\<close> is \<^verbatim>\<open>AnonymousUser\<close>.\<close>

fun authenticate_by :: "auth_site \<Rightarrow> auth_request \<Rightarrow> authentication_class list \<Rightarrow> authenticated io" where
  "authenticate_by a req [] = ret None"
| "authenticate_by a req (c # cs) =
     bind (authenticate_class a req c) (\<lambda>r. case r of None \<Rightarrow> authenticate_by a req cs | Some _ \<Rightarrow> ret r)"

definition has_permission :: "user_row option \<Rightarrow> permission_class \<Rightarrow> bool" where
  "has_permission u p = (case p of AllowAny \<Rightarrow> True | IsAuthenticated \<Rightarrow> u \<noteq> None)"

definition check_permissions :: "view_set \<Rightarrow> user_row option \<Rightarrow> exc + unit" where
  "check_permissions v u =
     (if list_all (has_permission u) (permission_classes v) then Inr ()
      else if authentication_classes v \<noteq> [] \<and> u = None then Inl (Raised ''NotAuthenticated'' [])
      else Inl (Raised ''PermissionDenied'' []))"

text \<open>
  \<^verbatim>\<open>APIView.dispatch\<close>: authentication and permissions come first, then the action of the
  method; \<^verbatim>\<open>HEAD\<close> is bound to the action of \<^verbatim>\<open>GET\<close>.
\<close>

definition action_of :: "methods \<Rightarrow> string \<Rightarrow> string option" where
  "action_of ms m =
     (case map_of ms m of
        Some a \<Rightarrow> Some a
      | None \<Rightarrow> if m = ''HEAD'' then map_of ms ''GET'' else if m = ''OPTIONS'' then Some ''options'' else None)"

record server =
  server_world :: world
  server_process :: process

type_synonym 'a srv = "(server, 'a) comp"

definition on_world :: "'a io \<Rightarrow> 'a srv" where
  "on_world m s = (case m (server_world s) of (r, t) \<Rightarrow> (r, s\<lparr>server_world := t\<rparr>))"

definition on_process :: "'a proc \<Rightarrow> 'a srv" where
  "on_process m s = (case m (server_process s) of (r, t) \<Rightarrow> (r, s\<lparr>server_process := t\<rparr>))"

type_synonym actions = "view_set \<Rightarrow> string \<Rightarrow> string option \<Rightarrow> user_row option \<Rightarrow> (nat \<times> json) srv"

definition dispatch :: "auth_site \<Rightarrow> actions \<Rightarrow> view_set \<Rightarrow> methods \<Rightarrow> string option \<Rightarrow> auth_request \<Rightarrow> (nat \<times> json) srv" where
  "dispatch a acts v ms pk req =
     bind (on_world (authenticate_by a req (authentication_classes v))) (\<lambda>r.
       let u = map_option fst r in
       seq (lift (check_permissions v u))
         (case action_of ms (auth_method req) of
            None \<Rightarrow> throw (Raised ''MethodNotAllowed'' (auth_method req))
          | Some act \<Rightarrow> acts v act pk u))"

text \<open>A request to the API between the two ends of the middleware.\<close>

definition api_request :: "string \<Rightarrow> auth_site \<Rightarrow> (string option \<Rightarrow> string \<Rightarrow> actions) \<Rightarrow> string \<Rightarrow> auth_request \<Rightarrow> (nat \<times> json) srv" where
  "api_request own_realm a acts p req =
     bind (lift (codes_of_path p)) (\<lambda>(realm, space).
     seq (on_world (enter_request realm space))
       (case resolve own_realm p of
          Some (Api v ms pk) \<Rightarrow> dispatch a (acts realm space) v ms pk req
        | _ \<Rightarrow> throw (Raised ''Http404'' p)))"

text \<open>The two views that run code are called with the id of the user, which an anonymous one does not have.\<close>

definition code_actions :: "interpreter \<Rightarrow> (exc \<Rightarrow> string) \<Rightarrow> json \<Rightarrow> actions \<Rightarrow> actions" where
  "code_actions py show data others v act pk u =
     (if v = CodeExecutionViewSet \<and> act = ''create'' then on_process (code_execution py show (map_option user_id u) data)
      else others v act pk u)"

section \<open>Addresses\<close>

lemma split_prefix:
  "list_all (\<lambda>x. CHR ''/'' \<notin> set x) xs \<Longrightarrow> split_on (CHR ''/'') (concat (map (\<lambda>x. x @ ''/'') xs) @ s) = xs @ split_on (CHR ''/'') s"
  by (induction xs) (simp_all add: split_on_append)

lemma strip_prefix_append [simp]: "strip_prefix ps (ps @ xs) = Some xs"
  by (simp add: strip_prefix_def)

lemma strip_prefix_Some: "strip_prefix ps xs = Some ys \<longleftrightarrow> xs = ps @ ys"
  unfolding strip_prefix_def by (metis append_eq_conv_conj append_take_drop_id option.inject option.distinct(1))

text \<open>No prefix of the router is a prefix of another, so that the order of the registrations does not matter.\<close>

definition prefix_free :: "(string \<times> view_set) list \<Rightarrow> bool" where
  "prefix_free rs \<longleftrightarrow> list_all (\<lambda>(p, v). list_all (\<lambda>(q, w). (p, v) = (q, w) \<or>
     strip_prefix (split_on (CHR ''/'') p) (split_on (CHR ''/'') q) = None) rs) rs"

lemma registered_prefix_free: "prefix_free registered"
  by code_simp

lemma prefix_freeD:
  "prefix_free rs \<Longrightarrow> (p, v) \<in> set rs \<Longrightarrow> (q, w) \<in> set rs \<Longrightarrow> (p, v) \<noteq> (q, w) \<Longrightarrow>
    strip_prefix (split_on (CHR ''/'') p) (split_on (CHR ''/'') q) = None"
  by (fastforce simp: prefix_free_def list_all_iff)

lemma strip_other:
  assumes "strip_prefix ps qs = None" and "strip_prefix qs ps = None"
  shows "strip_prefix ps (qs @ xs) = None"
proof (rule ccontr)
  assume "strip_prefix ps (qs @ xs) \<noteq> None"
  then obtain ys where "qs @ xs = ps @ ys" by (auto simp: strip_prefix_Some)
  then obtain us where "qs = ps @ us \<or> qs @ us = ps" by (auto simp: append_eq_append_conv2)
  with assms show False by (metis option.distinct(1) strip_prefix_append)
qed

lemma first_route_there:
  assumes "(p, v) \<in> set rs" and "view_route v tail = Some (ms, pk)"
    and "\<And>q w. (q, w) \<in> set rs \<Longrightarrow> (q, w) \<noteq> (p, v) \<Longrightarrow>
      strip_prefix (split_on (CHR ''/'') q) (split_on (CHR ''/'') p @ tail) = None"
  shows "first_route rs (split_on (CHR ''/'') p @ tail) = Some (Api v ms pk)"
  using assms
proof (induction rs)
  case (Cons r rs)
  obtain q w where r: "r = (q, w)" by (cases r)
  show ?case
  proof (cases "r = (p, v)")
    case True
    then show ?thesis using Cons.prems(2) by simp
  next
    case False
    with Cons.prems(3) [of q w] r have "strip_prefix (split_on (CHR ''/'') q) (split_on (CHR ''/'') p @ tail) = None" by simp
    moreover have "first_route rs (split_on (CHR ''/'') p @ tail) = Some (Api v ms pk)"
      using Cons.prems False by (intro Cons.IH) auto
    ultimately show ?thesis by (simp add: r)
  qed
qed simp

lemma first_route_registered:
  assumes "(p, v) \<in> set registered" and "view_route v tail = Some (ms, pk)"
  shows "first_route registered (split_on (CHR ''/'') p @ tail) = Some (Api v ms pk)"
proof (rule first_route_there [OF assms])
  fix q w
  assume q: "(q, w) \<in> set registered" "(q, w) \<noteq> (p, v)"
  show "strip_prefix (split_on (CHR ''/'') q) (split_on (CHR ''/'') p @ tail) = None"
    by (rule strip_other [OF prefix_freeD [OF registered_prefix_free q(1) assms(1) q(2)]
        prefix_freeD [OF registered_prefix_free assms(1) q(1) q(2) [symmetric]]])
qed

text \<open>The parts of an address that has a route carry no dot and no slash, so that no format is read from them.\<close>

lemma registered_plain: "(p, v) \<in> set registered \<Longrightarrow> CHR ''.'' \<notin> set (last (split_on (CHR ''/'') p))"
proof -
  have "list_all (\<lambda>(p, v). CHR ''.'' \<notin> set (last (split_on (CHR ''/'') p))) registered" by code_simp
  then show "(p, v) \<in> set registered \<Longrightarrow> ?thesis" by (auto simp: list_all_iff)
qed

lemma extra_methods_lookup: "extra_methods v d x \<noteq> [] \<Longrightarrow> is_lookup x"
proof -
  have "list_all (\<lambda>a. is_lookup (act_path a)) (extra_actions v)" by (cases v) (simp_all add: extra_def is_lookup_def)
  then show "extra_methods v d x \<noteq> [] \<Longrightarrow> is_lookup x" by (auto simp: extra_methods_def list_all_iff filter_empty_conv)
qed

lemma view_route_plain: "view_route v tail = Some r \<Longrightarrow> list_all is_lookup tail"
  by (auto simp: view_route_def non_empty_def extra_methods_lookup split: list.splits if_splits)

lemma without_format_plain: "CHR ''.'' \<notin> set s \<Longrightarrow> without_format s = None"
  by (simp add: without_format_def split_on_no_sep)

lemma route_key_plain:
  assumes "key \<noteq> []" and "CHR ''.'' \<notin> set (last key)"
  shows "route_key (key @ [[]]) = Some key"
  using assms(1) without_format_plain [OF assms(2)] by (simp add: route_key_def Let_def)

lemma no_route_v1: "first_route registered (''v1'' # xs) = None"
  by (simp add: registered_def strip_prefix_def)

lemma router_urls_registered:
  assumes "(p, v) \<in> set registered" and "view_route v tail = Some (ms, pk)"
  defines "segs \<equiv> split_on (CHR ''/'') p @ tail @ [[]]"
  shows "router_urls segs = Some (Api v ms pk)" and "router_urls (''v1'' # segs) = None"
proof -
  let ?key = "split_on (CHR ''/'') p @ tail"
  have plain: "CHR ''.'' \<notin> set (last ?key)"
    using registered_plain [OF assms(1)] view_route_plain [OF assms(2)]
    by (cases "tail = []") (auto simp: list_all_iff is_lookup_def)
  have key: "?key \<noteq> []" by simp
  show "router_urls segs = Some (Api v ms pk)"
    using first_route_registered [OF assms(1,2)] route_key_plain [OF key plain] by (simp add: router_urls_def segs_def)
  have "route_key ((''v1'' # ?key) @ [[]]) = Some (''v1'' # ?key)" by (rule route_key_plain) (use plain key in auto)
  then show "router_urls (''v1'' # segs) = None" using no_route_v1 [of ?key] by (simp add: router_urls_def segs_def)
qed

lemma split_on_sep: "split_on c (s @ c # t) = split_on c s @ split_on c t"
  by (induction s) (auto split: list.splits)

lemma split_parts: "split_on c (concat (map (\<lambda>x. x @ [c]) xs)) = concat (map (split_on c) xs) @ [[]]"
  by (induction xs) (simp_all add: split_on_sep)

definition address :: "string list \<Rightarrow> string \<Rightarrow> string \<Rightarrow> string \<Rightarrow> string list \<Rightarrow> string" where
  "address version realm space prefix tail =
     CHR ''/'' # concat (map (\<lambda>x. x @ ''/'') ([realm, space, ''workflow'', ''api''] @ version @ [prefix] @ tail))"

lemma address_resolved:
  assumes "(prefix, v) \<in> set registered" and "view_route v tail = Some (ms, pk)" and "version \<in> {[], [''v1'']}"
    and "realm \<noteq> []" and "space \<noteq> []" and "CHR ''/'' \<notin> set realm" and "CHR ''/'' \<notin> set space"
  shows "resolve own_realm (address version realm space prefix tail) = Some (Api v ms pk) \<and>
    codes_of_path (address version realm space prefix tail) =
      Inr (if contains ''realm'' realm then (Some realm, space) else (None, realm))"
proof -
  have "concat (map (split_on (CHR ''/'')) tail) = tail"
    using view_route_plain [OF assms(2)] by (induction tail) (simp_all add: is_lookup_def split_on_no_sep)
  moreover have "concat (map (split_on (CHR ''/'')) version) = version" using assms(3) by auto
  ultimately have segs: "split_on (CHR ''/'') (concat (map (\<lambda>x. x @ ''/'') ([realm, space, ''workflow'', ''api''] @ version @ [prefix] @ tail)))
      = realm # space # ''workflow'' # ''api'' # version @ split_on (CHR ''/'') prefix @ tail @ [[]]" (is "_ = ?segs")
    unfolding split_parts using assms(6,7) by (simp add: split_on_no_sep)
  have "first_match (urlpatterns own_realm) ?segs = Some (Api v ms pk)"
    using assms(3-5) router_urls_registered [OF assms(1,2)]
    by (auto simp: urlpatterns_def short_index_def api_urls_def api_v1_urls_def after_space_def strip_prefix_def)
  then have "resolve own_realm (address version realm space prefix tail) = Some (Api v ms pk)"
    unfolding resolve_def address_def list.case segs by simp
  moreover have "split_on (CHR ''/'') (address version realm space prefix tail) = [] # ?segs"
    unfolding address_def split_on.simps segs by simp
  then have "codes_of_path (address version realm space prefix tail) =
      Inr (if contains ''realm'' realm then (Some realm, space) else (None, realm))"
    by (simp add: codes_of_path_def nth_or_raise_def rbind_def)
  ultimately show ?thesis by simp
qed



section \<open>Who reaches an action\<close>

definition no_credentials :: "auth_request \<Rightarrow> bool" where
  "no_credentials req \<longleftrightarrow> jwt_token req = Inr None \<and> keycloak_token req = Inr None"

text \<open>The permissions of every view let everybody pass.\<close>

lemma check_permissions_pass [simp]: "check_permissions v u = Inr ()"
  by (cases v) (simp_all add: check_permissions_def default_permission_classes_def has_permission_def)

lemma authentication_classes_cases: "authentication_classes v = [] \<or> authentication_classes v = [JWTAuthentication, KeycloakAuthentication]"
  by (cases v) (simp_all add: default_authentication_classes_def)

lemma bind_of_lift [simp]: "bind (lift (Inr x)) f = f x" "bind (lift (Inl e)) f = throw e"
  by (simp_all add: bind_def lift_def throw_def fun_eq_iff)

lemma throw_applied: "throw e s = (Inl e, s)"
  by (simp add: throw_def)

lemma bind_of_throw [simp]: "bind (throw e) f = throw e"
  by (simp add: bind_def throw_def fun_eq_iff)

lemma authenticate_by_one: "authenticate_by a req [c] = authenticate_class a req c"
  by (auto simp: bind_def ret_def fun_eq_iff split: prod.splits sum.splits option.splits)

lemma authenticate_default:
  "authenticate_by a req default_authentication_classes =
    authenticate_request (site_env a) (site_accounts a) (site_jwt a) (site_secret a) (site_service a) (site_keycloak a) (site_pick a) req"
  by (simp only: default_authentication_classes_def authenticate_by.simps(2) [of a req JWTAuthentication] authenticate_by_one
      authenticate_request_def authenticate_class_def authentication_class.case)

lemma on_world_bind: "on_world (bind m f) = bind (on_world m) (\<lambda>x. on_world (f x))"
  by (auto simp: on_world_def bind_def fun_eq_iff split: prod.splits sum.splits)

lemma on_world_lift [simp]: "on_world (lift r) = lift r" "on_world (ret x) = ret x" "on_world (throw e) = throw e"
  by (simp_all add: on_world_def fun_eq_iff lift_def ret_def throw_def)

lemma dispatch_exact:
  assumes "auth_method req \<noteq> ''OPTIONS''" and "action_of ms (auth_method req) = Some act"
  shows "dispatch a acts v ms pk req s =
    (if authentication_classes v = [] \<or> no_credentials req then acts v act pk None s
     else case (jwt_token req, keycloak_token req) of
        (Inl e, _) \<Rightarrow> (Inl e, s)
      | (Inr (Some key), _) \<Rightarrow>
          bind (on_world (jwt_credentials (site_env a) (site_accounts a) (site_jwt a) (site_secret a) key)) (\<lambda>u. acts v act pk (Some u)) s
      | (Inr None, Inl e) \<Rightarrow> (Inl e, s)
      | (Inr None, Inr (Some key)) \<Rightarrow>
          bind (on_world (keycloak_credentials (site_env a) (site_accounts a) (site_service a) (site_keycloak a) (site_pick a) key))
            (\<lambda>u. acts v act pk (Some u)) s
      | (Inr None, Inr None) \<Rightarrow> acts v act pk None s)"
proof -
  let ?run = "\<lambda>r. acts v act pk (map_option fst r)"
  have run: "dispatch a acts v ms pk req = bind (on_world (authenticate_by a req (authentication_classes v))) ?run"
    using assms(2) by (simp add: dispatch_def Let_def seq_def)
  show ?thesis
  proof (cases "authentication_classes v = []")
    case True
    then show ?thesis by (simp add: run)
  next
    case False
    then have "authentication_classes v = default_authentication_classes"
      using authentication_classes_cases [of v] by (simp add: default_authentication_classes_def)
    then show ?thesis
      using False assms(1)
      by (simp add: run authenticate_default authenticate_request_def jwt_authenticate_def keycloak_authenticate_def with_token_def
          no_credentials_def on_world_bind bind_assoc throw_applied split: sum.splits option.splits)
        (simp add: bind_def on_world_def)
  qed
qed

text \<open>
  C37: who reaches an action, for every view, method and request but \<^verbatim>\<open>OPTIONS\<close>: a request
  without credentials reaches it as nobody, whatever the view; a token that is malformed stops
  the request with no effect; and otherwise the action runs as the user of the signed token, or
  else of Keycloak's, and not at all when the token has none.
\<close>

theorem who_reaches_an_action:
  assumes "auth_method req \<noteq> ''OPTIONS''" and "action_of ms (auth_method req) = Some act"
  shows "dispatch a acts v ms pk req s =
    (if authentication_classes v = [] \<or> no_credentials req then acts v act pk None s
     else case (jwt_token req, keycloak_token req) of
        (Inl e, _) \<Rightarrow> (Inl e, s)
      | (Inr (Some key), _) \<Rightarrow>
          bind (on_world (jwt_credentials (site_env a) (site_accounts a) (site_jwt a) (site_secret a) key)) (\<lambda>u. acts v act pk (Some u)) s
      | (Inr None, Inl e) \<Rightarrow> (Inl e, s)
      | (Inr None, Inr (Some key)) \<Rightarrow>
          bind (on_world (keycloak_credentials (site_env a) (site_accounts a) (site_service a) (site_keycloak a) (site_pick a) key))
            (\<lambda>u. acts v act pk (Some u)) s
      | (Inr None, Inr None) \<Rightarrow> acts v act pk None s)"
  by (rule dispatch_exact [OF assms])

text \<open>
  Together: a request without credentials to the address of \<^verbatim>\<open>execute-code\<close> has its code run,
  in the session that all such requests share.
\<close>

corollary anonymous_code_runs:
  assumes "version \<in> {[], [''v1'']}" and "realm \<noteq> []" and "space \<noteq> []" and "CHR ''/'' \<notin> set realm" and "CHR ''/'' \<notin> set space"
    and "contains ''realm'' realm" and "no_credentials req" and "auth_method req = ''POST''"
  shows "api_request own_realm a (\<lambda>_ _. code_actions py show data others) (address version realm space ''execute-code'' []) req s =
    on_process (code_execution py show None data)
      (s\<lparr>server_world := (server_world s)\<lparr>search_path := request_schema (Some realm) space (server_world s)\<rparr>\<rparr>)"
proof -
  have "(''execute-code'', CodeExecutionViewSet) \<in> set registered" by (simp add: registered_def)
  moreover have "view_route CodeExecutionViewSet [] = Some ([(''POST'', ''create'')], None)" by code_simp
  ultimately have addr: "resolve own_realm (address version realm space ''execute-code'' []) =
      Some (Api CodeExecutionViewSet [(''POST'', ''create'')] None)"
    "codes_of_path (address version realm space ''execute-code'' []) = Inr (Some realm, space)"
    using address_resolved [OF _ _ assms(1-5), of _ _ _ _ _ own_realm] assms(6) by auto
  have "dispatch a (code_actions py show data others) CodeExecutionViewSet [(''POST'', ''create'')] None req t =
      on_process (code_execution py show None data) t" for t
    using assms(7,8) dispatch_exact [of req "[(''POST'', ''create'')]" "''create''"] by (simp add: action_of_def code_actions_def)
  then show ?thesis
    by (simp add: api_request_def addr seq_def on_world_def enter_request_run bind_def)
qed

definition sample_site :: auth_site where
  "sample_site = \<lparr>site_env = sample_env, site_accounts = sample_accounts, site_jwt = sample_jwt\<lparr>jwt_decode := \<lambda>_ _ _. Inl InvalidTokenError\<rparr>, site_secret = ''key'',
     site_service = sample_send, site_keycloak = sample_keycloak, site_pick = id\<rparr>"

definition sample_request :: "string \<Rightarrow> auth_request" where
  "sample_request header = \<lparr>auth_method = ''POST'', auth_header = header, auth_cookies = []\<rparr>"

text \<open>The code of a request without credentials runs; one with a token that is not the program's own does not.\<close>

theorem who_reaches_an_action_witness:
  "fst (dispatch sample_site (code_actions sample_interpreter (\<lambda>_. ''e'') (JObj [(''code'', JStr ''1''), (''file_path'', JStr ''a.py'')]) (\<lambda>_ _ _ _. throw TypeError))
      CodeExecutionViewSet [(''POST'', ''create'')] None (sample_request []) \<lparr>server_world = sample_world, server_process = sample_process\<rparr>)
    = Inr (200, JObj [(''detail'', JStr ''Code executed successfully.''), (''result'', JStr ''1'')]) \<and>
   fst (dispatch sample_site (\<lambda>_ _ _ _. throw TypeError) CodeExecutionViewSet [(''POST'', ''create'')] None (sample_request ''Bearer b'')
      \<lparr>server_world = sample_world, server_process = sample_process\<rparr>) = Inl (auth_failed ''Invalid token'')"
proof -
  have none: "jwt_token (sample_request []) = Inr None" "keycloak_token (sample_request []) = Inr None"
    and bearer: "jwt_token (sample_request ''Bearer b'') = Inr (Some ''b'')" by code_simp+
  let ?out = "code_execution sample_interpreter (\<lambda>_. ''e'') None (JObj [(''code'', JStr ''1''), (''file_path'', JStr ''a.py'')]) sample_process"
  have "fst ?out = Inr (200, JObj [(''detail'', JStr ''Code executed successfully.''), (''result'', JStr ''1'')])" by code_simp
  then obtain t where out: "?out = (Inr (200, JObj [(''detail'', JStr ''Code executed successfully.''), (''result'', JStr ''1'')]), t)"
    by (metis prod.collapse)
  have token: "jwt_credentials (site_env sample_site) (site_accounts sample_site) (site_jwt sample_site) (site_secret sample_site) ''b'' sample_world
      = (Inl (auth_failed ''Invalid token''), sample_world)"
    by (simp add: jwt_credentials_def sample_site_def now_def bind_def throw_def query_def)
  have post: "auth_method (sample_request h) \<noteq> ''OPTIONS''" "action_of [(''POST'', ''create'')] (auth_method (sample_request h)) = Some ''create''" for h
    by (simp_all add: sample_request_def action_of_def)
  show ?thesis
    using out token
    by (simp add: who_reaches_an_action [OF post] none bearer no_credentials_def default_authentication_classes_def code_actions_def on_process_def
        on_world_def bind_def)
qed

end
