(* ===== verification/Settings.thy ===== *)
theory Settings
  imports Access
begin

text \<open>
  The configuration of a process: \<^verbatim>\<open>workflow_app/settings.py\<close>, read from the environment with the
  readers of \<^verbatim>\<open>workflow_app/utils.py\<close>, and the links of \<^verbatim>\<open>workflow/context_processors.py\<close>.  Paths
  below the directory of the program and the declarations that only Django reads are left out.
\<close>

section \<open>Readers\<close>

datatype setting = NoValue | Text string | Flag bool | Number int | Items "string list" | Seconds int

text \<open>How a setting is read: \<^verbatim>\<open>ENV_STR\<close>, \<^verbatim>\<open>ENV_BOOL\<close>, \<^verbatim>\<open>ENV_INT\<close>, or \<^verbatim>\<open>os.environ.get\<close>, with its default.\<close>

datatype reader = EnvStr setting | EnvBool bool | EnvInt int | EnvGet setting

type_synonym environ = "(string, string) dict"

definition read_env :: "environ \<Rightarrow> string \<Rightarrow> reader \<Rightarrow> exc + setting" where
  "read_env environ name r =
     (case r of
        EnvStr d \<Rightarrow> Inr (case env_value environ name of None \<Rightarrow> d | Some v \<Rightarrow> Text v)
      | EnvBool b \<Rightarrow> rbind (env_bool environ name b) (\<lambda>x. Inr (Flag x))
      | EnvInt n \<Rightarrow> rbind (env_int environ name n) (\<lambda>x. Inr (Number x))
      | EnvGet d \<Rightarrow> Inr (case map_of environ name of None \<Rightarrow> d | Some v \<Rightarrow> Text v))"

text \<open>A declaration: the setting, the variable and the reader; they are evaluated in their order.\<close>

type_synonym entry = "string \<times> string \<times> reader"
type_synonym settings = "(string, setting) dict"

fun load :: "environ \<Rightarrow> entry list \<Rightarrow> exc + settings" where
  "load environ [] = Inr []"
| "load environ ((k, name, r) # ds) =
     rbind (read_env environ name r) (\<lambda>v. rbind (load environ ds) (\<lambda>s. Inr ((k, v) # s)))"

definition same :: "string \<Rightarrow> reader \<Rightarrow> entry" where
  "same n r = (n, n, r)"

section \<open>The declarations\<close>

definition realm_of :: "environ \<Rightarrow> string" where
  "realm_of environ = env_str environ ''REALM_CODE'' ''realm00000''"

definition project_settings :: "string \<Rightarrow> entry list" where
  "project_settings realm =
     [same ''DJANGO_LOG_LEVEL'' (EnvStr (Text ''INFO'')),
      same ''REALM_CODE'' (EnvStr (Text ''realm00000'')),
      same ''BASE_API_URL'' (EnvStr (Text ''space00000'')),
      same ''AUTHORIZER_URL'' (EnvStr NoValue),
      same ''FLOWER_URL'' (EnvStr (Text (''/'' @ realm @ ''/workflow/flower''))),
      same ''DEBUG'' (EnvBool False),
      same ''USE_FILESYSTEM_STORAGE'' (EnvBool False),
      same ''SECRET_KEY'' (EnvStr NoValue),
      same ''ENCRYPTION_KEY'' (EnvStr NoValue),
      same ''PROVISION_MANAGER'' (EnvStr (Text ''rancher'')),
      same ''SERVER_TYPE'' (EnvStr (Text ''local'')),
      same ''HOST_LOCATION'' (EnvStr (Text ''local'')),
      same ''HOST_URL'' (EnvStr (Text ''http://0.0.0.0:8000'')),
      same ''ALLOWED_HOST'' (EnvStr (Text ''*'')),
      same ''DOMAIN_NAME'' (EnvStr (Text ''finmars.com'')),
      same ''REGISTER_ACCESS_KEY'' (EnvStr NoValue),
      same ''INSTALLATION_TYPE'' (EnvStr (Text ''cloud'')),
      same ''BASE_API_URL_PREFIX'' (EnvStr (Text ''0'')),
      same ''VERIFY_SSL'' (EnvBool True),
      same ''LICENSE_SERVER_HOST'' (EnvStr (Text ''https://license.finmars.com''))]"

definition cors_settings :: "entry list" where
  "cors_settings = map (\<lambda>n. same n (EnvBool True)) [''CORS_ALLOW_CREDENTIALS'', ''CORS_ORIGIN_ALLOW_ALL'', ''CORS_ALLOW_ALL_ORIGINS'']"

definition database_settings :: "entry list" where
  "database_settings =
     [(''DATABASES.default.NAME'', ''DB_NAME'', EnvStr NoValue), (''DATABASES.default.USER'', ''DB_USER'', EnvStr NoValue),
      (''DATABASES.default.PASSWORD'', ''DB_PASSWORD'', EnvStr NoValue), (''DATABASES.default.HOST'', ''DB_HOST'', EnvStr NoValue),
      (''DATABASES.default.PORT'', ''DB_PORT'', EnvInt 5432)]"

definition csrf_settings :: "entry list" where
  "csrf_settings = [same ''CSRF_COOKIE_DOMAIN'' (EnvGet (Text ''.finmars.com''))]"

definition log_settings :: "entry list" where
  "log_settings =
     [same ''SEND_LOGS_TO_FINMARS'' (EnvBool False), same ''FINMARS_LOGSTASH_HOST'' (EnvStr (Text ''3.123.159.169'')),
      same ''FINMARS_LOGSTASH_PORT'' (EnvInt 5044)]"

definition email_settings :: "entry list" where
  "email_settings =
     [same ''EMAIL_HOST'' (EnvStr (Text ''email-smtp.eu-west-1.amazonaws.com'')), same ''EMAIL_PORT'' (EnvInt 587),
      same ''EMAIL_HOST_USER'' (EnvStr NoValue), same ''EMAIL_HOST_PASSWORD'' (EnvStr NoValue), same ''EMAIL_USE_TLS'' (EnvBool True)]"

definition celery_settings :: "entry list" where
  "celery_settings =
     [same ''RABBITMQ_HOST'' (EnvStr (Text ''localhost'')), same ''RABBITMQ_PORT'' (EnvInt 5672),
      same ''RABBITMQ_USER'' (EnvStr (Text ''guest'')), same ''RABBITMQ_PASSWORD'' (EnvStr (Text ''guest'')),
      same ''RABBITMQ_VHOST'' (EnvStr (Text [])),
      (''RESULT_BACKEND.USER'', ''DB_USER'', EnvStr NoValue), (''RESULT_BACKEND.PASSWORD'', ''DB_PASSWORD'', EnvStr NoValue),
      (''RESULT_BACKEND.HOST'', ''DB_HOST'', EnvStr NoValue), (''RESULT_BACKEND.PORT'', ''DB_PORT'', EnvInt 5432),
      (''RESULT_BACKEND.NAME'', ''DB_NAME'', EnvStr NoValue),
      same ''CELERY_TASK_TIME_LIMIT'' (EnvInt 90000), same ''CELERY_TASK_SOFT_TIME_LIMIT'' (EnvInt 86400),
      (''CELERY_TASK_DEFAULT_QUEUE'', ''WORKFLOW_QUEUES'', EnvStr (Text ''workflow'')),
      (''CELERY_BROKER_TRANSPORT_OPTIONS.confirm_publish'', ''CELERY_CONFIRM_PUBLISH'', EnvBool True),
      same ''CELERY_TASK_DEFAULT_DELIVERY_MODE'' (EnvStr (Text ''persistent'')),
      same ''CELERY_WORKER_PREFETCH_MULTIPLIER'' (EnvInt 1),
      same ''CELERY_TASK_SEND_SENT_EVENT'' (EnvBool True), same ''CELERY_TASK_ACKS_LATE'' (EnvBool True),
      same ''CELERY_TASK_REJECT_ON_WORKER_LOST'' (EnvBool True),
      same ''CELERY_SEND_EVENTS'' (EnvBool True), same ''CELERY_WORKER_SEND_TASK_EVENTS'' (EnvBool True)]"

definition websocket_settings :: "entry list" where
  "websocket_settings =
     [same ''USE_WEBSOCKETS'' (EnvBool False), same ''WEBSOCKET_HOST'' (EnvStr (Text ''ws://0.0.0.0:6969'')),
      same ''WEBSOCKET_APP_TOKEN'' (EnvStr NoValue)]"

definition storage_settings :: "entry list" where
  "storage_settings =
     [same ''SFTP_STORAGE_HOST'' (EnvStr NoValue), same ''SFTP_STORAGE_ROOT'' (EnvStr (Text ''/finmars/'')), same ''SFTP_PKEY_PATH'' (EnvStr NoValue),
      (''SFTP_STORAGE_PARAMS.username'', ''SFTP_USERNAME'', EnvStr NoValue),
      (''SFTP_STORAGE_PARAMS.password'', ''SFTP_PASSWORD'', EnvStr NoValue), (''SFTP_STORAGE_PARAMS.port'', ''SFTP_PORT'', EnvInt 22)] @
     map (\<lambda>n. same n (EnvStr NoValue))
       [''AWS_S3_ACCESS_KEY_ID'', ''AWS_S3_SECRET_ACCESS_KEY'', ''AWS_STORAGE_BUCKET_NAME'', ''AWS_S3_ENDPOINT_URL'',
        ''AZURE_ACCOUNT_KEY'', ''AZURE_ACCOUNT_NAME'', ''AZURE_CONTAINER'']"

definition keycloak_settings :: "entry list" where
  "keycloak_settings =
     [same ''KEYCLOAK_SERVER_URL'' (EnvGet (Text ''https://eu-central.finmars.com'')), same ''KEYCLOAK_REALM'' (EnvGet (Text ''finmars'')),
      same ''KEYCLOAK_CLIENT_ID'' (EnvGet (Text ''finmars'')), same ''KEYCLOAK_CLIENT_SECRET_KEY'' (EnvGet NoValue)]"

definition edition_settings :: "entry list" where
  "edition_settings =
     [same ''SENTRY_DSN'' (EnvStr NoValue), same ''EDITION_TYPE'' (EnvStr (Text ''entreprise'')),
      same ''ADMIN_USERNAME'' (EnvStr (Text ''admin'')), same ''ADMIN_PASSWORD'' (EnvStr (Text ''password''))]"

definition declarations :: "string \<Rightarrow> entry list" where
  "declarations realm =
     project_settings realm @ cors_settings @ database_settings @ csrf_settings @ log_settings @ email_settings @ celery_settings @
     websocket_settings @ storage_settings @ keycloak_settings @ edition_settings"

definition load_settings :: "environ \<Rightarrow> exc + settings" where
  "load_settings environ = load environ (declarations (realm_of environ))"

section \<open>What is made of them\<close>

definition the_setting :: "settings \<Rightarrow> string \<Rightarrow> setting" where
  "the_setting s k = (case map_of s k of None \<Rightarrow> NoValue | Some v \<Rightarrow> v)"

text \<open>\<^verbatim>\<open>%s\<close>\<close>

definition shown :: "setting \<Rightarrow> string" where
  "shown v =
     (case v of NoValue \<Rightarrow> ''None'' | Text t \<Rightarrow> t | Flag b \<Rightarrow> if b then ''True'' else ''False'' | Number n \<Rightarrow> show_int n | Items ts \<Rightarrow> [] | Seconds n \<Rightarrow> [])"

definition connection_url :: "string \<Rightarrow> settings \<Rightarrow> string list \<Rightarrow> string" where
  "connection_url scheme s ks =
     (case map (\<lambda>k. shown (the_setting s k)) ks of
        [u, pw, host, port, db] \<Rightarrow> scheme @ ''://'' @ u @ '':'' @ pw @ ''@'' @ host @ '':'' @ port @ ''/'' @ db
      | _ \<Rightarrow> [])"

definition CELERY_BROKER_URL :: "settings \<Rightarrow> string" where
  "CELERY_BROKER_URL s =
     connection_url ''amqp'' s [''RABBITMQ_USER'', ''RABBITMQ_PASSWORD'', ''RABBITMQ_HOST'', ''RABBITMQ_PORT'', ''RABBITMQ_VHOST'']"

definition CELERY_RESULT_BACKEND :: "settings \<Rightarrow> string" where
  "CELERY_RESULT_BACKEND s =
     connection_url ''db+postgresql+psycopg2'' s
       [''RESULT_BACKEND.USER'', ''RESULT_BACKEND.PASSWORD'', ''RESULT_BACKEND.HOST'', ''RESULT_BACKEND.PORT'', ''RESULT_BACKEND.NAME'']"

definition ALLOWED_HOSTS :: "settings \<Rightarrow> setting list" where
  "ALLOWED_HOSTS s = [the_setting s ''ALLOWED_HOST'']"

definition CSRF_TRUSTED_ORIGINS :: "environ \<Rightarrow> settings \<Rightarrow> string list" where
  "CSRF_TRUSTED_ORIGINS environ s =
     [''capacitor://localhost'', ''http://localhost'', ''http://127.0.0.1'', ''http://0.0.0.0'',
      ''http://'' @ shown (the_setting s ''DOMAIN_NAME''), ''https://'' @ shown (the_setting s ''DOMAIN_NAME'')] @
     (case env_value environ ''CSRF_TRUSTED_ORIGINS'' of None \<Rightarrow> [] | Some v \<Rightarrow> split_on (CHR '','') v)"

definition STATIC_URL :: "settings \<Rightarrow> string" where
  "STATIC_URL s = shown (the_setting s ''REALM_CODE'') @ ''/workflow/static/''"

definition INSTALLED_APPS :: "string list" where
  "INSTALLED_APPS =
     [''django.contrib.admin'', ''django.contrib.admindocs'', ''django.contrib.auth'', ''django.contrib.contenttypes'',
      ''django.contrib.sessions'', ''django.contrib.messages'', ''django.contrib.staticfiles'', ''django_celery_beat'', ''drf_yasg'',
      ''django_filters'', ''corsheaders'', ''healthcheck'', ''workflow'', ''rest_framework'',
      ''finmars_standardized_errors'', ''debug_toolbar'']"

definition MIDDLEWARE :: "string list" where
  "MIDDLEWARE =
     [''workflow.middleware.RealmAndSpaceMiddleware'', ''workflow.middleware.SentryContextMiddleware'',
      ''django.middleware.security.SecurityMiddleware'', ''django.contrib.sessions.middleware.SessionMiddleware'',
      ''django.middleware.common.CommonMiddleware'', ''django.middleware.csrf.CsrfViewMiddleware'',
      ''django.contrib.auth.middleware.AuthenticationMiddleware'', ''django.contrib.messages.middleware.MessageMiddleware'',
      ''django.middleware.clickjacking.XFrameOptionsMiddleware'', ''whitenoise.middleware.WhiteNoiseMiddleware'',
      ''corsheaders.middleware.CorsMiddleware'', ''finmars_standardized_errors.middleware.ExceptionMiddleware'',
      ''debug_toolbar.middleware.DebugToolbarMiddleware'']"

definition sftp_params :: "settings \<Rightarrow> settings" where
  "sftp_params s =
     [(''username'', the_setting s ''SFTP_STORAGE_PARAMS.username''), (''password'', the_setting s ''SFTP_STORAGE_PARAMS.password''),
      (''port'', the_setting s ''SFTP_STORAGE_PARAMS.port''), (''allow_agent'', Flag False), (''look_for_keys'', Flag False)] @
     (case the_setting s ''SFTP_PKEY_PATH'' of Text p \<Rightarrow> if p = [] then [] else [(''key_filename'', Text p)] | _ \<Rightarrow> [])"

definition SIMPLE_JWT :: "settings \<Rightarrow> settings" where
  "SIMPLE_JWT s =
     [(''ACCESS_TOKEN_LIFETIME'', Seconds (60 * 60)), (''REFRESH_TOKEN_LIFETIME'', Seconds (7 * 86400)),
      (''ROTATE_REFRESH_TOKENS'', Flag True), (''BLACKLIST_AFTER_ROTATION'', Flag False), (''UPDATE_LAST_LOGIN'', Flag True),
      (''ALGORITHM'', Text ''HS256''), (''SIGNING_KEY'', the_setting s ''SECRET_KEY''), (''VERIFYING_KEY'', NoValue),
      (''AUDIENCE'', NoValue), (''ISSUER'', NoValue), (''JWK_URL'', NoValue), (''LEEWAY'', Number 0),
      (''AUTH_HEADER_TYPES'', Text ''Bearer''), (''AUTH_HEADER_NAME'', Text ''HTTP_AUTHORIZATION''), (''USER_ID_FIELD'', Text ''username''),
      (''USER_ID_CLAIM'', Text ''username''), (''AUTH_TOKEN_CLASSES'', Items [''rest_framework_simplejwt.tokens.AccessToken'']),
      (''TOKEN_TYPE_CLAIM'', Text ''token_type''), (''JTI_CLAIM'', Text ''jti''),
      (''SLIDING_TOKEN_REFRESH_EXP_CLAIM'', Text ''refresh_exp''), (''SLIDING_TOKEN_LIFETIME'', Seconds (5 * 60)),
      (''SLIDING_TOKEN_REFRESH_LIFETIME'', Seconds 86400)]"

text \<open>\<^verbatim>\<open>sentry_sdk.init\<close>: the address and the environment it is called with, if it is.\<close>

definition sentry_init :: "settings \<Rightarrow> (string \<times> string) option" where
  "sentry_init s =
     (case the_setting s ''SENTRY_DSN'' of
        Text dsn \<Rightarrow>
          if the_setting s ''SERVER_TYPE'' \<noteq> Text ''local'' \<and> dsn \<noteq> [] then Some (dsn, shown (the_setting s ''SERVER_TYPE'')) else None
      | _ \<Rightarrow> None)"

section \<open>Fixed settings\<close>

text \<open>\<open>base\<close> is \<^verbatim>\<open>BASE_DIR\<close>.\<close>

definition data_settings :: "string \<Rightarrow> settings" where
  "data_settings base = [(''MEDIA_ROOT'', Text (path_join2 base ''finmars_data'')), (''WORKFLOW_STORAGE_ROOT'', Text (path_join2 base ''workflow_storage''))]"

definition sftp_constants :: "string \<Rightarrow> settings" where
  "sftp_constants base = [(''SFTP_STORAGE_INTERACTIVE'', Flag False), (''SFTP_KNOWN_HOST_FILE'', Text (path_join2 base ''.ssh/known_hosts''))]"

definition account_settings :: settings where
  "account_settings =
     [(''AUTH_USER_MODEL'', Text ''workflow.User''), (''DEFAULT_AUTO_FIELD'', Text ''django.db.models.AutoField''),
      (''PASSWORD_HASHERS'', Items [''workflow.hashers.PBKDF2SHA512PasswordHasher'']),
      (''AUTH_PASSWORD_VALIDATORS'', Items
        [''django.contrib.auth.password_validation.UserAttributeSimilarityValidator'',
         ''django.contrib.auth.password_validation.MinimumLengthValidator'',
         ''django.contrib.auth.password_validation.CommonPasswordValidator'',
         ''django.contrib.auth.password_validation.NumericPasswordValidator''])]"

definition static_settings :: "string \<Rightarrow> settings \<Rightarrow> settings" where
  "static_settings base s =
     [(''STATIC_URL'', Text (STATIC_URL s)), (''STATIC_ROOT'', Text (path_join2 base ''static'')),
      (''STATICFILES_DIR'', Items [path_join2 base ''static'', path_join2 (path_join2 base ''static'') ''documentation''])]"

definition language_settings :: settings where
  "language_settings =
     [(''LANGUAGE_CODE'', Text ''en''), (''TIME_ZONE'', Text ''UTC''), (''USE_I18N'', Flag True), (''USE_L10N'', Flag True), (''USE_TZ'', Flag True),
      (''LANGUAGES'', Items [''en''])]"

definition REST_FRAMEWORK :: settings where
  "REST_FRAMEWORK =
     [(''PAGE_SIZE'', Number 40), (''DEFAULT_PAGINATION_CLASS'', Text ''workflow.pagination.PageNumberPaginationExt''),
      (''DEFAULT_AUTHENTICATION_CLASSES'', Items [''workflow.authentication.JWTAuthentication'', ''workflow.authentication.KeycloakAuthentication'']),
      (''EXCEPTION_HANDLER'', Text ''finmars_standardized_errors.handler.exception_handler''),
      (''DEFAULT_FILTER_BACKENDS'', Items [''django_filters.rest_framework.DjangoFilterBackend'']),
      (''DEFAULT_RENDERER_CLASSES'', Items ([''rest_framework.renderers.JSONRenderer''] @
         [''rest_framework.renderers.BrowsableAPIRenderer'', ''rest_framework.renderers.AdminRenderer''])),
      (''DEFAULT_VERSIONING_CLASS'', Text ''rest_framework.versioning.NamespaceVersioning''),
      (''DEFAULT_THROTTLE_RATES.anon'', Text ''20/min''), (''DEFAULT_THROTTLE_RATES.user'', Text ''500/min''), (''SEARCH_PARAM'', Text ''payload'')]"

text \<open>\<^verbatim>\<open>PageNumberPaginationExt.max_page_size\<close>\<close>

definition max_page_size :: int where
  "max_page_size = (case the_setting REST_FRAMEWORK ''PAGE_SIZE'' of Number n \<Rightarrow> n * 10 | _ \<Rightarrow> 0)"

definition celery_constants :: settings where
  "celery_constants =
     [(''CELERY_ENABLE_UTC'', Flag True), (''CELERY_TIMEZONE'', Text ''UTC''),
      (''CELERY_BEAT_SCHEDULER'', Text ''workflow.schedulers:DatabaseScheduler''), (''DJANGO_CELERY_RESULTS_TASK_ID_MAX_LENGTH'', Number 191)]"

section \<open>Logging\<close>

text \<open>Handlers with their levels, and loggers with their levels and handlers.\<close>

record logging =
  log_line :: string
  log_handlers :: "(string \<times> string) list"
  log_loggers :: "(string \<times> string \<times> string list) list"

definition add_handler :: "string \<Rightarrow> string list \<Rightarrow> (string \<times> string \<times> string list) \<Rightarrow> (string \<times> string \<times> string list)" where
  "add_handler h names l = (case l of (n, level, hs) \<Rightarrow> (n, level, if n \<in> set names then hs @ [h] else hs))"

definition LOGGING :: "settings \<Rightarrow> logging" where
  "LOGGING s =
     (let level = shown (the_setting s ''DJANGO_LOG_LEVEL'');
          base =
            \<lparr>log_line = ''['' @ shown (the_setting s ''HOST_LOCATION'') @ ''] ['' @ shown (the_setting s ''REALM_CODE'') @
               ''] [workflow] [%(levelname)s] [%(asctime)s] [%(processName)s] [%(name)s] [%(module)s:%(lineno)d] - %(message)s'',
             log_handlers = [(''console'', level), (''file'', level)],
             log_loggers = [(''django.request'', ''ERROR'', [''console'', ''file'']), (''django'', ''INFO'', [''file'']),
               (''workflow'', level, [''console'', ''file'']), (''celery'', ''INFO'', [''console'', ''file''])]\<rparr>
      in if the_setting s ''SEND_LOGS_TO_FINMARS'' = Flag True then
           base\<lparr>log_handlers := log_handlers base @ [(''logstash'', level)],
                log_loggers := map (add_handler ''logstash'' [''django.request'', ''django'', ''workflow'']) (log_loggers base)\<rparr>
         else base)"

section \<open>Links\<close>

text \<open>\<^verbatim>\<open>workflow\<close>, the context processor of the pages.\<close>

definition url_prefix :: "string option \<Rightarrow> string \<Rightarrow> string" where
  "url_prefix realm space =
     (case given realm of Some r \<Rightarrow> ''/'' @ r @ ''/'' @ space | None \<Rightarrow> ''/'' @ space)"

definition page_context :: "settings \<Rightarrow> string option \<Rightarrow> string \<Rightarrow> settings" where
  "page_context s realm space =
     [(''FLOWER_URL'', the_setting s ''FLOWER_URL''), (''SPACE_CODE'', Text space),
      (''REALM_CODE'', case realm of None \<Rightarrow> NoValue | Some r \<Rightarrow> Text r),
      (''DOCUMENTATION_LINK'', Text (STATIC_URL s @ ''documentation/index.html'')),
      (''API_DOCUMENTATION_LINK'', Text (url_prefix realm space @ ''/workflow/docs/api/'')),
      (''LOG_LINK'', Text (url_prefix realm space @ ''/workflow/api/log'')),
      (''DOMAIN_NAME'', the_setting s ''DOMAIN_NAME'')]"

section \<open>What a process starts with\<close>

text \<open>The variable of an entry can be read.\<close>

definition readable_entry :: "environ \<Rightarrow> entry \<Rightarrow> bool" where
  "readable_entry environ e =
     (case e of (_, name, r) \<Rightarrow>
        (case (env_value environ name, r) of
           (Some v, EnvBool _) \<Rightarrow> v = ''True'' \<or> v = ''False''
         | (Some v, EnvInt _) \<Rightarrow> (\<exists>n. int_of_text v = Inr n)
         | _ \<Rightarrow> True))"

lemma read_env_readable: "(\<exists>v. read_env environ name r = Inr v) \<longleftrightarrow> readable_entry environ (k, name, r)"
  by (auto simp: read_env_def readable_entry_def env_bool_def env_int_def rbind_def split: reader.splits option.splits sum.splits)

lemma load_iff: "(\<exists>s. load environ ds = Inr s) \<longleftrightarrow> list_all (readable_entry environ) ds"
proof (induction ds)
  case (Cons d ds)
  obtain k name r where d: "d = (k, name, r)" by (cases d)
  show ?case
    using Cons.IH read_env_readable [of environ name r k] by (auto simp: d rbind_def split: sum.splits)
qed simp

lemma load_keys: "load environ ds = Inr s \<Longrightarrow> map fst s = map fst ds"
  by (induction ds arbitrary: s) (auto simp: rbind_def split: sum.splits)

lemma load_setting:
  assumes "load environ ds = Inr s" and "distinct (map fst ds)" and "(k, name, r) \<in> set ds"
  shows "read_env environ name r = Inr (the_setting s k)"
  using assms
proof (induction ds arbitrary: s)
  case (Cons d ds)
  obtain k0 n0 r0 where d: "d = (k0, n0, r0)" by (cases d)
  obtain v s' where s: "s = (k0, v) # s'" "read_env environ n0 r0 = Inr v" "load environ ds = Inr s'"
    using Cons.prems(1) by (auto simp: d rbind_def split: sum.splits)
  show ?case
  proof (cases "(k, name, r) = d")
    case True
    then show ?thesis using s by (simp add: d the_setting_def)
  next
    case False
    then have "k \<noteq> k0" "(k, name, r) \<in> set ds" using Cons.prems(2,3) by (auto simp: d image_iff)
    then show ?thesis using Cons.IH [OF s(3)] Cons.prems(2) s(1) by (simp add: the_setting_def)
  qed
qed simp

lemma declarations_distinct: "distinct (map fst (declarations realm))"
proof -
  have "map fst (declarations realm) = map fst (declarations [])"
    by (simp add: declarations_def project_settings_def same_def)
  moreover have "distinct (map fst (declarations []))" by code_simp
  ultimately show ?thesis by simp
qed

text \<open>
  The settings load exactly when every variable that is read as a boolean or a number is unset,
  empty or can be read; and each setting is then its variable, or its default.
\<close>

lemma settings_load_exactly:
  "(\<exists>s. load_settings environ = Inr s) \<longleftrightarrow> list_all (readable_entry environ) (declarations (realm_of environ))"
  "load_settings environ = Inr s \<Longrightarrow> (k, name, r) \<in> set (declarations (realm_of environ)) \<Longrightarrow>
    read_env environ name r = Inr (the_setting s k)"
  by (auto simp: load_settings_def load_iff intro: load_setting [OF _ declarations_distinct])

text \<open>
  The middleware that sets the schema is the first, as its comments ask, so that everything else
  runs in the schema of the request.
\<close>

lemma tenant_first: "hd MIDDLEWARE = ''workflow.middleware.RealmAndSpaceMiddleware''" "MIDDLEWARE ! 1 = ''workflow.middleware.SentryContextMiddleware''"
  by (simp_all add: MIDDLEWARE_def)

text \<open>
  No permission class is named, so that the framework's own default holds for the views of
  \<open>Access\<close>; the authentication classes are the two that theory knows, in its order.
\<close>

lemma rest_framework_defaults:
  "map_of REST_FRAMEWORK ''DEFAULT_PERMISSION_CLASSES'' = None"
  "the_setting REST_FRAMEWORK ''DEFAULT_AUTHENTICATION_CLASSES'' = Items (map (\<lambda>c. case c of
     JWTAuthentication \<Rightarrow> ''workflow.authentication.JWTAuthentication'' | KeycloakAuthentication \<Rightarrow> ''workflow.authentication.KeycloakAuthentication'')
     default_authentication_classes)"
  "max_page_size = 400"
  by (simp_all add: REST_FRAMEWORK_def the_setting_def default_authentication_classes_def max_page_size_def)

text \<open>Only the logger of Celery keeps its records from the remote host.\<close>

lemma remote_loggers:
  assumes "the_setting s ''SEND_LOGS_TO_FINMARS'' = Flag True"
  shows "map fst (filter (\<lambda>(_, _, hs). ''logstash'' \<in> set hs) (log_loggers (LOGGING s))) = [''django.request'', ''django'', ''workflow'']"
  using assms by (simp add: LOGGING_def add_handler_def Let_def)

text \<open>
  The link to the documentation of the API leads there in every tenant; on a page of the old
  kind, whose address has no realm, it leads nowhere.
\<close>

lemma slug_plain: "is_slug s \<Longrightarrow> CHR ''/'' \<notin> set s" "is_slug s \<Longrightarrow> s \<noteq> []"
proof -
  have "\<not> is_word (CHR ''/'')" by code_simp
  then show "is_slug s \<Longrightarrow> CHR ''/'' \<notin> set s" by (auto simp: is_slug_def list_all_iff)
qed (simp add: is_slug_def)

lemma docs_segments:
  "first_match (urlpatterns own_realm) [space, ''workflow'', ''docs'', ''api'', []] = None"
  "is_slug realm \<Longrightarrow> is_slug space \<Longrightarrow>
    first_match (urlpatterns own_realm) [realm, space, ''workflow'', ''docs'', ''api'', []] = Some DocsApi"
  using slug_plain(2)
  by (simp_all add: urlpatterns_def short_index_def api_urls_def api_v1_urls_def after_space_def strip_prefix_def admin_urls_def index_url_def
      get_redoc_urlpatterns_def)

lemma documentation_link:
  assumes "is_slug space"
  shows "resolve own_realm (url_prefix None space @ ''/workflow/docs/api/'') = None"
    and "is_slug realm \<Longrightarrow> resolve own_realm (url_prefix (Some realm) space @ ''/workflow/docs/api/'') = Some DocsApi"
proof -
  have tail: "split_on (CHR ''/'') ''workflow/docs/api/'' = [''workflow'', ''docs'', ''api'', []]" by code_simp
  have space: "split_on (CHR ''/'') (space @ CHR ''/'' # ''workflow/docs/api/'') = [space, ''workflow'', ''docs'', ''api'', []]"
    unfolding split_on_append [OF slug_plain(1) [OF assms]] tail ..
  have "url_prefix None space @ ''/workflow/docs/api/'' = CHR ''/'' # space @ CHR ''/'' # ''workflow/docs/api/''"
    by (simp add: url_prefix_def given_def)
  then show "resolve own_realm (url_prefix None space @ ''/workflow/docs/api/'') = None"
    by (simp only: resolve_def list.case if_True simp_thms space docs_segments(1))
  assume realm: "is_slug realm"
  then have "url_prefix (Some realm) space @ ''/workflow/docs/api/'' = CHR ''/'' # realm @ CHR ''/'' # space @ CHR ''/'' # ''workflow/docs/api/''"
    using slug_plain(2) by (simp add: url_prefix_def given_def)
  then show "resolve own_realm (url_prefix (Some realm) space @ ''/workflow/docs/api/'') = Some DocsApi"
    by (simp only: resolve_def list.case if_True simp_thms split_on_append [OF slug_plain(1) [OF realm]] space docs_segments(2) [OF realm assms])
qed

end
