(* ===== verification/Listing.thy ===== *)
theory Listing
  imports Filters "HOL-Library.Multiset"
begin

text \<open>
  Lists of workflows and of templates: \<^verbatim>\<open>filter_backends\<close> of the two view sets of
  \<^verbatim>\<open>workflow/views.py\<close>, applied one after the other, over the three filters of
  \<^verbatim>\<open>workflow/filters.py\<close>.  The filter of \<^verbatim>\<open>django_filters\<close> that is first and the one of the
  REST framework that orders the rows are parameters.
\<close>

section \<open>Models under the filters\<close>

text \<open>
  What the ORM knows of a model: the moment a row was created, and its columns by their names,
  as texts; a filter on any other name is a \<^verbatim>\<open>FieldError\<close>.
\<close>

record 'r list_model =
  created_at_of :: "'r \<Rightarrow> int"
  text_column :: "string \<Rightarrow> ('r \<Rightarrow> string option) option"
  bool_column :: "string \<Rightarrow> ('r \<Rightarrow> bool) option"

definition column :: "string \<Rightarrow> 'c option \<Rightarrow> exc + 'c" where
  "column name c = or_raise c (Raised ''FieldError'' name)"

definition query_fields :: "string list" where
  "query_fields = [''id'', ''name'', ''user_code'', ''created_at'', ''status'']"

text \<open>\<^verbatim>\<open>WorkflowQueryFilter\<close> on a model: the names are looked up when the condition is used.\<close>

definition query_filter_on :: "'r list_model \<Rightarrow> (string \<Rightarrow> string) \<Rightarrow> string option \<Rightarrow> 'r list \<Rightarrow> exc + 'r list" where
  "query_filter_on m upper q rows =
     (case given q of
        None \<Rightarrow> Inr rows
      | Some ws \<Rightarrow> rbind (traverse (\<lambda>n. column n (text_column m n)) query_fields) (\<lambda>cols. Inr (query_filter upper cols (Some ws) rows)))"

definition search_params_on ::
  "'r list_model \<Rightarrow> (string \<Rightarrow> exc + int) \<Rightarrow> (string \<Rightarrow> exc + bool) \<Rightarrow> search_params \<Rightarrow> 'r list \<Rightarrow> exc + 'r list" where
  "search_params_on m strptime to_bool ps rows =
     rbind (case given (date_from ps) of None \<Rightarrow> Inr rows
            | Some x \<Rightarrow> rbind (strptime x) (\<lambda>d. Inr (filter (\<lambda>r. d \<le> created_at_of m r) rows))) (\<lambda>rows1.
     rbind (case given (date_to ps) of None \<Rightarrow> Inr rows1
            | Some x \<Rightarrow> rbind (strptime x) (\<lambda>d. Inr (filter (\<lambda>r. created_at_of m r \<le> d + (day - 1)) rows1))) (\<lambda>rows2.
     rbind (case given (param_status ps) of None \<Rightarrow> Inr rows2
            | Some x \<Rightarrow> rbind (column ''status'' (text_column m ''status''))
                (\<lambda>col. Inr (filter (\<lambda>r. \<exists>v \<in> set (split_on (CHR '','') x). col r = Some v) rows2))) (\<lambda>rows3.
       case given (param_is_manager ps) of None \<Rightarrow> Inr rows3
       | Some x \<Rightarrow> rbind (column ''is_manager'' (bool_column m ''is_manager''))
           (\<lambda>col. rbind (to_bool x) (\<lambda>b. Inr (filter (\<lambda>r. col r = b) rows3))))))"

definition workflow_model :: "(workflow_row \<Rightarrow> int) \<Rightarrow> (workflow_row \<Rightarrow> string) \<Rightarrow> workflow_row list_model" where
  "workflow_model created created_text =
     \<lparr>created_at_of = created,
      text_column = map_of (zip query_fields (workflow_columns created_text)),
      bool_column = map_of [(''is_manager'', is_manager)]\<rparr>"

definition template_model :: "(template_row \<Rightarrow> int) \<Rightarrow> (template_row \<Rightarrow> string) \<Rightarrow> template_row list_model" where
  "template_model created created_text =
     \<lparr>created_at_of = created,
      text_column = map_of [(''id'', \<lambda>t. Some (show_nat (tp_id t))), (''name'', tp_name), (''user_code'', tp_user_code),
        (''created_at'', \<lambda>t. Some (created_text t))],
      bool_column = Map.empty\<rparr>"

section \<open>The lists\<close>

record 'r list_site =
  site_upper :: "string \<Rightarrow> string"
  site_matches :: "string \<Rightarrow> string \<Rightarrow> bool"
  site_strptime :: "string \<Rightarrow> exc + int"
  site_to_bool :: "string \<Rightarrow> exc + bool"
  django_filter :: "'r list \<Rightarrow> exc + 'r list"
  ordering :: "'r list \<Rightarrow> 'r list"

record list_request =
  list_params :: search_params
  list_query :: "string option"
  search_terms :: "string list"

type_synonym 'r backend = "'r list \<Rightarrow> exc + 'r list"

fun filter_queryset :: "'r backend list \<Rightarrow> 'r backend" where
  "filter_queryset [] rows = Inr rows"
| "filter_queryset (b # bs) rows = rbind (b rows) (filter_queryset bs)"

definition filter_backends :: "'r list_model \<Rightarrow> ('r \<Rightarrow> string option) list \<Rightarrow> 'r list_site \<Rightarrow> list_request \<Rightarrow> 'r backend list" where
  "filter_backends m search_fields x req =
     [django_filter x] @
     [search_params_on m (site_strptime x) (site_to_bool x) (list_params req),
      query_filter_on m (site_upper x) (list_query req),
      Inr \<circ> whole_words_filter (site_matches x) search_fields (search_terms req),
      Inr \<circ> ordering x]"

definition list_workflows ::
  "(workflow_row \<Rightarrow> int) \<Rightarrow> (workflow_row \<Rightarrow> string) \<Rightarrow> workflow_row list_site \<Rightarrow> list_request \<Rightarrow> workflow_row backend" where
  "list_workflows created text_of x req =
     filter_queryset (filter_backends (workflow_model created text_of) [wf_payload_data] x req)"

text \<open>\<open>data_text\<close> is the text the database keeps of the JSON column \<^verbatim>\<open>data\<close>.\<close>

definition list_templates ::
  "(template_row \<Rightarrow> int) \<Rightarrow> (template_row \<Rightarrow> string) \<Rightarrow> (template_row \<Rightarrow> string option) \<Rightarrow> template_row list_site \<Rightarrow> list_request \<Rightarrow>
    template_row backend" where
  "list_templates created text_of data_text x req =
     filter_queryset (filter_backends (template_model created text_of) [data_text] x req)"

section \<open>What a list shows\<close>

definition reads :: "('v \<Rightarrow> exc + 'a) \<Rightarrow> 'v option \<Rightarrow> bool" where
  "reads f v = (case v of None \<Rightarrow> True | Some x \<Rightarrow> (case f x of Inl _ \<Rightarrow> False | Inr _ \<Rightarrow> True))"

definition meets :: "('v \<Rightarrow> exc + 'a) \<Rightarrow> 'v option \<Rightarrow> ('a \<Rightarrow> bool) \<Rightarrow> bool" where
  "meets f v holds = (case v of None \<Rightarrow> True | Some x \<Rightarrow> (case f x of Inl _ \<Rightarrow> False | Inr a \<Rightarrow> holds a))"

definition params_read :: "'r list_site \<Rightarrow> search_params \<Rightarrow> bool" where
  "params_read x ps \<longleftrightarrow> reads (site_strptime x) (given (date_from ps)) \<and> reads (site_strptime x) (given (date_to ps)) \<and>
     reads (site_to_bool x) (given (param_is_manager ps))"

definition params_hold :: "'r list_site \<Rightarrow> (workflow_row \<Rightarrow> int) \<Rightarrow> search_params \<Rightarrow> workflow_row \<Rightarrow> bool" where
  "params_hold x created ps w \<longleftrightarrow>
     meets (site_strptime x) (given (date_from ps)) (\<lambda>d. d \<le> created w) \<and>
     meets (site_strptime x) (given (date_to ps)) (\<lambda>d. created w < d + day) \<and>
     meets Inr (given (param_status ps)) (\<lambda>v. wf_status_str (wf_status w) \<in> set (split_on (CHR '','') v)) \<and>
     meets (site_to_bool x) (given (param_is_manager ps)) (\<lambda>b. is_manager w = b)"

definition query_holds :: "(string \<Rightarrow> string) \<Rightarrow> (workflow_row \<Rightarrow> string) \<Rightarrow> string option \<Rightarrow> workflow_row \<Rightarrow> bool" where
  "query_holds upper text_of q w \<longleftrightarrow>
     meets Inr (given q) (\<lambda>ws. \<exists>col \<in> set (workflow_columns text_of). \<exists>v. col w = Some v \<and>
       (\<forall>piece \<in> set (split_on (CHR '' '') ws). contains (upper piece) (upper v)))"

definition words_hold :: "(string \<Rightarrow> string \<Rightarrow> bool) \<Rightarrow> string list \<Rightarrow> workflow_row \<Rightarrow> bool" where
  "words_hold matches terms w \<longleftrightarrow> (\<forall>tm \<in> set terms. \<exists>v. wf_payload_data w = Some v \<and> matches tm v)"

lemma query_columns:
  "traverse (\<lambda>n. column n (text_column (workflow_model created text_of) n)) query_fields = Inr (workflow_columns text_of)"
  by (simp add: query_fields_def workflow_model_def workflow_columns_def column_def)

text \<open>One step of the filters by parameters: an optional parameter narrows the rows, or fails to read.\<close>

lemma narrow_exact:
  "(case v of None \<Rightarrow> Inr rows | Some x \<Rightarrow> rbind (f x) (\<lambda>a. Inr (filter (holds a) rows))) =
    (if reads f v then Inr (filter (\<lambda>r. meets f v (\<lambda>a. holds a r)) rows) else Inl (projl (f (the v))))"
  by (auto simp: reads_def meets_def rbind_def split: option.splits sum.splits)

lemma model_columns [simp]:
  "column ''status'' (text_column (workflow_model created text_of) ''status'') = Inr (\<lambda>w. Some (wf_status_str (wf_status w)))"
  "column ''is_manager'' (bool_column (workflow_model created text_of) ''is_manager'') = Inr is_manager"
  "created_at_of (workflow_model created text_of) = created"
  by (simp_all add: workflow_model_def column_def query_fields_def workflow_columns_def)

lemma search_params_exact:
  "(if params_read x ps
    then search_params_on (workflow_model created text_of) (site_strptime x) (site_to_bool x) ps rows = Inr (filter (params_hold x created ps) rows)
    else \<exists>e. search_params_on (workflow_model created text_of) (site_strptime x) (site_to_bool x) ps rows = Inl e)"
proof -
  let ?P = "\<lambda>w. meets (site_strptime x) (given (date_from ps)) (\<lambda>d. d \<le> created w)"
  let ?Q = "\<lambda>w. meets (site_strptime x) (given (date_to ps)) (\<lambda>d. created w \<le> d + (day - 1))"
  let ?R = "\<lambda>w. meets Inr (given (param_status ps)) (\<lambda>v. wf_status_str (wf_status w) \<in> set (split_on (CHR '','') v))"
  let ?S = "\<lambda>w. meets (site_to_bool x) (given (param_is_manager ps)) (\<lambda>b. is_manager w = b)"
  have status: "(case given (param_status ps) of None \<Rightarrow> Inr rs
      | Some v \<Rightarrow> rbind (Inr (\<lambda>w. Some (wf_status_str (wf_status w)))) (\<lambda>col. Inr (filter (\<lambda>r. \<exists>u \<in> set (split_on (CHR '','') v). col r = Some u) rs)))
    = Inr (filter ?R rs)" for rs :: "workflow_row list"
    by (auto simp: meets_def split: option.splits)
  have kind: "(case given (param_is_manager ps) of None \<Rightarrow> Inr rs
      | Some v \<Rightarrow> rbind (Inr is_manager) (\<lambda>col. rbind (site_to_bool x v) (\<lambda>b. Inr (filter (\<lambda>r. col r = b) rs))))
    = (if reads (site_to_bool x) (given (param_is_manager ps)) then Inr (filter ?S rs)
       else Inl (projl (site_to_bool x (the (given (param_is_manager ps))))))" for rs
    by (auto simp: meets_def reads_def rbind_def split: option.splits sum.splits)
  have "params_hold x created ps = (\<lambda>w. ?P w \<and> ?Q w \<and> ?R w \<and> ?S w)"
    by (auto simp: params_hold_def meets_def fun_eq_iff split: option.splits sum.splits)
  then show ?thesis
    unfolding search_params_on_def model_columns status kind
    by (auto simp: params_read_def narrow_exact intro!: filter_cong split: if_splits)
qed

lemma query_filter_on_exact:
  "query_filter_on (workflow_model created text_of) upper q rows = Inr (filter (query_holds upper text_of q) rows)"
proof (cases "given q")
  case (Some ws)
  then have "ws \<noteq> []" by (auto simp: given_def split: option.splits if_splits)
  then show ?thesis
    using Some by (simp add: query_filter_on_def query_columns query_filter_exact workflow_columns_def query_holds_def meets_def cong: filter_cong)
qed (simp add: query_filter_on_def query_holds_def meets_def)


text \<open>
  The same filters on templates: a template has no status, so that every list of templates with
  a query or a status fails.
\<close>

lemma template_query_fails:
  assumes "django_filter x rows = Inr rs" and "given (list_query req) = Some q"
    and "list_params req = \<lparr>date_from = None, date_to = None, param_status = None, param_is_manager = None\<rparr>"
  shows "list_templates created text_of data_text x req rows = Inl (Raised ''FieldError'' ''status'')"
  using assms
  by (simp add: list_templates_def filter_backends_def search_params_on_def query_filter_on_def given_def [of None] query_fields_def
      template_model_def column_def or_raise_def)

definition sample_list :: "workflow_row list_site" where
  "sample_list = \<lparr>site_upper = ascii_lower, site_matches = contains, site_strptime = (\<lambda>v. if v = ''day'' then Inr 0 else Inl (Raised ''ValueError'' v)),
     site_to_bool = (\<lambda>v. Inr (v = ''True'')), django_filter = Inr, ordering = rev\<rparr>"


end
