(* ===== verification/Scheduling.thy ===== *)
theory Scheduling
  imports Control
begin

text \<open>
  Periodic execution: \<^verbatim>\<open>models.py:Schedule\<close>, \<^verbatim>\<open>utils.py:build_celery_schedule\<close>,
  \<^verbatim>\<open>schedulers.py:DatabaseScheduler\<close>, the parts of the manager that fill the beat schedule
  and cancel what a stopped worker left (\<^verbatim>\<open>system.py\<close>, \<^verbatim>\<open>cancel_existing_tasks.py\<close>), and
  the periodic export task.  What Celery accepts as a crontab is a parameter.
\<close>

section \<open>Crontab lines\<close>

definition crontab_line :: "crontab_row option \<Rightarrow> string option" where
  "crontab_line c =
     (case c of
        None \<Rightarrow> None
      | Some r \<Rightarrow> Some (join '' '' [cron_minute r, cron_hour r, cron_day_of_month r, cron_month_of_year r, cron_day_of_week r]))"

text \<open>
  The setter: Celery's \<^verbatim>\<open>crontab\<close> checks the fields (the parameter), and \<^verbatim>\<open>from_schedule\<close>
  gives an object with the same fields that is not stored yet.
\<close>

definition set_crontab_line :: "(string list \<Rightarrow> exc option) \<Rightarrow> string \<Rightarrow> exc + crontab_row" where
  "set_crontab_line crontab value =
     (case split_on (CHR '' '') value of
        [m, h, d, mo, wd] \<Rightarrow>
          (case crontab [m, h, d, mo, wd] of
             Some e \<Rightarrow> Inl e
           | None \<Rightarrow> Inr \<lparr>cron_id = 0, cron_minute = m, cron_hour = h, cron_day_of_month = d,
                          cron_month_of_year = mo, cron_day_of_week = wd\<rparr>)
      | _ \<Rightarrow> Inl ValueError)"

section \<open>Schedule.save\<close>

definition same_crontab :: "crontab_row \<Rightarrow> crontab_row \<Rightarrow> bool" where
  "same_crontab a b \<longleftrightarrow> a\<lparr>cron_id := 0\<rparr> = b\<lparr>cron_id := 0\<rparr>"

definition get_or_create_crontab :: "crontab_row \<Rightarrow> crontab_row io" where
  "get_or_create_crontab c =
     bind (db_query (\<lambda>d. Inr (objects_get (same_crontab c) (crontabs d)))) (\<lambda>found.
       case found of
         Inr r \<Rightarrow> ret r
       | Inl e \<Rightarrow>
           if e = DoesNotExist then
             bind (db_query (\<lambda>d. Inr (Suc (row_seq d)))) (\<lambda>i.
             seq (db_update (\<lambda>d. d\<lparr>crontabs := crontabs d @ [c\<lparr>cron_id := i\<rparr>], row_seq := i\<rparr>))
               (ret (c\<lparr>cron_id := i\<rparr>)))
           else throw e)"

definition schedule_args :: "space_row \<Rightarrow> schedule_row \<Rightarrow> json" where
  "schedule_args sp r =
     JList [JStr (space_code sp @ ''.'' @ workflow_user_code r), sched_payload r, JBool (sched_is_manager r)]"

definition schedule_kwargs :: "space_row \<Rightarrow> nat \<Rightarrow> nat \<Rightarrow> json" where
  "schedule_kwargs sp cron i =
     JObj [(''context'', JObj [(''realm_code'', opt_str (realm_code sp)), (''space_code'', JStr (space_code sp))]),
           (''crontab_id'', JInt (int cron)), (''schedule_id'', JInt (int i))]"

definition put_schedule :: "schedule_row \<Rightarrow> unit io" where
  "put_schedule r = db_update (\<lambda>d. d\<lparr>schedules := save_row sched_id r (schedules d)\<rparr>)"

text \<open>The columns \<^verbatim>\<open>save\<close> sets first.\<close>

definition prepared :: "space_row \<Rightarrow> crontab_row option \<Rightarrow> schedule_row \<Rightarrow> schedule_row" where
  "prepared sp cron r =
     r\<lparr>sched_queue := Some ''workflow'', sched_task := ''workflow.tasks.workflows.execute'',
       sched_name := (if sched_name r = []
         then ''periodic-'' @ space_code sp @ ''.'' @ workflow_user_code r @ ''-''
                @ (case crontab_line cron of None \<Rightarrow> ''None'' | Some l \<Rightarrow> l)
         else sched_name r),
       sched_args := dumps_plain (schedule_args sp r)\<rparr>"

text \<open>
  A new object (its id is 0) is inserted first, so that its id can be part of the keyword
  arguments, which a second save stores.
\<close>

definition store_schedule :: "space_row \<Rightarrow> nat \<Rightarrow> schedule_row \<Rightarrow> schedule_row io" where
  "store_schedule sp cron r =
     (if sched_id r = 0 then
        bind (db_query (\<lambda>d. Inr (Suc (row_seq d)))) (\<lambda>i.
          seq (db_update (\<lambda>d. d\<lparr>schedules := schedules d @ [r\<lparr>sched_id := i\<rparr>], row_seq := i\<rparr>))
          (seq (put_schedule (r\<lparr>sched_id := i, sched_kwargs := dumps_plain (schedule_kwargs sp cron i)\<rparr>))
            (ret (r\<lparr>sched_id := i, sched_kwargs := dumps_plain (schedule_kwargs sp cron i)\<rparr>))))
      else
        seq (put_schedule (r\<lparr>sched_kwargs := dumps_plain (schedule_kwargs sp cron (sched_id r))\<rparr>))
          (ret (r\<lparr>sched_kwargs := dumps_plain (schedule_kwargs sp cron (sched_id r))\<rparr>)))"

text \<open>\<^verbatim>\<open>save\<close> of an object whose crontab may not be stored yet.\<close>

definition save_schedule :: "schedule_row \<Rightarrow> crontab_row option \<Rightarrow> schedule_row io" where
  "save_schedule r cron =
     bind (get_space_row (sched_space r)) (\<lambda>sp.
     bind (lift (or_raise cron AttributeError)) (\<lambda>c0.
     bind (get_or_create_crontab c0) (\<lambda>c.
       store_schedule sp (cron_id c) ((prepared sp cron r)\<lparr>sched_crontab := Some (cron_id c)\<rparr>))))"

section \<open>The beat schedule of the definitions\<close>

datatype beat_interval = Seconds json | Crontab "string list"

text \<open>
  \<^verbatim>\<open>float\<close> is a parameter (\<^verbatim>\<open>Inl ValueError\<close> for a text that is no number); the legacy key
  has the day of the week in third place.
\<close>

definition five :: "json \<Rightarrow> exc + string list" where
  "five v =
     (case v of
        JStr s \<Rightarrow> (case split_on (CHR '' '') s of [a, b, c, d, e] \<Rightarrow> Inr [a, b, c, d, e] | _ \<Rightarrow> Inl ValueError)
      | _ \<Rightarrow> Inl AttributeError)"

definition handle_schedule ::
  "(json \<Rightarrow> exc + json) \<Rightarrow> (string list \<Rightarrow> exc option) \<Rightarrow> json \<Rightarrow> exc + beat_interval" where
  "handle_schedule to_float crontab v =
     (case to_float v of
        Inr f \<Rightarrow> Inr (Seconds f)
      | Inl e \<Rightarrow>
          if e \<noteq> ValueError then Inl e
          else rbind (five v) (\<lambda>fs.
            let gs = [fs ! 0, fs ! 1, fs ! 3, fs ! 4, fs ! 2]
            in case crontab gs of Some x \<Rightarrow> Inl x | None \<Rightarrow> Inr (Crontab gs)))"

definition handle_crontab :: "(string list \<Rightarrow> exc option) \<Rightarrow> json \<Rightarrow> exc + beat_interval" where
  "handle_crontab crontab v =
     rbind (five v) (\<lambda>fs. case crontab fs of Some x \<Rightarrow> Inl x | None \<Rightarrow> Inr (Crontab fs))"

definition build_celery_schedule ::
  "(json \<Rightarrow> exc + json) \<Rightarrow> (string list \<Rightarrow> exc option) \<Rightarrow> string \<Rightarrow> (string, json) dict \<Rightarrow> exc + (json \<times> beat_interval)" where
  "build_celery_schedule to_float crontab name data =
     (case filter (\<lambda>k. k \<noteq> ''payload'') (keys data) of
        [k] \<Rightarrow>
          (case map_of data k of
             None \<Rightarrow> Inl (KeyError k)
           | Some v \<Rightarrow>
               if k \<notin> {''schedule'', ''crontab'', ''interval''} then Inl (WorkflowSyntaxError (Some name))
               else (case (if k = ''schedule'' then handle_schedule to_float crontab v
                           else if k = ''crontab'' then handle_crontab crontab v
                           else rbind (to_float v) (\<lambda>f. Inr (Seconds f))) of
                       Inl _ \<Rightarrow> Inl (WorkflowSyntaxError (Some name))
                     | Inr b \<Rightarrow> Inr (v, b)))
      | _ \<Rightarrow> Inl (WorkflowSyntaxError (Some name)))"

record beat_entry =
  beat_interval :: beat_interval
  beat_args :: json
  beat_context :: json

text \<open>One definition of \<^verbatim>\<open>init_periodic_tasks\<close>; \<open>str\<close> prints the value under the key.\<close>

definition beat_of_definition ::
  "(json \<Rightarrow> exc + json) \<Rightarrow> (string list \<Rightarrow> exc option) \<Rightarrow> (json \<Rightarrow> string) \<Rightarrow> string \<times> json \<Rightarrow> exc + (string \<times> beat_entry) list" where
  "beat_of_definition to_float crontab str_of item =
     rbind (subscript (snd item) ''workflow'') (\<lambda>w.
     rbind (dict_get w ''is_manager'' (JBool False)) (\<lambda>manager.
     rbind (is_in ''periodic'' w) (\<lambda>b.
       if \<not> b then Inr []
       else rbind (subscript w ''periodic'') (\<lambda>conf.
         case conf of
           JObj ps \<Rightarrow>
             rbind (build_celery_schedule to_float crontab (fst item) ps) (\<lambda>(v, iv).
             rbind (as_str (case map_of ps ''payload'' of None \<Rightarrow> JStr ''{}'' | Some v \<Rightarrow> v)) (\<lambda>pl.
             rbind (json_loads pl) (\<lambda>payload_value.
             rbind (subscript w ''realm_code'') (\<lambda>realm.
             rbind (subscript w ''space_code'') (\<lambda>space.
               Inr [(''periodic-'' @ fst item @ ''-'' @ str_of v,
                     \<lparr>beat_interval = iv, beat_args = JList [JStr (fst item), payload_value, manager],
                      beat_context = JObj [(''realm_code'', realm), (''space_code'', space)]\<rparr>)])))))
         | _ \<Rightarrow> Inl AttributeError))))"

text \<open>The entries added before a definition fails stay in the beat schedule.\<close>

definition init_periodic_tasks ::
  "(json \<Rightarrow> exc + json) \<Rightarrow> (string list \<Rightarrow> exc option) \<Rightarrow> (json \<Rightarrow> string) \<Rightarrow> (string, json) dict \<Rightarrow>
    ((string, beat_entry) dict, unit) comp" where
  "init_periodic_tasks to_float crontab str_of defs =
     for_each defs (\<lambda>item.
       bind (lift (beat_of_definition to_float crontab str_of item)) (\<lambda>es.
         modify (\<lambda>beat. foldl (\<lambda>d (k, v). AList.update k v d) beat es)))"

section \<open>The scheduler over all schemas\<close>

definition schema_context :: "string \<Rightarrow> task_context option" where
  "schema_context name = Some \<lparr>ctx_realm_code = None, ctx_space_code = Some name\<rparr>"

text \<open>\<^verbatim>\<open>all_as_schedule\<close>; \<open>entry\<close> is the entry of the library, which may raise.\<close>

definition add_entries ::
  "(schedule_row \<Rightarrow> exc + 'e) \<Rightarrow> string \<Rightarrow> schedule_row list \<Rightarrow> (string, 'e) dict \<Rightarrow> exc + (string, 'e) dict" where
  "add_entries entry schema rs acc =
     foldl (\<lambda>st r. rbind st (\<lambda>d.
       case entry r of
         Inr e \<Rightarrow> Inr (AList.update (schema @ '':'' @ sched_name r) e d)
       | Inl e \<Rightarrow> if e = ValueError then Inr d else Inl e)) (Inr acc) rs"

fun schedule_of_schemas :: "(schedule_row \<Rightarrow> exc + 'e) \<Rightarrow> string list \<Rightarrow> (string, 'e) dict \<Rightarrow> (string, 'e) dict io" where
  "schedule_of_schemas entry [] acc = ret acc"
| "schedule_of_schemas entry (x # xs) acc =
     seq (set_schema_from_context (schema_context x))
     (bind (db_query (\<lambda>d. Inr (filter sched_enabled (schedules d)))) (\<lambda>rs.
      bind (lift (add_entries entry x rs acc)) (schedule_of_schemas entry xs)))"

definition all_as_schedule :: "(schedule_row \<Rightarrow> exc + 'e) \<Rightarrow> (string, 'e) dict io" where
  "all_as_schedule entry = bind get_all_tenant_schemas (\<lambda>xs. schedule_of_schemas entry xs [])"

text \<open>
  \<^verbatim>\<open>schedule_changed\<close>: \<open>last_change\<close> is the library's time stamp of the schema in use, and the
  state next to the world is \<^verbatim>\<open>self._last_timestamp\<close>.  The loop gives the newest stamp, or
  nothing when the database fails.
\<close>

fun newest_change :: "(world \<Rightarrow> exc + nat option) \<Rightarrow> string list \<Rightarrow> nat option \<Rightarrow> (nat option) option io" where
  "newest_change last_change [] ts = ret (Some ts)"
| "newest_change last_change (x # xs) ts =
     seq (set_schema_from_context (schema_context x))
     (bind (query last_change) (\<lambda>r.
        case r of
          Inl e \<Rightarrow> if e = DatabaseError \<or> e = Raised ''InterfaceError'' [] then ret None else throw e
        | Inr None \<Rightarrow> newest_change last_change xs ts
        | Inr (Some t) \<Rightarrow>
            newest_change last_change xs (case ts of None \<Rightarrow> Some t | Some u \<Rightarrow> Some (max u t))))"

definition schedule_changed :: "(world \<Rightarrow> exc + nat option) \<Rightarrow> nat option \<Rightarrow> (bool \<times> nat option) io" where
  "schedule_changed last_change last_stamp =
     bind get_all_tenant_schemas (\<lambda>xs.
     bind (newest_change last_change xs None) (\<lambda>r.
       case r of
         None \<Rightarrow> ret (False, last_stamp)
       | Some ts \<Rightarrow>
           ret (case ts of
                  None \<Rightarrow> False
                | Some t \<Rightarrow> (case last_stamp of None \<Rightarrow> False | Some l \<Rightarrow> l < t), ts)))"

section \<open>Tasks of a worker that is gone\<close>

definition task_of_worker :: "task_status set \<Rightarrow> string \<Rightarrow> task_row \<Rightarrow> bool" where
  "task_of_worker sts name t \<longleftrightarrow> task_status t \<in> sts \<and> worker_name t = Some name"

definition cancel_left_task :: "task_row \<Rightarrow> unit io" where
  "cancel_left_task t =
     seq (case celery_task_id t of None \<Rightarrow> ret () | Some _ \<Rightarrow> emit (Revoke (celery_task_id t)))
     (bind now (\<lambda>time. save_task (mark_task_as_finished time (t\<lparr>task_status := TCanceled\<rparr>))))"

definition cancel_all_existing_tasks :: "env \<Rightarrow> string \<Rightarrow> unit io" where
  "cancel_all_existing_tasks env name =
     bind (db_query (\<lambda>d. Inr (map task_workflow (filter (task_of_worker {TProgress, TInit} name) (tasks d))))) (\<lambda>ids.
     bind (db_query (\<lambda>d. Inr (rev (filter (\<lambda>w. wf_status w \<in> {WProgress, WInit} \<and> wf_id w \<in> set ids) (workflows d))))) (\<lambda>ws.
     seq (for_each ws (cancel env))
     (bind (db_query (\<lambda>d. Inr (rev (filter (task_of_worker {TProgress, TInit, TNestedProgress} name) (tasks d))))) (\<lambda>ts.
        for_each ts cancel_left_task))))"

text \<open>The command \<^verbatim>\<open>cancel_existing_tasks\<close>: over all schemas, back to the public one, any failure printed.\<close>

definition cancel_existing_tasks :: "env \<Rightarrow> string \<Rightarrow> unit io" where
  "cancel_existing_tasks env name =
     catch
       (bind get_all_tenant_schemas (\<lambda>xs.
        seq (for_each xs (\<lambda>x. seq (set_search_path x) (cancel_all_existing_tasks env name)))
          (set_search_path ''public'')))
       (\<lambda>_. ret ())"

section \<open>The periodic export\<close>

text \<open>\<^verbatim>\<open>call_export_backend_historical_records\<close>; the date 90 days ago is the argument.\<close>

definition call_export_backend_historical_records :: "env \<Rightarrow> string \<Rightarrow> unit io" where
  "call_export_backend_historical_records env date_to =
     bind (get_refresh_token default_ttl) (\<lambda>tok.
     bind first_space (\<lambda>sp.
     bind (request env POST (space_url env sp ''/api/v1/history/historical-record/export/'')
            (JObj [(''date_to'', JStr date_to)]) (Some tok)) (\<lambda>r.
       if status_code r \<noteq> 200 then throw (Raised ''Exception'' (response_text r)) else ret ())))"

section \<open>What a schedule stores\<close>

lemma loads_plain: "jwf v \<Longrightarrow> json_loads (dumps_plain v) = Inr v"
  by (rule text_plain.loads_dumps)

lemma jwf_opt_str [simp]: "jwf (opt_str x)"
  by (cases x) (simp_all add: opt_str_def)

lemma jwf_schedule [simp]: "jwf (schedule_kwargs sp c i)" "jwf (sched_payload r) \<Longrightarrow> jwf (schedule_args sp r)"
  by (simp_all add: schedule_kwargs_def schedule_args_def)

lemma store_schedule_run:
  assumes "store_schedule sp c r s = (Inr r', t)"
  shows "r' = r\<lparr>sched_id := sched_id r', sched_kwargs := dumps_plain (schedule_kwargs sp c (sched_id r'))\<rparr> \<and>
    (\<exists>d d'. cur_db s = Some d \<and> cur_db t = Some d' \<and> search_path t = search_path s \<and> spaces d' = spaces d \<and>
       find_row sched_id (sched_id r') (schedules d') = Some r')"
  using assms
  by (auto simp: store_schedule_def bind_run seq_run db_query_run db_update_def put_schedule_def cur_db_def
      find_row_save_row split: if_splits option.splits)

lemma get_or_create_crontab_run:
  assumes "get_or_create_crontab c0 s = (Inr c, t)" and "cur_db s = Some d"
  shows "\<exists>d'. cur_db t = Some d' \<and> spaces d' = spaces d \<and> schedules d' = schedules d"
  using assms
  by (auto simp: get_or_create_crontab_def bind_run seq_run db_query_run db_update_def cur_db_def
      split: sum.splits if_splits option.splits)

lemma save_schedule_result:
  assumes "save_schedule r cron s = (Inr r', t)"
  shows "\<exists>sp c d'. r' = (prepared sp cron r)\<lparr>sched_crontab := Some c, sched_id := sched_id r',
       sched_kwargs := dumps_plain (schedule_kwargs sp c (sched_id r'))\<rparr> \<and>
    cur_db t = Some d' \<and> find_row sched_id (sched_id r') (schedules d') = Some r' \<and>
    find_row space_id (sched_space r) (spaces d') = Some sp"
proof -
  from assms obtain sp c0 c s1 d where d: "cur_db s = Some d" "find_row space_id (sched_space r) (spaces d) = Some sp"
    and c: "get_or_create_crontab c0 s = (Inr c, s1)"
    and st: "store_schedule sp (cron_id c) ((prepared sp cron r)\<lparr>sched_crontab := Some (cron_id c)\<rparr>) s1 = (Inr r', t)"
    by (auto simp: save_schedule_def bind_run get_space_row_def db_query_run)
  from store_schedule_run [OF st] get_or_create_crontab_run [OF c d(1)] d(2) show ?thesis by fastforce
qed

text \<open>
  The message beat publishes for a stored row: Celery passes the decoded positional and
  keyword arguments to \<^verbatim>\<open>execute\<close>.
\<close>

definition beat_message :: "schedule_row \<Rightarrow> message option" where
  "beat_message r =
     (case (json_loads (sched_args r), json_loads (sched_kwargs r)) of
        (Inr (JList [JStr code, pl, JBool manager]),
         Inr (JObj [(_, JObj [(_, realm), (_, JStr space)]), (_, JInt cron), (_, JInt i)])) \<Rightarrow>
          Some (Execute code pl manager
            \<lparr>ctx_realm_code = (case realm of JStr x \<Rightarrow> Some x | _ \<Rightarrow> None), ctx_space_code = Some space\<rparr>
            (Some (nat cron)) (nat i))
      | _ \<Rightarrow> None)"

text \<open>
  C20: what \<^verbatim>\<open>Schedule.save\<close> stores is what a manual run sends: for every enabled schedule that
  was saved, running it by hand answers 202 and publishes exactly the message that the
  decoded arguments of the stored row make beat publish.
\<close>

theorem saved_schedule_runs_alike:
  assumes "save_schedule r cron s = (Inr r', t)" and "jwf (sched_payload r)" and "sched_enabled r"
  shows "\<exists>m resp u. beat_message r' = Some m \<and> run_manual env (sched_id r') t = (Inr resp, u) \<and>
    resp_status resp = 202 \<and> queue u = queue t @ [m]"
proof -
  from save_schedule_result [OF assms(1)] obtain sp c d' where
    r': "r' = (prepared sp cron r)\<lparr>sched_crontab := Some c, sched_id := sched_id r',
       sched_kwargs := dumps_plain (schedule_kwargs sp c (sched_id r'))\<rparr>"
    and d': "cur_db t = Some d'" "find_row sched_id (sched_id r') (schedules d') = Some r'"
      "find_row space_id (sched_space r) (spaces d') = Some sp" by blast
  have cols: "sched_args r' = dumps_plain (schedule_args sp r)" "sched_kwargs r' = dumps_plain (schedule_kwargs sp c (sched_id r'))"
      "sched_crontab r' = Some c" "sched_space r' = sched_space r" "workflow_user_code r' = workflow_user_code r"
      "sched_payload r' = sched_payload r" "sched_is_manager r' = sched_is_manager r" "sched_enabled r' = sched_enabled r"
    by (subst r', simp add: prepared_def)+
  let ?m = "Execute (space_code sp @ ''.'' @ workflow_user_code r) (sched_payload r) (sched_is_manager r)
      (context_of sp) (Some c) (sched_id r')"
  have "json_loads (sched_args r') = Inr (schedule_args sp r)"
      "json_loads (sched_kwargs r') = Inr (schedule_kwargs sp c (sched_id r'))"
    using assms(2) by (simp_all add: cols loads_plain)
  then have "beat_message r' = Some ?m"
    by (simp add: beat_message_def schedule_args_def schedule_kwargs_def context_of_def opt_str_def split: option.splits)
  moreover have "run_manual env (sched_id r') t =
      (Inr \<lparr>resp_status = 202, resp_body = message_json ''Schedule is being run manually.''\<rparr>, t\<lparr>queue := queue t @ [?m]\<rparr>)"
    using assms(3) d' by (simp add: run_manual_def catch_def bind_def seq_def get_schedule_object_def db_query_def
        cols get_space_row_def apply_async_def)
  ultimately show ?thesis by simp
qed

definition sample_crontab :: crontab_row where
  "sample_crontab = \<lparr>cron_id = 0, cron_minute = ''15'', cron_hour = ''2'', cron_day_of_month = ''*'',
     cron_month_of_year = ''*'', cron_day_of_week = ''1''\<rparr>"

definition sample_save :: "(exc + schedule_row) \<times> world" where
  "sample_save = save_schedule (sample_schedule\<lparr>sched_id := 0\<rparr>) (Some sample_crontab) sample_world"

theorem saved_schedule_runs_alike_witness:
  "\<exists>r' t m resp u. sample_save = (Inr r', t) \<and> beat_message r' = Some m \<and>
     run_manual sample_env (sched_id r') t = (Inr resp, u) \<and> resp_status resp = 202 \<and> queue u = queue t @ [m]"
proof -
  have "\<not> isl (fst sample_save)" by code_simp
  then obtain r' t where r: "sample_save = (Inr r', t)"
    by (cases sample_save) (metis fst_conv isl_def sum.exhaust_sel)
  have "jwf (sched_payload (sample_schedule\<lparr>sched_id := 0\<rparr>))" "sched_enabled (sample_schedule\<lparr>sched_id := 0\<rparr>)"
    by (simp_all add: sample_schedule_def)
  from r saved_schedule_runs_alike [OF r [unfolded sample_save_def] this, of sample_env] show ?thesis by blast
qed

section \<open>Noticing changes\<close>

definition tenant_names_ok :: "world \<Rightarrow> bool" where
  "tenant_names_ok s \<longleftrightarrow> list_all (\<lambda>x. x \<noteq> [] \<and> ascii_lower x = x) (schema_names s)"

definition latest :: "nat option \<Rightarrow> nat option \<Rightarrow> nat option" where
  "latest a b = (case b of None \<Rightarrow> a | Some t \<Rightarrow> (case a of None \<Rightarrow> Some t | Some u \<Rightarrow> Some (max u t)))"

lemma latest_simps [simp]:
  "latest a None = a" "latest None (Some t) = Some t" "latest (Some u) (Some t) = Some (max u t)"
  by (simp_all add: latest_def)

lemma enter_schema:
  "x \<in> set (schema_names s) \<Longrightarrow> tenant_names_ok s \<Longrightarrow>
    set_schema_from_context (schema_context x) s = (Inr (), s\<lparr>search_path := x\<rparr>)"
  by (auto simp: set_schema_ok space_of_def schema_context_def schema_exists_def tenant_names_ok_def list_all_iff)

lemma newest_change_run:
  assumes "set xs \<subseteq> set (schema_names s)" and "tenant_names_ok s"
    and "\<And>x. last_change (s\<lparr>search_path := x\<rparr>) = Inr (stamp x)"
  shows "newest_change last_change xs ts s =
    (Inr (Some (foldl latest ts (map stamp xs))), s\<lparr>search_path := last (search_path s # xs)\<rparr>)"
  using assms
proof (induction xs arbitrary: s ts)
  case (Cons x xs)
  let ?s = "s\<lparr>search_path := x\<rparr>"
  have enter: "set_schema_from_context (schema_context x) s = (Inr (), ?s)"
    using Cons.prems by (intro enter_schema) auto
  have "newest_change last_change xs ts' ?s =
      (Inr (Some (foldl latest ts' (map stamp xs))), ?s\<lparr>search_path := last (x # xs)\<rparr>)" for ts'
    using Cons.prems Cons.IH [of ?s ts'] by (simp add: tenant_names_ok_def)
  then show ?case using Cons.prems(3) [of x]
    by (auto simp: seq_def bind_def enter split: option.splits)
qed simp

lemma foldl_latest_greater:
  "(case foldl latest a stamps of None \<Rightarrow> False | Some t \<Rightarrow> l < t)
    \<longleftrightarrow> (case a of None \<Rightarrow> False | Some u \<Rightarrow> l < u) \<or> (\<exists>v. Some v \<in> set stamps \<and> l < (v :: nat))"
proof (induction stamps arbitrary: a)
  case (Cons b stamps)
  then show ?case by (cases a; cases b) auto
qed (auto split: option.splits)

text \<open>
  The scheduler reports a change exactly when it has a time stamp from an earlier round and
  some tenant schema has a later one, so that a change in any space is noticed; it then
  remembers the newest stamp over all schemas.
\<close>

lemma schedule_changed_iff:
  assumes "tenant_names_ok s" and "\<And>x. last_change (s\<lparr>search_path := x\<rparr>) = Inr (stamp x)"
  shows "\<exists>t ts. schedule_changed last_change last_stamp s =
    (Inr ((\<exists>l x v. last_stamp = Some l \<and> x \<in> set (schema_names s) \<and> is_tenant_schema x \<and>
             stamp x = Some v \<and> l < v), ts), t) \<and>
    ts = foldl latest None (map stamp (filter is_tenant_schema (schema_names s)))"
proof -
  let ?xs = "filter is_tenant_schema (schema_names s)"
  have run: "newest_change last_change ?xs None s =
      (Inr (Some (foldl latest None (map stamp ?xs))), s\<lparr>search_path := last (search_path s # ?xs)\<rparr>)"
    using assms by (intro newest_change_run) auto
  have "(case last_stamp of None \<Rightarrow> False | Some l \<Rightarrow>
           (case foldl latest None (map stamp ?xs) of None \<Rightarrow> False | Some t \<Rightarrow> l < t))
      \<longleftrightarrow> (\<exists>l x v. last_stamp = Some l \<and> x \<in> set (schema_names s) \<and> is_tenant_schema x \<and> stamp x = Some v \<and> l < v)"
    by (cases last_stamp) (simp_all add: foldl_latest_greater image_iff, metis)
  moreover have "(case foldl latest None (map stamp ?xs) of None \<Rightarrow> False
        | Some t \<Rightarrow> (case last_stamp of None \<Rightarrow> False | Some l \<Rightarrow> l < t))
      = (case last_stamp of None \<Rightarrow> False | Some l \<Rightarrow>
           (case foldl latest None (map stamp ?xs) of None \<Rightarrow> False | Some t \<Rightarrow> l < t))"
    by (cases last_stamp; cases "foldl latest None (map stamp ?xs)") simp_all
  ultimately show ?thesis
    by (simp add: schedule_changed_def get_all_tenant_schemas_def bind_def run)
qed

lemma schedule_changed_sample:
  "\<exists>t. schedule_changed (\<lambda>w. Inr (if search_path w = ''space1'' then Some 7 else None)) (Some 5) sample_world
     = (Inr (True, Some 7), t)"
proof -
  have "tenant_names_ok sample_world" by code_simp
  moreover have "(\<lambda>w. Inr (if search_path w = ''space1'' then Some 7 else None)) (sample_world\<lparr>search_path := x\<rparr>)
      = (Inr ((\<lambda>x. if x = ''space1'' then Some (7 :: nat) else None) x) :: exc + nat option)" for x by simp
  ultimately have "\<exists>t ts. schedule_changed (\<lambda>w. Inr (if search_path w = ''space1'' then Some 7 else None)) (Some 5) sample_world =
    (Inr ((\<exists>l x v. Some 5 = Some l \<and> x \<in> set (schema_names sample_world) \<and> is_tenant_schema x \<and>
             (\<lambda>x. if x = ''space1'' then Some (7 :: nat) else None) x = Some v \<and> l < v), ts), t) \<and>
    ts = foldl latest None (map (\<lambda>x. if x = ''space1'' then Some (7 :: nat) else None)
       (filter is_tenant_schema (schema_names sample_world)))"
    by (rule schedule_changed_iff)
  moreover have "filter is_tenant_schema (schema_names sample_world) = [''public'', ''space0'', ''space1'']" by code_simp
  moreover have "is_tenant_schema ''space1''" by code_simp
  ultimately show ?thesis by (auto simp: latest_def sample_world_def)
qed

section \<open>Nothing is left of a stopped worker\<close>

interpretation leaving: task_rewrite cancel_left_task
  "\<lambda>t. case celery_task_id t of None \<Rightarrow> [] | Some _ \<Rightarrow> [Revoke (celery_task_id t)]" finish_canceled
proof
  fix s d and t :: task_row
  assume db: "cur_db s = Some d" and ok: "tasks_ok d" and t: "t \<in> set (tasks d)"
  let ?es = "case celery_task_id t of None \<Rightarrow> [] | Some _ \<Rightarrow> [Revoke (celery_task_id t)]"
  let ?s = "s\<lparr>outbox := outbox s @ ?es\<rparr>"
  have "cur_db ?s = Some d" using db by (simp add: cur_db_def)
  from save_task_member [OF this ok t, of "finish_canceled (clock s) t"]
  show "cancel_left_task t s = (Inr (), s\<lparr>outbox := outbox s @ ?es, schemas := (schemas s)(search_path s \<mapsto>
         d\<lparr>tasks := map (\<lambda>y. if y = t then finish_canceled (clock s) t else y) (tasks d)\<rparr>)\<rparr>)"
    by (cases "celery_task_id t")
      (simp_all add: cancel_left_task_def seq_def bind_def emit_def now_def finish_canceled_def mark_task_as_finished_def)
qed simp_all

lemma cancel_loop:
  assumes "cur_db s = Some d" and "tasks_ok d"
  shows "\<exists>t d'. for_each ws (cancel env) s = (Inr (), t) \<and> cur_db t = Some d' \<and> tasks_ok d' \<and>
    map task_id (tasks d') = map task_id (tasks d)"
  using assms
proof (induction ws arbitrary: s d)
  case (Cons w ws)
  from cancel_run [OF Cons.prems, of env w] obtain es where one: "cancel env w s =
    (Inr (), s\<lparr>schemas := (schemas s)(search_path s \<mapsto>
                 (cancel_all (clock s) (wf_id w) d)
                   \<lparr>workflows := save_row wf_id (w\<lparr>wf_status := WCanceled\<rparr>) (workflows d)\<rparr>),
               outbox := outbox s @ revokes (tasks_of (wf_id w) d) @ es\<rparr>)" (is "_ = (Inr (), ?s)") by blast
  let ?d = "(cancel_all (clock s) (wf_id w) d)\<lparr>workflows := save_row wf_id (w\<lparr>wf_status := WCanceled\<rparr>) (workflows d)\<rparr>"
  have "cur_db ?s = Some ?d" by (simp add: cur_db_def)
  moreover have "tasks_ok ?d" using cancel_all_ok [OF Cons.prems(2)] by (simp add: tasks_ok_def)
  ultimately obtain t d' where "for_each ws (cancel env) ?s = (Inr (), t)" "cur_db t = Some d'" "tasks_ok d'"
      "map task_id (tasks d') = map task_id (tasks ?d)" using Cons.IH by blast
  moreover have "map task_id (tasks ?d) = map task_id (tasks d)" by (simp add: cancel_all_def)
  ultimately show ?case using one by (simp add: seq_def bind_def)
qed auto

text \<open>
  C21: when a worker starts again, no task of its name is left active: every row that was in
  progress, waiting or nested under that worker is cancelled, no row is lost, and the
  clean-up does not fail whatever the platform answers.
\<close>

theorem no_task_left_active:
  assumes "cur_db s = Some d" and "tasks_ok d"
  shows "\<exists>t d'. cancel_all_existing_tasks env name s = (Inr (), t) \<and> cur_db t = Some d' \<and>
    map task_id (tasks d') = map task_id (tasks d) \<and>
    list_all (\<lambda>r. \<not> task_of_worker {TProgress, TInit, TNestedProgress} name r) (tasks d')"
proof -
  let ?ids = "map task_workflow (filter (task_of_worker {TProgress, TInit} name) (tasks d))"
  let ?ws = "rev (filter (\<lambda>w. wf_status w \<in> {WProgress, WInit} \<and> wf_id w \<in> set ?ids) (workflows d))"
  from cancel_loop [OF assms, of ?ws env] obtain t1 d1 where
    loop: "for_each ?ws (cancel env) s = (Inr (), t1)" and d1: "cur_db t1 = Some d1" "tasks_ok d1"
      "map task_id (tasks d1) = map task_id (tasks d)" by blast
  let ?P = "task_of_worker {TProgress, TInit, TNestedProgress} name"
  let ?ts = "rev (filter ?P (tasks d1))"
  have sub: "set ?ts \<subseteq> set (tasks d1)" "distinct ?ts" using d1(2) by (auto simp: tasks_ok_def distinct_map)
  note second = leaving.loop_run [OF d1(1,2) this]
  let ?new = "map (\<lambda>y. if y \<in> set ?ts then finish_canceled (clock t1) y else y) (tasks d1)"
  have "cancel_all_existing_tasks env name s = for_each ?ts cancel_left_task t1"
    using loop d1(1) assms(1) by (simp add: cancel_all_existing_tasks_def bind_def seq_def db_query_def)
  moreover have "list_all (\<lambda>r. \<not> ?P r) ?new" by (auto simp: list_all_iff task_of_worker_def)
  moreover have "map task_id ?new = map task_id (tasks d1)" by simp
  then have "map task_id ?new = map task_id (tasks d)" using d1(3) by (rule trans)
  ultimately show ?thesis using second by (auto simp: cur_db_def)
qed

theorem no_task_left_active_witness:
  "\<exists>t d'. cancel_all_existing_tasks sample_env ''worker1'' sample_world = (Inr (), t) \<and> cur_db t = Some d' \<and>
    map task_id (tasks d') = [1]"
proof -
  have "tasks_ok sample_db" by (simp add: sample_db_def tasks_ok_def sample_task_def)
  from no_task_left_active [OF sample_db_cur this, of sample_env "''worker1''"] show ?thesis
    by (auto simp: sample_db_def sample_task_def)
qed

end
