(* ===== verification/Continuation.thy ===== *)
theory Continuation
  imports Control
begin

text \<open>
  How a workflow goes on: what \<^verbatim>\<open>Task.handle_task_success\<close> and \<^verbatim>\<open>on_failure\<close> do with the task,
  its workflow, the next nodes and the parent of a nested workflow, and that the bound on
  their recursion is never what ends them when parents are older than their children.
\<close>

section \<open>Rows and the next nodes\<close>

definition succeeded :: "nat \<Rightarrow> json \<Rightarrow> task_row \<Rightarrow> task_row" where
  "succeeded time retval t =
     mark_task_as_finished time
       (set_result (if truthy retval then retval else no_result) (t\<lparr>task_status := TSuccess\<rparr>))"

lemma succeeded_simps [simp]:
  "task_workflow (succeeded time v t) = task_workflow t" "task_node_id (succeeded time v t) = task_node_id t"
  "task_id (succeeded time v t) = task_id t" "task_space (succeeded time v t) = task_space t"
  "task_status (succeeded time v t) = TSuccess"
  by (simp_all add: succeeded_def mark_task_as_finished_def set_result_def)

definition task_stored :: "task_row \<Rightarrow> schema_db \<Rightarrow> schema_db" where
  "task_stored t d = d\<lparr>tasks := save_row task_id t (tasks d)\<rparr>"

lemma task_stored_simps [simp]:
  "workflows (task_stored t d) = workflows d" "templates (task_stored t d) = templates d"
  "spaces (task_stored t d) = spaces d" "on_graph w (task_stored t d) ns conns adj sp = on_graph w d ns conns adj sp"
  by (simp_all add: task_stored_def on_graph_def cong: option.case_cong)

lemma save_task_run:
  "task_space t \<noteq> None \<Longrightarrow> cur_db s = Some d \<Longrightarrow> save_task t s = (Inr (), in_schema (task_stored t) d s)"
  by (simp add: save_task_def db_update_def in_schema_def task_stored_def)

text \<open>
  The nodes of a list that are dispatched: the name of a node is read for the log, so that
  every node of a graph has one.
\<close>

definition nodes_named :: "nodes \<Rightarrow> bool" where
  "nodes_named ns \<longleftrightarrow> list_all (\<lambda>(n, node). \<not> isl (subscript node ''name'')) ns"

definition known_node :: "nodes \<Rightarrow> string \<Rightarrow> bool" where
  "known_node ns n = (case map_of ns n of None \<Rightarrow> False | Some node \<Rightarrow> truthy node)"

definition node_messages :: "nat \<Rightarrow> nodes \<Rightarrow> adjacency \<Rightarrow> task_context \<Rightarrow> connection list \<Rightarrow> string list \<Rightarrow> message list" where
  "node_messages i ns adj c conns nexts =
     map (\<lambda>n. ProcessNextNode n i ns adj c conns) (filter (known_node ns) nexts)"

lemma dispatch_next_run:
  assumes "nodes_named ns" and "cur_db s = Some d" and "find_row space_id (wf_space w) (spaces d) = Some sp"
  shows "dispatch_next w ns adj conns n s =
    (Inr (), s\<lparr>queue := queue s @ node_messages (wf_id w) ns adj (context_of sp) conns [n]\<rparr>)"
proof (cases "map_of ns n")
  case (Some node)
  then have "\<not> isl (subscript node ''name'')"
    using assms(1) by (auto simp: nodes_named_def list_all_iff dest: map_of_SomeD)
  then obtain v where "subscript node ''name'' = Inr v" by (cases "subscript node ''name''") auto
  with Some assms(2,3) show ?thesis
    by (simp add: dispatch_next_def node_messages_def known_node_def bind_def get_space_row_def db_query_def apply_async_def)
qed (simp add: dispatch_next_def node_messages_def known_node_def)

lemma dispatch_all_run:
  assumes "nodes_named ns" and "cur_db s = Some d" and "find_row space_id (wf_space w) (spaces d) = Some sp"
  shows "for_each nexts (dispatch_next w ns adj conns) s =
    (Inr (), s\<lparr>queue := queue s @ node_messages (wf_id w) ns adj (context_of sp) conns nexts\<rparr>)"
  using assms
proof (induction nexts arbitrary: s)
  case (Cons n nexts)
  let ?s = "s\<lparr>queue := queue s @ node_messages (wf_id w) ns adj (context_of sp) conns [n]\<rparr>"
  have "cur_db ?s = Some d" using Cons.prems(2) by (simp add: cur_db_def)
  from Cons.IH [OF Cons.prems(1) this Cons.prems(3)] dispatch_next_run [OF Cons.prems] show ?case
    by (simp add: seq_value node_messages_def)
qed (simp add: node_messages_def)


section \<open>The start of a workflow\<close>

lemma publish_all:
  "for_each ns (\<lambda>n. apply_async (f n)) s = (Inr (), s\<lparr>queue := queue s @ map f ns\<rparr>)"
  by (induction ns arbitrary: s) (simp_all add: seq_value apply_async_def)

text \<open>
  C9: starting a version 2 workflow stores it as in progress and publishes one message for
  every node without an incoming connection, in the order of the graph, and for no other.
\<close>

theorem start_dispatches_start_nodes:
  assumes "space_of (Some c) = Some code" and "schema_exists code s" and "schemas s (ascii_lower code) = Some d"
    and "find_row wf_id i (workflows d) = Some w" and "on_graph w d ns conns adj sp"
  shows "execute_workflow_v2 env i (Some c) s =
    (Inr (), (in_schema (stored (w\<lparr>wf_status := WProgress\<rparr>)) d (s\<lparr>search_path := ascii_lower code\<rparr>))
       \<lparr>queue := queue s @ map (\<lambda>n. ProcessNextNode n i ns adj c conns) (start_nodes ns conns)\<rparr>)"
proof -
  let ?s = "s\<lparr>search_path := ascii_lower code\<rparr>"
  let ?w = "w\<lparr>wf_status := WProgress\<rparr>"
  from assms(5) obtain tpl tp where tp: "workflow_template w = Some tpl" "find_row tp_id tpl (templates d) = Some tp"
      "read_graph (tp_data tp) = Inr (ns, conns, adj)"
    by (auto simp: on_graph_def split: option.splits)
  have enter: "set_schema_from_context (Some c) s = (Inr (), ?s)" using assms(1,2) by (simp add: set_schema_ok)
  have db: "cur_db ?s = Some d" using assms(3) by (simp add: cur_db_def)
  then have w: "get_workflow i ?s = (Inr w, ?s)" using assms(4) by (simp add: get_workflow_def db_query_def)
  have save: "save_workflow env ?w ?s = (Inr (), in_schema (stored ?w) d ?s)"
    by (rule save_workflow_quiet [OF db]) (simp add: is_terminal_def)
  have "get_template tpl (in_schema (stored ?w) d ?s) = (Inr tp, in_schema (stored ?w) d ?s)"
    using tp(2) by (simp add: get_template_def db_query_def)
  with enter w save tp show ?thesis
    by (simp add: execute_workflow_v2_def seq_value bind_value publish_all)
qed

section \<open>A finished task\<close>

text \<open>The finished task \<open>t\<close> on the node \<open>cur\<close> of the workflow \<open>w\<close> that runs a template's graph.\<close>

definition finishing ::
  "task_row \<Rightarrow> workflow_row \<Rightarrow> string \<Rightarrow> json \<Rightarrow> nodes \<Rightarrow> connection list \<Rightarrow> adjacency \<Rightarrow> space_row \<Rightarrow> schema_db \<Rightarrow> bool" where
  "finishing t w cur node ns conns adj sp d \<longleftrightarrow>
     task_status t \<noteq> TNestedProgress \<and> task_space t \<noteq> None \<and>
     find_row wf_id (task_workflow t) (workflows d) = Some w \<and> on_graph w d ns conns adj sp \<and>
     task_node_id t = Some cur \<and> map_of ns cur = Some node"

definition done_workflow :: "nat \<Rightarrow> json \<Rightarrow> string \<Rightarrow> workflow_row \<Rightarrow> workflow_row" where
  "done_workflow time retval cur w =
     w\<lparr>last_task_output := retval, current_node_id := Some cur, wf_status := WSuccess, wf_finished_at := Some time\<rparr>"

lemma handle_success_run:
  assumes "finishing t w cur node ns conns adj sp d" and "cur_db s = Some d"
    and "next_node_ids cur node retval conns adj = Inr nexts"
  shows "handle_task_success env (Suc depth) t retval s =
    (if nexts = [] then
       seq (save_workflow env (done_workflow (clock s) retval cur w))
         (case parent w of
            None \<Rightarrow> ret ()
          | Some p \<Rightarrow>
              bind (get_workflow p) (\<lambda>pw.
              bind (get_parent_task pw w) (\<lambda>pt.
                handle_task_success env depth (pt\<lparr>task_status := TProgress\<rparr>) retval)))
     else for_each nexts (dispatch_next (w\<lparr>last_task_output := retval, current_node_id := Some cur\<rparr>) ns adj conns))
    (in_schema (task_stored (succeeded (clock s) retval t)) d s)"
proof -
  from assms(1) obtain tpl tp where tp: "workflow_template w = Some tpl" "find_row tp_id tpl (templates d) = Some tp"
      "read_graph (tp_data tp) = Inr (ns, conns, adj)"
    by (auto simp: finishing_def on_graph_def split: option.splits)
  let ?t = "succeeded (clock s) retval t"
  have save: "save_task ?t s = (Inr (), in_schema (task_stored ?t) d s)"
    using assms(1,2) by (intro save_task_run) (simp_all add: finishing_def)
  show ?thesis
    unfolding handle_task_success.simps(2) Let_def succeeded_def [symmetric]
    using assms save tp
    by (simp add: now_def seq_value bind_value get_workflow_def get_template_def db_query_def finishing_def
        done_workflow_def)
qed

lemma success_dispatches:
  assumes "finishing t w cur node ns conns adj sp d" and "cur_db s = Some d" and "nodes_named ns"
    and "next_node_ids cur node retval conns adj = Inr nexts" and "nexts \<noteq> []"
  shows "handle_task_success env (Suc depth) t retval s =
    (Inr (), (in_schema (task_stored (succeeded (clock s) retval t)) d s)
       \<lparr>queue := queue s @ node_messages (wf_id w) ns adj (context_of sp) conns nexts\<rparr>)"
proof -
  have "find_row space_id (wf_space w) (spaces (task_stored (succeeded (clock s) retval t) d)) = Some sp"
    using assms(1) by (simp add: finishing_def on_graph_def)
  with dispatch_all_run [OF assms(3), of "in_schema (task_stored (succeeded (clock s) retval t)) d s"
      "task_stored (succeeded (clock s) retval t) d" "w\<lparr>last_task_output := retval, current_node_id := Some cur\<rparr>" sp]
  show ?thesis using handle_success_run [OF assms(1,2,4)] assms(5) by simp
qed

text \<open>
  C10: when a task of a version 2 workflow succeeds and other nodes follow its node, the task is
  stored as a success with its result, every node that follows and exists is dispatched
  once, in the order of the connections, for the space of the workflow, and nothing else
  changes: in particular the workflow's own row, the other tasks and the other schemas.
\<close>

theorem task_success_dispatches:
  assumes "finishing t w cur node ns conns adj sp d" and "cur_db s = Some d" and "nodes_named ns"
    and "next_node_ids cur node retval conns adj = Inr nexts" and "nexts \<noteq> []"
  shows "handle_task_success env (Suc depth) t retval s =
    (Inr (), (in_schema (task_stored (succeeded (clock s) retval t)) d s)
       \<lparr>queue := queue s @ node_messages (wf_id w) ns adj (context_of sp) conns nexts\<rparr>)"
  using assms by (rule success_dispatches)

lemma save_workflow_stored:
  assumes "cur_db s = Some d"
  shows "\<exists>es. save_workflow env w s = (Inr (), (in_schema (stored w) d s)\<lparr>outbox := outbox s @ es\<rparr>)"
  using save_workflow_run [OF assms, of env w] by (simp add: in_schema_def stored_def)

text \<open>
  When the last node of a workflow without a parent succeeds, the task is stored as a
  success and the workflow as complete, with the output and the time; nothing is published,
  and the only other effect is the report to the platform.
\<close>

lemma success_completes:
  assumes "finishing t w cur node ns conns adj sp d" and "cur_db s = Some d"
    and "next_node_ids cur node retval conns adj = Inr []" and "parent w = None"
  shows "\<exists>es. handle_task_success env (Suc depth) t retval s =
    (Inr (), (in_schema (stored (done_workflow (clock s) retval cur w) \<circ> task_stored (succeeded (clock s) retval t)) d s)
       \<lparr>outbox := outbox s @ es\<rparr>)"
proof -
  let ?s = "in_schema (task_stored (succeeded (clock s) retval t)) d s"
  have "cur_db ?s = Some (task_stored (succeeded (clock s) retval t) d)" by simp
  from save_workflow_stored [OF this, of env "done_workflow (clock s) retval cur w"] obtain es where
    "save_workflow env (done_workflow (clock s) retval cur w) ?s =
      (Inr (), (in_schema (stored (done_workflow (clock s) retval cur w) \<circ> task_stored (succeeded (clock s) retval t)) d s)
         \<lparr>outbox := outbox s @ es\<rparr>)" by auto
  then show ?thesis using handle_success_run [OF assms(1,2,3), of env depth] assms(4)
    by (intro exI [of _ es]) (simp add: seq_value)
qed

section \<open>Nested workflows\<close>

text \<open>The task of the parent that waits for the nested workflow \<open>w\<close>.\<close>

definition waits_for :: "workflow_row \<Rightarrow> nat \<Rightarrow> task_row \<Rightarrow> bool" where
  "waits_for w p x \<longleftrightarrow> task_workflow x = p \<and> task_node_id x = wf_node_id w \<and> task_space x = Some (wf_space w)"

lemma filter_save_row:
  assumes "\<not> P x" and "\<And>y. y \<in> set xs \<Longrightarrow> pk y = pk x \<Longrightarrow> \<not> P y"
  shows "filter P (save_row pk x xs) = filter P xs"
proof -
  have "filter P (map (\<lambda>y. if pk y = pk x then x else y) xs) = filter P xs"
    using assms by (induction xs) auto
  then show ?thesis using assms(1) by (simp add: save_row_def)
qed

lemma get_parent_task_run:
  assumes "cur_db s = Some d" and "filter (waits_for w (wf_id pw)) (tasks d) = [pt]"
  shows "get_parent_task pw w s = (Inr pt, s)"
  using assms by (simp add: get_parent_task_def db_query_def objects_get_def waits_for_def [abs_def])

lemma finishing_elsewhere:
  assumes "finishing t w cur node ns conns adj sp d" and "wf_id w' \<noteq> wf_id w"
  shows "finishing t w cur node ns conns adj sp (stored w' (task_stored t' d))"
proof -
  have "task_workflow t = wf_id w" using assms(1) by (auto simp: finishing_def dest: find_row_Some)
  with assms show ?thesis by (auto simp: finishing_def)
qed

text \<open>
  C4: when the last node of a nested workflow succeeds, the nested workflow is complete and
  its parent goes on as if the waiting task had returned the same value: that task becomes a
  success with the value, and the nodes after it are dispatched for the parent.
\<close>

theorem nested_completion_continues_parent:
  assumes "finishing t w cur node ns conns adj sp d" and "cur_db s = Some d"
    and "next_node_ids cur node retval conns adj = Inr []"
    and "parent w = Some p" and "p \<noteq> wf_id w" and "filter (waits_for w p) (tasks d) = [pt]"
    and "list_all (\<lambda>x. task_id x = task_id t \<longrightarrow> task_workflow x = wf_id w) (tasks d)"
    and "finishing (pt\<lparr>task_status := TProgress\<rparr>) pw pcur pnode pns pconns padj psp d"
    and "next_node_ids pcur pnode retval pconns padj = Inr pnexts" and "pnexts \<noteq> []" and "nodes_named pns"
  shows "\<exists>es. handle_task_success env (Suc (Suc depth)) t retval s =
    (Inr (), (in_schema (task_stored (succeeded (clock s) retval (pt\<lparr>task_status := TProgress\<rparr>))
         \<circ> (stored (done_workflow (clock s) retval cur w) \<circ> task_stored (succeeded (clock s) retval t))) d s)
       \<lparr>outbox := outbox s @ es,
        queue := queue s @ node_messages p pns padj (context_of psp) pconns pnexts\<rparr>)"
proof -
  let ?t = "succeeded (clock s) retval t" and ?w = "done_workflow (clock s) retval cur w"
  let ?d = "stored ?w (task_stored ?t d)" and ?s = "in_schema (task_stored ?t) d s"
  have ids: "task_workflow t = wf_id w" using assms(1) by (auto simp: finishing_def dest: find_row_Some)
  have pt: "task_workflow pt = p" using arg_cong [OF assms(6), of set] by (auto simp: waits_for_def)
  have pw: "find_row wf_id p (workflows d) = Some pw" "wf_id pw = p"
    using assms(8) pt by (auto simp: finishing_def dest: find_row_Some)
  have "cur_db ?s = Some (task_stored ?t d)" by simp
  from save_workflow_stored [OF this, of env ?w] obtain es where
    save: "save_workflow env ?w ?s = (Inr (), (in_schema (stored ?w \<circ> task_stored ?t) d s)\<lparr>outbox := outbox s @ es\<rparr>)"
    by auto
  let ?u = "(in_schema (stored ?w \<circ> task_stored ?t) d s)\<lparr>outbox := outbox s @ es\<rparr>"
  have db: "cur_db ?u = Some ?d" by (simp add: in_schema_def cur_db_def)
  have "filter (waits_for w p) (tasks ?d) = filter (waits_for w p) (tasks d)"
    unfolding stored_simps task_stored_def using assms(5,7) ids
    by (auto simp: waits_for_def list_all_iff intro!: filter_save_row)
  then have parent_task: "get_parent_task pw w ?u = (Inr pt, ?u)"
    using assms(6) pw by (intro get_parent_task_run [OF db]) simp
  have parent_wf: "get_workflow p ?u = (Inr pw, ?u)"
    using db pw assms(5) by (simp add: get_workflow_def db_query_def done_workflow_def)
  have "finishing (pt\<lparr>task_status := TProgress\<rparr>) pw pcur pnode pns pconns padj psp ?d"
    using assms(5,8) pw by (intro finishing_elsewhere) (auto simp: done_workflow_def)
  from success_dispatches [OF this db assms(11,9,10), of env depth]
  have go: "handle_task_success env (Suc depth) (pt\<lparr>task_status := TProgress\<rparr>) retval ?u =
    (Inr (), (in_schema (task_stored (succeeded (clock s) retval (pt\<lparr>task_status := TProgress\<rparr>))) ?d ?u)
       \<lparr>queue := queue s @ node_messages p pns padj (context_of psp) pconns pnexts\<rparr>)"
    using pw by simp
  show ?thesis
    using handle_success_run [OF assms(1-3), of env "Suc depth"] assms(4) save parent_wf parent_task go
    by (intro exI [of _ es]) (simp add: seq_value bind_value in_schema_def)
qed


section \<open>The recursion over parents\<close>

text \<open>A nested workflow is created after its parent, and ids grow.\<close>

definition older_parent :: "workflow_row \<Rightarrow> bool" where
  "older_parent w = (case parent w of None \<Rightarrow> True | Some p \<Rightarrow> p < wf_id w)"

definition parents_older :: "schema_db \<Rightarrow> bool" where
  "parents_older d \<longleftrightarrow> list_all older_parent (workflows d)"

lemma parents_older_find: "parents_older d \<Longrightarrow> find_row wf_id i (workflows d) = Some w \<Longrightarrow> older_parent w"
  by (auto simp: parents_older_def list_all_iff dest: find_row_Some)

lemma parents_older_save:
  "parents_older d \<Longrightarrow> older_parent w \<Longrightarrow> workflows d' = save_row wf_id w (workflows d) \<Longrightarrow> parents_older d'"
  by (auto simp: parents_older_def list_all_iff dest: set_save_row)

lemma bind_cong_run: "(\<And>x u. m s = (Inr x, u) \<Longrightarrow> f x u = g x u) \<Longrightarrow> bind m f s = bind m g s"
  by (auto simp: bind_def split: prod.splits sum.splits)

lemma seq_cong_run: "(\<And>x u. m s = (Inr x, u) \<Longrightarrow> k u = l u) \<Longrightarrow> seq m k s = seq m l s"
  by (auto simp: seq_def intro: bind_cong_run)

lemma save_task_workflows:
  assumes "save_task t s = (Inr x, u)" and "cur_db s = Some d"
  obtains d' where "cur_db u = Some d'" and "workflows d' = workflows d"
  using assms by (auto simp: save_task_def db_update_def cur_db_def split: if_splits)

lemma save_workflow_workflows:
  assumes "save_workflow env w s = (Inr x, u)" and "cur_db s = Some d"
  obtains d' where "cur_db u = Some d'" and "workflows d' = save_row wf_id w (workflows d)"
  using save_workflow_run [OF assms(2), of env w] assms(1) by (auto simp: cur_db_def)

lemma get_workflow_run: "get_workflow i s = (Inr w, u) \<longleftrightarrow> u = s \<and> (\<exists>d. cur_db s = Some d \<and> find_row wf_id i (workflows d) = Some w)"
  by (simp add: get_workflow_def db_query_run)

lemma get_parent_task_workflow: "get_parent_task pw w s = (Inr pt, u) \<Longrightarrow> u = s \<and> task_workflow pt = wf_id pw"
  by (auto simp: get_parent_task_def db_query_run dest: objects_get_sound)

text \<open>The climb to the parent: the place where both recursions call themselves.\<close>

lemma climb_cong:
  assumes "cur_db s = Some d" and "parents_older d" and "older_parent w" and "wf_id w < n"
    and "\<And>pt u d'. cur_db u = Some d' \<Longrightarrow> parents_older d' \<Longrightarrow> Suc (task_workflow pt) < n \<Longrightarrow> f pt u = g pt u"
  shows "(case parent w of None \<Rightarrow> ret () | Some p \<Rightarrow> bind (get_workflow p) (\<lambda>pw. bind (get_parent_task pw w) f)) s
    = (case parent w of None \<Rightarrow> ret () | Some p \<Rightarrow> bind (get_workflow p) (\<lambda>pw. bind (get_parent_task pw w) g)) s"
proof (cases "parent w")
  case (Some p)
  have "p < wf_id w" using assms(3) Some by (simp add: older_parent_def)
  have "bind (get_workflow p) (\<lambda>pw. bind (get_parent_task pw w) f) s = bind (get_workflow p) (\<lambda>pw. bind (get_parent_task pw w) g) s"
  proof (intro bind_cong_run)
    fix pw u pt v assume "get_workflow p s = (Inr pw, u)" and "get_parent_task pw w u = (Inr pt, v)"
    then have "v = s" "task_workflow pt = p"
      by (auto simp: get_workflow_run dest!: get_parent_task_workflow find_row_Some)
    then show "f pt v = g pt v" using assms(1,2,4) \<open>p < wf_id w\<close> by (intro assms(5) [of _ d]) auto
  qed
  with Some show ?thesis by simp
qed simp


text \<open>What \<^const>\<open>handle_task_success\<close> does with the workflow it has loaded, over its recursive call.\<close>

definition advance :: "env \<Rightarrow> (task_row \<Rightarrow> unit io) \<Rightarrow> nat \<Rightarrow> task_row \<Rightarrow> json \<Rightarrow> workflow_row \<Rightarrow> unit io" where
  "advance env again time t retval w =
     (case workflow_template w of
        None \<Rightarrow> ret ()
      | Some tpl \<Rightarrow>
          bind (get_template tpl) (\<lambda>tp.
          bind (lift (read_graph (tp_data tp))) (\<lambda>(ns, conns, adj).
          bind (lift (rbind (or_raise (task_node_id t) (KeyError ''None'')) (\<lambda>cur.
                 rbind (or_raise (map_of ns cur) (KeyError cur)) (\<lambda>node. Inr (cur, node))))) (\<lambda>(cur, node).
          bind (lift (next_node_ids cur node retval conns adj)) (\<lambda>nexts.
            if nexts = [] then
              seq (save_workflow env (done_workflow time retval cur w))
              (case parent w of
                 None \<Rightarrow> ret ()
               | Some p \<Rightarrow> bind (get_workflow p) (\<lambda>pw. bind (get_parent_task pw w) again))
            else for_each nexts (dispatch_next (w\<lparr>last_task_output := retval, current_node_id := Some cur\<rparr>) ns adj conns))))))"

lemma handle_by_advance:
  "handle_task_success env (Suc n) t v =
     (if task_status t = TNestedProgress then ret ()
      else bind now (\<lambda>time. seq (save_task (succeeded time v t)) (bind (get_workflow (task_workflow t))
        (advance env (\<lambda>pt. handle_task_success env n (pt\<lparr>task_status := TProgress\<rparr>) v) time (succeeded time v t) v))))"
  unfolding handle_task_success.simps Let_def advance_def succeeded_def [symmetric] succeeded_simps done_workflow_def
  by simp

lemma advance_cong:
  assumes "cur_db s = Some d" and "parents_older d" and "older_parent w" and "wf_id w < n"
    and "\<And>pt u d'. cur_db u = Some d' \<Longrightarrow> parents_older d' \<Longrightarrow> Suc (task_workflow pt) < n \<Longrightarrow> f pt u = g pt u"
  shows "advance env f time t v w s = advance env g time t v w s"
proof (cases "workflow_template w")
  case (Some tpl)
  have tail: "seq (save_workflow env (done_workflow time v cur w))
      (case parent w of None \<Rightarrow> ret () | Some p \<Rightarrow> bind (get_workflow p) (\<lambda>pw. bind (get_parent_task pw w) f)) s
    = seq (save_workflow env (done_workflow time v cur w))
      (case parent w of None \<Rightarrow> ret () | Some p \<Rightarrow> bind (get_workflow p) (\<lambda>pw. bind (get_parent_task pw w) g)) s" for cur
  proof (rule seq_cong_run)
    fix x u assume "save_workflow env (done_workflow time v cur w) s = (Inr x, u)"
    then obtain d' where d': "cur_db u = Some d'" "workflows d' = save_row wf_id (done_workflow time v cur w) (workflows d)"
      using assms(1) by (rule save_workflow_workflows)
    have "older_parent (done_workflow time v cur w)"
      using assms(3) by (simp add: older_parent_def done_workflow_def split: option.splits)
    then have "parents_older d'" by (rule parents_older_save [OF assms(2) _ d'(2)])
    then show "(case parent w of None \<Rightarrow> ret () | Some p \<Rightarrow> bind (get_workflow p) (\<lambda>pw. bind (get_parent_task pw w) f)) u
      = (case parent w of None \<Rightarrow> ret () | Some p \<Rightarrow> bind (get_workflow p) (\<lambda>pw. bind (get_parent_task pw w) g)) u"
      using d'(1) assms(3-5) by (intro climb_cong) auto
  qed
  show ?thesis unfolding advance_def Some option.case
    by (intro bind_cong_run) (auto simp: get_template_def db_query_run tail intro!: bind_cong_run)
qed (simp add: advance_def)

text \<open>
  C11: how deep workflows are nested never makes the continuation fail: when parents are older
  than their children, every recursion limit above the id of the task's workflow gives the
  same outcome.
\<close>

theorem success_depth_irrelevant:
  assumes "cur_db s = Some d" and "parents_older d" and "task_workflow t < n"
  shows "handle_task_success env n t v s = handle_task_success env (n + k) t v s"
  using assms
proof (induction n arbitrary: t s d)
  case (Suc n)
  have "bind now (\<lambda>time. seq (save_task (succeeded time v t)) (bind (get_workflow (task_workflow t))
        (advance env (\<lambda>pt. handle_task_success env n (pt\<lparr>task_status := TProgress\<rparr>) v) time (succeeded time v t) v))) s
    = bind now (\<lambda>time. seq (save_task (succeeded time v t)) (bind (get_workflow (task_workflow t))
        (advance env (\<lambda>pt. handle_task_success env (n + k) (pt\<lparr>task_status := TProgress\<rparr>) v) time (succeeded time v t) v))) s"
  proof (intro bind_cong_run seq_cong_run)
    fix time u x u1 w u2
    assume a: "now s = (Inr time, u)" "save_task (succeeded time v t) u = (Inr x, u1)"
      "get_workflow (task_workflow t) u1 = (Inr w, u2)"
    then have "u = s" by (simp add: now_def)
    with a Suc.prems obtain d1 where d1: "cur_db u1 = Some d1" "workflows d1 = workflows d"
      by (auto elim: save_task_workflows)
    then have ok: "parents_older d1" using Suc.prems(2) by (simp add: parents_older_def)
    with d1 a(3) have w: "u2 = u1" "older_parent w" "wf_id w = task_workflow t"
      by (auto simp: get_workflow_run dest: find_row_Some parents_older_find)
    show "advance env (\<lambda>pt. handle_task_success env n (pt\<lparr>task_status := TProgress\<rparr>) v) time (succeeded time v t) v w u2
      = advance env (\<lambda>pt. handle_task_success env (n + k) (pt\<lparr>task_status := TProgress\<rparr>) v) time (succeeded time v t) v w u2"
      using d1(1) ok w Suc.prems(3) by (intro advance_cong [of _ d1 _ "Suc n"]) (auto intro: Suc.IH)
  qed
  then show ?case unfolding add_Suc handle_by_advance by simp
qed simp


section \<open>Failures\<close>

lemma failed_task_simps [simp]:
  "task_workflow (failed_task env e time t) = task_workflow t" "task_space (failed_task env e time t) = task_space t"
  "task_id (failed_task env e time t) = task_id t" "celery_task_id (failed_task env e time t) = celery_task_id t"
  "task_node_id (failed_task env e time t) = task_node_id t"
  by (simp_all add: failed_task_def mark_task_as_finished_def set_result_def)

lemma failed_workflow_simps [simp]:
  "wf_id (failed_workflow e w) = wf_id w" "parent (failed_workflow e w) = parent w"
  "wf_space (failed_workflow e w) = wf_space w" "wf_node_id (failed_workflow e w) = wf_node_id w"
  by (simp_all add: failed_workflow_def)

lemma send_alert_run: "\<exists>es. send_alert env w s = (Inr (), s\<lparr>outbox := outbox s @ es\<rparr>)"
proof -
  have "within sends_only (send_alert env w)"
    unfolding send_alert_def
    by (intro sends.bind sends.seq sends.catch sends.if_branch sends.ret sends.queries sends_only_request)
  then obtain es where "snd (send_alert env w s) = s\<lparr>outbox := outbox s @ es\<rparr>"
    using withinD [of sends_only "send_alert env w" s] by (auto simp: sends_only_def)
  moreover have "fst (send_alert env w s) = Inr ()"
    by (auto simp: send_alert_def catch_def split: prod.splits sum.splits)
  ultimately show ?thesis by (intro exI [of _ es]) (cases "send_alert env w s", simp)
qed

text \<open>
  The levels a failure passes: the task with the Celery id and its workflow, then the task of
  the parent that waits for it, and so on to a workflow without a parent.
\<close>

fun failing :: "schema_db \<Rightarrow> nat option \<Rightarrow> (task_row \<times> workflow_row) list \<Rightarrow> bool" where
  "failing d cid [] = False"
| "failing d cid ((t, w) # levels) \<longleftrightarrow>
     filter (\<lambda>x. celery_task_id x = cid) (tasks d) = [t] \<and> task_space t \<noteq> None \<and>
     find_row wf_id (task_workflow t) (workflows d) = Some w \<and>
     (case parent w of
        None \<Rightarrow> levels = []
      | Some p \<Rightarrow>
          (case levels of
             [] \<Rightarrow> False
           | (pt, pw) # _ \<Rightarrow> p < wf_id w \<and> wf_id pw = p \<and> filter (waits_for w p) (tasks d) = [pt] \<and>
               failing d (celery_task_id pt) levels))"

definition fail_level :: "env \<Rightarrow> exc \<Rightarrow> nat \<Rightarrow> task_row \<times> workflow_row \<Rightarrow> schema_db \<Rightarrow> schema_db" where
  "fail_level env e time l d = stored (failed_workflow e (snd l)) (task_stored (failed_task env e time (fst l)) d)"

lemma failing_ids: "failing d cid ((t, w) # levels) \<Longrightarrow> task_workflow t = wf_id w \<and> t \<in> set (tasks d)"
  by (auto dest!: find_row_Some arg_cong [where f = set] simp: set_eq_iff)


lemma failing_celery:
  "failing d cid ((t, w) # levels) \<Longrightarrow> y \<in> set (tasks d) \<Longrightarrow> celery_task_id y = cid \<Longrightarrow> y = t"
  by (auto dest!: arg_cong [where f = set] simp: set_eq_iff)

lemma failing_tail:
  assumes "failing d cid ((t, w) # levels)" and "levels \<noteq> []"
  obtains pt pw rest where "levels = (pt, pw) # rest" and "parent w = Some (wf_id pw)" and "wf_id pw < wf_id w"
    and "filter (waits_for w (wf_id pw)) (tasks d) = [pt]" and "failing d (celery_task_id pt) levels"
  using assms by (auto split: option.splits list.splits)

lemma failing_decreasing:
  "failing d cid ((t, w) # levels) \<Longrightarrow> list_all (\<lambda>l. wf_id (snd l) < wf_id w) levels"
proof (induction levels arbitrary: cid t w)
  case (Cons l levels)
  from Cons.prems obtain pt pw rest where l: "l # levels = (pt, pw) # rest" "wf_id pw < wf_id w"
      "failing d (celery_task_id pt) (l # levels)" by (rule failing_tail) auto
  then have "list_all (\<lambda>l. wf_id (snd l) < wf_id pw) rest" using Cons.IH [of "celery_task_id pt" pt pw] by simp
  with l show ?case by (auto simp: list_all_iff simp del: failing.simps dest: less_trans)
qed simp

text \<open>Storing a failed task and its workflow leaves the levels of other workflows as they are.\<close>

lemma failing_elsewhere:
  assumes "failing d cid levels" and "list_all (\<lambda>l. wf_id (snd l) \<noteq> wf_id w) levels"
    and "t0 \<in> set (tasks d)" "task_workflow t0 = wf_id w" "celery_task_id t = celery_task_id t0"
    and "task_workflow t = wf_id w"
    and "\<And>y. y \<in> set (tasks d) \<Longrightarrow> task_id y = task_id t \<Longrightarrow> task_workflow y = wf_id w"
  shows "failing (stored w (task_stored t d)) cid levels"
  using assms(1,2)
proof (induction levels arbitrary: cid)
  case (Cons l levels)
  obtain t1 w1 where l: "l = (t1, w1)" by (cases l)
  have ids: "task_workflow t1 = wf_id w1" "wf_id w1 \<noteq> wf_id w"
    using failing_ids [of d cid t1 w1 levels] Cons.prems l by auto
  note only = failing_celery [OF Cons.prems(1) [unfolded l]]
  have same: "filter (\<lambda>x. celery_task_id x = cid) (save_row task_id t (tasks d)) = filter (\<lambda>x. celery_task_id x = cid) (tasks d)"
    using only ids assms(3-7) by (intro filter_save_row) metis+
  have waits: "filter (waits_for w1 p) (save_row task_id t (tasks d)) = filter (waits_for w1 p) (tasks d)" if "p \<noteq> wf_id w" for p
    using that assms(6,7) by (intro filter_save_row) (auto simp: waits_for_def)
  show ?case
  proof (cases "levels = []")
    case True
    with Cons.prems(1) l ids same show ?thesis by (auto simp: task_stored_def stored_def find_row_save_row split: option.splits)
  next
    case False
    with Cons.prems(1) l obtain pt pw rest where t: "levels = (pt, pw) # rest" "parent w1 = Some (wf_id pw)"
        "wf_id pw < wf_id w1" "filter (waits_for w1 (wf_id pw)) (tasks d) = [pt]" "failing d (celery_task_id pt) levels"
      by (blast elim: failing_tail)
    have "wf_id pw \<noteq> wf_id w" using Cons.prems(2) t(1) by simp
    moreover have "failing (stored w (task_stored t d)) (celery_task_id pt) levels"
      using Cons.prems(2) t(5) by (intro Cons.IH) simp_all
    moreover have "filter (\<lambda>x. celery_task_id x = cid) (tasks d) = [t1]" "task_space t1 \<noteq> None"
        "find_row wf_id (task_workflow t1) (workflows d) = Some w1"
      using Cons.prems(1) l by simp_all
    ultimately show ?thesis using l ids same waits t
      by (simp add: task_stored_def stored_def find_row_save_row)
  qed
qed simp


lemma fail_level_run:
  assumes "cur_db s = Some d" and "task_space t \<noteq> None"
  shows "\<exists>es. seq (save_task (failed_task env e k t)) (save_workflow env (failed_workflow e w)) s =
    (Inr (), (in_schema (fail_level env e k (t, w)) d s)\<lparr>outbox := outbox s @ es\<rparr>)"
proof -
  have save: "save_task (failed_task env e k t) s = (Inr (), in_schema (task_stored (failed_task env e k t)) d s)"
    using assms by (intro save_task_run) simp_all
  have "cur_db (in_schema (task_stored (failed_task env e k t)) d s) = Some (task_stored (failed_task env e k t) d)" by simp
  from save_workflow_stored [OF this, of env "failed_workflow e w"] obtain es where
    "save_workflow env (failed_workflow e w) (in_schema (task_stored (failed_task env e k t)) d s) =
      (Inr (), (in_schema (stored (failed_workflow e w) \<circ> task_stored (failed_task env e k t)) d s)\<lparr>outbox := outbox s @ es\<rparr>)"
    by auto
  with save show ?thesis by (intro exI [of _ es]) (simp add: seq_value in_schema_def fail_level_def)
qed

lemma on_failure_by_levels:
  assumes "failing d cid ((t, w) # levels)" and "space_of ctx = Some code" and "schema_exists code s"
    and "schemas s (ascii_lower code) = Some d"
  shows "\<exists>es. on_failure env (Suc n) cid e ctx s =
    seq (case parent w of
           None \<Rightarrow> ret ()
         | Some p \<Rightarrow> bind (get_workflow p) (\<lambda>pw. bind (get_parent_task pw (failed_workflow e w)) (\<lambda>pt.
             on_failure env n (celery_task_id pt) e ctx)))
      (send_alert env (failed_workflow e w))
      ((in_schema (fail_level env e (clock s) (t, w)) d (s\<lparr>search_path := ascii_lower code\<rparr>))\<lparr>outbox := outbox s @ es\<rparr>)"
proof -
  let ?s = "s\<lparr>search_path := ascii_lower code\<rparr>"
  have enter: "set_schema_from_context ctx s = (Inr (), ?s)" using assms(2,3) by (simp add: set_schema_ok)
  have db: "cur_db ?s = Some d" using assms(4) by (simp add: cur_db_def)
  have t: "get_task_by_celery_id cid ?s = (Inr t, ?s)" "get_workflow (task_workflow t) ?s = (Inr w, ?s)"
    and sp: "task_space t \<noteq> None"
    using assms(1) db by (auto simp: get_task_by_celery_id_def get_workflow_def db_query_def objects_get_def)
  obtain es where save: "seq (save_task (failed_task env e (clock s) t)) (save_workflow env (failed_workflow e w)) ?s =
      (Inr (), (in_schema (fail_level env e (clock s) (t, w)) d ?s)\<lparr>outbox := outbox s @ es\<rparr>)" (is "_ = (_, ?u)")
    using fail_level_run [OF db sp, of env e "clock s" w] by auto
  have w: "get_workflow (task_workflow t) ?u = (Inr (failed_workflow e w), ?u)"
    using failing_ids [OF assms(1)]
    by (simp add: get_workflow_def db_query_def in_schema_def cur_db_def fail_level_def)
  have assoc: "seq a (seq b c) = seq (seq a b) c" for a b :: "unit io" and c :: "unit io"
    by (simp add: seq_def bind_assoc)
  show ?thesis
    using enter t save w
    by (intro exI [of _ es]) (simp add: now_def seq_value bind_value assoc)
qed

lemma failing_parent:
  assumes "failing d cid ((t, w) # (pt, pw) # rest)"
  shows "parent w = Some (wf_id pw)" and "wf_id pw < wf_id w" and "filter (waits_for w (wf_id pw)) (tasks d) = [pt]"
    and "failing d (celery_task_id pt) ((pt, pw) # rest)" and "task_workflow pt = wf_id pw"
proof -
  from assms obtain pt' pw' rest' where "(pt, pw) # rest = (pt', pw') # rest'" "parent w = Some (wf_id pw')" "wf_id pw' < wf_id w"
      "filter (waits_for w (wf_id pw')) (tasks d) = [pt']" "failing d (celery_task_id pt') ((pt, pw) # rest)"
    by (rule failing_tail) auto
  then show "parent w = Some (wf_id pw)" "wf_id pw < wf_id w" "filter (waits_for w (wf_id pw)) (tasks d) = [pt]"
      "failing d (celery_task_id pt) ((pt, pw) # rest)" by simp_all
  then show "task_workflow pt = wf_id pw" using failing_ids by blast
qed

text \<open>After one level is stored as failed, the levels above it are as before.\<close>

lemma fail_level_climbs:
  assumes "failing d cid ((t, w) # levels)" and "levels = (pt, pw) # rest" and "tasks_ok d"
  shows "failing (fail_level env e k (t, w) d) (celery_task_id pt) levels"
    and "filter (waits_for w (wf_id pw)) (tasks (fail_level env e k (t, w) d)) = [pt]"
    and "tasks_ok (fail_level env e k (t, w) d)"
proof -
  note lv = failing_parent [OF assms(1) [unfolded assms(2)], folded assms(2)]
  note ids = failing_ids [OF assms(1)]
  have mine: "task_workflow y = wf_id w" if "y \<in> set (tasks d)" "task_id y = task_id t" for y
  proof -
    have "y = t" using assms(3) ids that by (auto simp: tasks_ok_def distinct_map inj_on_def)
    then show ?thesis using ids by simp
  qed
  have "list_all (\<lambda>l. wf_id (snd l) \<noteq> wf_id (failed_workflow e w)) levels"
    using failing_decreasing [OF assms(1)] by (auto simp: list_all_iff)
  then show "failing (fail_level env e k (t, w) d) (celery_task_id pt) levels"
    unfolding fail_level_def using ids mine lv(4) by (intro failing_elsewhere [of _ _ _ _ t]) auto
  have "filter (waits_for w (wf_id pw)) (save_row task_id (failed_task env e k t) (tasks d)) = filter (waits_for w (wf_id pw)) (tasks d)"
    using lv(2) ids mine by (intro filter_save_row) (auto simp: waits_for_def)
  then show "filter (waits_for w (wf_id pw)) (tasks (fail_level env e k (t, w) d)) = [pt]"
    using lv(3) by (simp add: fail_level_def task_stored_def)
  show "tasks_ok (fail_level env e k (t, w) d)"
    using assms(3) ids
    by (auto simp: tasks_ok_def fail_level_def task_stored_def distinct_save_row list_all_iff dest!: set_save_row)
qed

text \<open>
  C5: a failure reaches every level of nested workflows: the task with the Celery id and its
  workflow, then the task of the parent that waits for it and the parent, up to the
  workflow without a parent, are stored as failed (as timed out after a time limit), with
  the error; no other row and no other schema changes, nothing is published, and the
  handler does not fail, whatever the platform answers.
\<close>

theorem failure_reaches_every_level:
  assumes "failing d cid levels" and "length levels \<le> n" and "space_of ctx = Some code" and "schema_exists code s"
    and "schemas s (ascii_lower code) = Some d" and "tasks_ok d"
  shows "\<exists>es. on_failure env n cid e ctx s =
    (Inr (), (in_schema (fold (fail_level env e (clock s)) levels) d (s\<lparr>search_path := ascii_lower code\<rparr>))
       \<lparr>outbox := outbox s @ es\<rparr>)"
  using assms
proof (induction levels arbitrary: cid n s d)
  case (Cons l levels)
  obtain t w where l: "l = (t, w)" by (cases l)
  obtain m where n: "n = Suc m" using Cons.prems(2) by (cases n) auto
  let ?d = "fail_level env e (clock s) l d"
  let ?s = "\<lambda>es. (in_schema (fail_level env e (clock s) l) d (s\<lparr>search_path := ascii_lower code\<rparr>))\<lparr>outbox := outbox s @ es\<rparr>"
  note fail = Cons.prems(1) [unfolded l]
  from on_failure_by_levels [OF fail Cons.prems(3-5), of env m e] obtain es where
    run: "on_failure env n cid e ctx s = seq (case parent w of
           None \<Rightarrow> ret ()
         | Some p \<Rightarrow> bind (get_workflow p) (\<lambda>pw. bind (get_parent_task pw (failed_workflow e w)) (\<lambda>pt.
             on_failure env m (celery_task_id pt) e ctx)))
      (send_alert env (failed_workflow e w)) (?s es)" unfolding n l by blast
  have "\<exists>es'. (case parent w of
           None \<Rightarrow> ret ()
         | Some p \<Rightarrow> bind (get_workflow p) (\<lambda>pw. bind (get_parent_task pw (failed_workflow e w)) (\<lambda>pt.
             on_failure env m (celery_task_id pt) e ctx))) (?s es) =
      (Inr (), (in_schema (fold (fail_level env e (clock s)) levels) ?d (?s es))\<lparr>outbox := outbox s @ es'\<rparr>)"
  proof (cases "levels = []")
    case True
    with fail have "parent w = None" by (auto split: option.splits)
    with True show ?thesis by (intro exI [of _ es]) (simp add: in_schema_def)
  next
    case False
    then obtain pt pw rest where lv: "levels = (pt, pw) # rest" by (metis list.exhaust prod.exhaust)
    note up = fail_level_climbs [OF fail lv Cons.prems(6), where env = env and e = e and k = "clock s", folded l]
    note parent = failing_parent [OF fail [unfolded lv]]
    have db: "cur_db (?s es) = Some ?d" by (simp add: cur_db_def in_schema_def)
    have "get_parent_task pw (failed_workflow e w) (?s es) = (Inr pt, ?s es)"
      using db up(2) by (intro get_parent_task_run) (simp_all add: waits_for_def [abs_def])
    moreover have "get_workflow (wf_id pw) (?s es) = (Inr pw, ?s es)"
      using db up(1) parent(5) lv by (auto simp: get_workflow_def db_query_def)
    moreover obtain es' where "on_failure env m (celery_task_id pt) e ctx (?s es) =
        (Inr (), (in_schema (fold (fail_level env e (clock s)) levels) ?d (?s es))\<lparr>outbox := outbox s @ es @ es'\<rparr>)"
      using Cons.IH [OF up(1), of m "?s es"] up(3) Cons.prems(2-4) n by (auto simp: in_schema_def schema_exists_def)
    ultimately show ?thesis using parent(1) by (intro exI [of _ "es @ es'"]) (simp add: bind_value)
  qed
  then obtain es' where climb: "(case parent w of
           None \<Rightarrow> ret ()
         | Some p \<Rightarrow> bind (get_workflow p) (\<lambda>pw. bind (get_parent_task pw (failed_workflow e w)) (\<lambda>pt.
             on_failure env m (celery_task_id pt) e ctx))) (?s es) =
      (Inr (), (in_schema (fold (fail_level env e (clock s)) levels) ?d (?s es))\<lparr>outbox := outbox s @ es'\<rparr>)"
      (is "_ = (_, ?u)") by blast
  obtain es2 where "send_alert env (failed_workflow e w) ?u = (Inr (), ?u\<lparr>outbox := outbox ?u @ es2\<rparr>)"
    using send_alert_run by blast
  with run climb show ?case by (intro exI [of _ "es' @ es2"]) (simp add: seq_value in_schema_def)
qed simp


section \<open>Concrete runs\<close>

declare handle_task_success.simps [simp del] on_failure.simps [simp del]

text \<open>
  The sample workflow waits on its node \<^verbatim>\<open>a\<close> for a nested run of the same template, whose
  last node \<^verbatim>\<open>d\<close> is running.
\<close>

definition sample_child :: workflow_row where
  "sample_child = sample_workflow\<lparr>wf_id := 2, wf_node_id := Some ''a'', parent := Some 1\<rparr>"

definition sample_waiting :: task_row where
  "sample_waiting = sample_task\<lparr>task_status := TNestedProgress\<rparr>"

definition sample_leaf :: task_row where
  "sample_leaf = sample_task\<lparr>task_id := 2, task_workflow := 2, task_node_id := Some ''d'', celery_task_id := Some 1\<rparr>"

definition sample_nested :: schema_db where
  "sample_nested = sample_db\<lparr>workflows := [sample_workflow, sample_child], tasks := [sample_waiting, sample_leaf],
     wf_seq := 2, task_seq := 2\<rparr>"

definition sample_nested_world :: world where
  "sample_nested_world = sample_world\<lparr>schemas := [''space0'' \<mapsto> sample_nested], uuid_supply := 2\<rparr>"

lemma sample_node_rows:
  "map_of sample_nodes ''a'' = Some (sample_node ''a'' ''source_code'')"
  "map_of sample_nodes ''d'' = Some (sample_node ''d'' ''source_code'')" "nodes_named sample_nodes"
  by code_simp+

lemma sample_next_nodes:
  "next_node_ids ''a'' (sample_node ''a'' ''source_code'') (JInt 7) sample_connections sample_adjacency = Inr [''b'', ''c'']"
  "next_node_ids ''d'' (sample_node ''d'' ''source_code'') (JInt 7) sample_connections sample_adjacency = Inr []"
  by code_simp+

lemma sample_nested_db: "cur_db sample_nested_world = Some sample_nested"
  by (simp add: sample_nested_world_def sample_world_def cur_db_def)

lemma sample_on_graph:
  "on_graph sample_workflow sample_db sample_nodes sample_connections sample_adjacency sample_space"
  "on_graph sample_workflow sample_nested sample_nodes sample_connections sample_adjacency sample_space"
  "on_graph sample_child sample_nested sample_nodes sample_connections sample_adjacency sample_space"
  by (simp_all add: on_graph_def sample_workflow_def sample_child_def sample_nested_def sample_db_def sample_template_def
      sample_graph_reads sample_space_def)

lemma sample_finishing:
  "finishing sample_task sample_workflow ''a'' (sample_node ''a'' ''source_code'') sample_nodes sample_connections
     sample_adjacency sample_space sample_db"
  "finishing sample_leaf sample_child ''d'' (sample_node ''d'' ''source_code'') sample_nodes sample_connections
     sample_adjacency sample_space sample_nested"
  "finishing (sample_waiting\<lparr>task_status := TProgress\<rparr>) sample_workflow ''a'' (sample_node ''a'' ''source_code'') sample_nodes
     sample_connections sample_adjacency sample_space sample_nested"
  using sample_on_graph sample_node_rows
  by (simp_all add: finishing_def sample_task_def sample_leaf_def sample_waiting_def sample_db_def sample_nested_def
      sample_workflow_def sample_child_def)

theorem start_dispatches_start_nodes_witness:
  "queue (snd (execute_workflow_v2 sample_env 1 (Some sample_context) sample_nested_world)) =
    [ProcessNextNode ''a'' 1 sample_nodes sample_adjacency sample_context sample_connections]"
proof -
  have lower: "ascii_lower ''space0'' = ''space0''" by code_simp
  have ctx: "space_of (Some sample_context) = Some ''space0''" "schema_exists ''space0'' sample_nested_world"
      "schemas sample_nested_world (ascii_lower ''space0'') = Some sample_nested"
      "find_row wf_id 1 (workflows sample_nested) = Some sample_workflow"
    by (simp_all add: space_of_def sample_context_def schema_exists_def sample_nested_world_def sample_world_def lower
        sample_nested_def sample_workflow_def)
  have "start_nodes sample_nodes sample_connections = [''a'']" by code_simp
  with start_dispatches_start_nodes [OF ctx sample_on_graph(2), of sample_env] show ?thesis
    by (simp add: sample_nested_world_def sample_world_def)
qed

theorem task_success_dispatches_witness:
  "queue (snd (handle_task_success sample_env (Suc 0) sample_task (JInt 7) sample_world)) =
    node_messages 1 sample_nodes sample_adjacency (context_of sample_space) sample_connections [''b'', ''c'']"
  using task_success_dispatches [OF sample_finishing(1) sample_db_cur sample_node_rows(3) sample_next_nodes(1), of sample_env 0]
  by (simp add: sample_world_def sample_workflow_def)

lemma leaf_completes_sample:
  "\<exists>t d'. handle_task_success sample_env (Suc 0) (sample_leaf\<lparr>task_workflow := 1\<rparr>) (JInt 7) sample_nested_world = (Inr (), t) \<and>
    queue t = [] \<and> cur_db t = Some d' \<and> map wf_status (workflows d') = [WSuccess, WProgress]"
proof -
  have fin: "finishing (sample_leaf\<lparr>task_workflow := 1\<rparr>) sample_workflow ''d'' (sample_node ''d'' ''source_code'') sample_nodes
      sample_connections sample_adjacency sample_space sample_nested"
    using sample_on_graph sample_node_rows
    by (simp add: finishing_def sample_task_def sample_leaf_def sample_nested_def sample_workflow_def)
  have "parent sample_workflow = None" by (simp add: sample_workflow_def)
  from success_completes [OF fin sample_nested_db sample_next_nodes(2) this, of sample_env 0] show ?thesis
    by (auto simp: cur_db_def in_schema_def stored_def task_stored_def save_row_def sample_nested_def sample_workflow_def
        sample_child_def done_workflow_def sample_nested_world_def sample_world_def)
qed

theorem nested_completion_continues_parent_witness:
  "\<exists>t. handle_task_success sample_env (Suc (Suc 0)) sample_leaf (JInt 7) sample_nested_world = (Inr (), t) \<and>
    queue t = node_messages 1 sample_nodes sample_adjacency (context_of sample_space) sample_connections [''b'', ''c'']"
proof -
  have par: "parent sample_child = Some 1" "1 \<noteq> wf_id sample_child"
    "filter (waits_for sample_child 1) (tasks sample_nested) = [sample_waiting]"
    "list_all (\<lambda>x. task_id x = task_id sample_leaf \<longrightarrow> task_workflow x = wf_id sample_child) (tasks sample_nested)"
    by (simp_all add: sample_child_def sample_nested_def sample_waiting_def sample_leaf_def sample_task_def waits_for_def
        sample_workflow_def)
  from nested_completion_continues_parent [OF sample_finishing(2) sample_nested_db sample_next_nodes(2) par sample_finishing(3)
      sample_next_nodes(1) _ sample_node_rows(3), of sample_env 0]
  show ?thesis by (auto simp: sample_nested_world_def sample_world_def)
qed

theorem success_depth_irrelevant_witness:
  "handle_task_success sample_env 3 sample_leaf (JInt 7) sample_nested_world
    = handle_task_success sample_env (3 + 997) sample_leaf (JInt 7) sample_nested_world"
  by (rule success_depth_irrelevant [OF sample_nested_db])
    (simp_all add: parents_older_def older_parent_def sample_nested_def sample_workflow_def sample_child_def sample_leaf_def)

theorem failure_reaches_every_level_witness:
  "\<exists>t d'. on_failure sample_env 1000 (Some 1) (KeyError ''x'') (Some sample_context) sample_nested_world = (Inr (), t) \<and>
    cur_db t = Some d' \<and> map wf_status (workflows d') = [WError, WError] \<and> map task_status (tasks d') = [TError, TError]"
proof -
  have lower: "ascii_lower ''space0'' = ''space0''" by code_simp
  have ctx: "space_of (Some sample_context) = Some ''space0''" "schema_exists ''space0'' sample_nested_world"
      "schemas sample_nested_world (ascii_lower ''space0'') = Some sample_nested" "tasks_ok sample_nested"
    by (simp_all add: space_of_def sample_context_def schema_exists_def sample_nested_world_def sample_world_def lower
        sample_nested_def tasks_ok_def sample_task_def sample_waiting_def sample_leaf_def)
  have "failing sample_nested (Some 1) [(sample_leaf, sample_child), (sample_waiting, sample_workflow)]"
    by (simp add: sample_nested_def sample_leaf_def sample_waiting_def sample_task_def sample_child_def sample_workflow_def
        waits_for_def)
  from failure_reaches_every_level [OF this _ ctx, of 1000 sample_env "KeyError ''x''"] show ?thesis
    by (auto simp: cur_db_def in_schema_def stored_def task_stored_def save_row_def sample_nested_def sample_workflow_def
        sample_child_def failed_workflow_def failed_task_def mark_task_as_finished_def set_result_def fail_level_def
        is_time_limit_def sample_leaf_def sample_waiting_def sample_task_def)
qed

end
