(* ===== verification/Ledger.thy ===== *)
theory Ledger
  imports Continuation Tenancy
begin

text \<open>
  The invariant of the tables and a logic to show that every operation keeps it.  In each
  schema the ids of workflows and of tasks are distinct and below their sequences, a parent
  is older than its child, every task has a space and belongs to a workflow that is there,
  and no two tasks share a Celery id; the names of schemas hold no dot.  An operation saves rows it has read before; what it
  has read is a ledger of known ids that only grows, and a triple says that an operation
  keeps the invariant from every state in which the ledger is true.
\<close>

section \<open>The invariant\<close>

definition task_key :: "task_row \<Rightarrow> nat \<times> nat option \<times> nat" where
  "task_key t = (task_id t, celery_task_id t, task_workflow t)"

definition celery_ids :: "task_row list \<Rightarrow> nat list" where
  "celery_ids ts = map (\<lambda>t. the (celery_task_id t)) (filter (\<lambda>t. celery_task_id t \<noteq> None) ts)"

definition db_ok :: "nat \<Rightarrow> schema_db \<Rightarrow> bool" where
  "db_ok supply d \<longleftrightarrow>
     distinct (map wf_id (workflows d)) \<and> list_all (\<lambda>w. wf_id w \<le> wf_seq d \<and> older_parent w) (workflows d) \<and>
     distinct (map task_id (tasks d)) \<and> list_all (\<lambda>t. task_id t \<le> task_seq d) (tasks d) \<and>
     list_all (\<lambda>t. task_space t \<noteq> None \<and> task_workflow t \<in> wf_id ` set (workflows d)) (tasks d) \<and>
     distinct (celery_ids (tasks d)) \<and> list_all (\<lambda>u. u < supply) (celery_ids (tasks d))"

definition world_ok :: "world \<Rightarrow> bool" where
  "world_ok s \<longleftrightarrow>
     list_all (\<lambda>n. CHR ''.'' \<notin> set n) (schema_names s) \<and>
     (\<forall>c d. schemas s c = Some d \<longrightarrow> db_ok (uuid_supply s) d \<and> home c s)"

lemma db_ok_mono: "db_ok n d \<Longrightarrow> n \<le> m \<Longrightarrow> db_ok m d"
  by (auto simp: db_ok_def list_all_iff)

lemma db_ok_tasks_ok: "db_ok n d \<Longrightarrow> tasks_ok d"
  by (auto simp: db_ok_def tasks_ok_def list_all_iff)

lemma db_ok_parents_older: "db_ok n d \<Longrightarrow> parents_older d"
  by (auto simp: db_ok_def parents_older_def list_all_iff)

text \<open>Saving over a row keeps every list of keys the rows have.\<close>

lemma map_save_row:
  assumes "pk x \<in> pk ` set xs" and "\<And>y. y \<in> set xs \<Longrightarrow> pk y = pk x \<Longrightarrow> f y = f x"
  shows "map f (save_row pk x xs) = map f xs"
  using assms by (auto simp: save_row_def)

lemma celery_ids_key: "celery_ids ts = map (\<lambda>k. the (fst (snd k))) (filter (\<lambda>k. fst (snd k) \<noteq> None) (map task_key ts))"
  by (induction ts) (auto simp: celery_ids_def task_key_def)

lemma db_ok_save_workflow:
  assumes "db_ok n d" and "wf_id w \<in> wf_id ` set (workflows d)" and "older_parent w"
  shows "db_ok n (d\<lparr>workflows := save_row wf_id w (workflows d)\<rparr>)"
proof -
  have "wf_id w \<le> wf_seq d" using assms(1,2) by (auto simp: db_ok_def list_all_iff)
  then have "list_all (\<lambda>w. wf_id w \<le> wf_seq d \<and> older_parent w) (save_row wf_id w (workflows d))"
    using assms(1,3) by (auto simp: db_ok_def list_all_iff dest!: set_save_row)
  moreover have "wf_id ` set (save_row wf_id w (workflows d)) = wf_id ` set (workflows d)"
    using assms(2) by (simp add: ids_save_row insert_absorb)
  ultimately show ?thesis using assms(1) by (simp add: db_ok_def distinct_save_row)
qed

lemma db_ok_save_task:
  assumes "db_ok n d" and "task_key t \<in> task_key ` set (tasks d)" and "task_space t \<noteq> None"
  shows "db_ok n (d\<lparr>tasks := save_row task_id t (tasks d)\<rparr>)"
    and "map task_key (save_row task_id t (tasks d)) = map task_key (tasks d)"
proof -
  from assms(2) obtain t0 where t0: "t0 \<in> set (tasks d)" "task_key t0 = task_key t" by (metis imageE)
  then have same: "task_id t0 = task_id t" "celery_task_id t0 = celery_task_id t" "task_workflow t0 = task_workflow t"
    by (simp_all add: task_key_def)
  have only: "y = t0" if "y \<in> set (tasks d)" "task_id y = task_id t" for y
    using assms(1) t0(1) same(1) that by (simp add: db_ok_def distinct_map inj_on_def)
  have "task_id t \<in> task_id ` set (tasks d)" using t0(1) same(1) by (metis image_eqI)
  then show keys: "map task_key (save_row task_id t (tasks d)) = map task_key (tasks d)"
    by (rule map_save_row) (metis only t0(2))
  have "celery_ids (save_row task_id t (tasks d)) = celery_ids (tasks d)"
    unfolding celery_ids_key keys ..
  moreover have "task_id t0 \<le> task_seq d" "task_workflow t0 \<in> wf_id ` set (workflows d)"
    using assms(1) t0(1) by (simp_all add: db_ok_def list_all_iff)
  then have "list_all (\<lambda>t. task_id t \<le> task_seq d) (save_row task_id t (tasks d)) \<and>
      list_all (\<lambda>t. task_space t \<noteq> None \<and> task_workflow t \<in> wf_id ` set (workflows d)) (save_row task_id t (tasks d))"
    using assms(1,3) same by (auto simp: db_ok_def list_all_iff dest!: set_save_row)
  ultimately show "db_ok n (d\<lparr>tasks := save_row task_id t (tasks d)\<rparr>)"
    using assms(1) by (simp add: db_ok_def distinct_save_row)
qed

lemma db_ok_insert_workflow:
  assumes "db_ok n d" and "\<And>p. parent w = Some p \<Longrightarrow> p \<in> wf_id ` set (workflows d)"
  shows "db_ok n (d\<lparr>workflows := workflows d @ [w\<lparr>wf_id := Suc (wf_seq d)\<rparr>], wf_seq := Suc (wf_seq d)\<rparr>)"
    and "older_parent (w\<lparr>wf_id := Suc (wf_seq d)\<rparr>)"
proof -
  have below: "i \<in> wf_id ` set (workflows d) \<Longrightarrow> i \<le> wf_seq d" for i
    using assms(1) by (auto simp: db_ok_def list_all_iff)
  then show old: "older_parent (w\<lparr>wf_id := Suc (wf_seq d)\<rparr>)"
    using assms(2) by (auto simp: older_parent_def less_Suc_eq_le split: option.splits)
  have "Suc (wf_seq d) \<notin> wf_id ` set (workflows d)" using below by force
  then show "db_ok n (d\<lparr>workflows := workflows d @ [w\<lparr>wf_id := Suc (wf_seq d)\<rparr>], wf_seq := Suc (wf_seq d)\<rparr>)"
    using assms(1) old by (auto simp: db_ok_def list_all_iff)
qed

lemma db_ok_insert_task:
  assumes "db_ok n d" and "task_space t \<noteq> None" and "task_workflow t \<in> wf_id ` set (workflows d)"
    and "celery_task_id t = Some u" and "u < n" and "u \<notin> set (celery_ids (tasks d))"
  shows "db_ok n (d\<lparr>tasks := tasks d @ [t\<lparr>task_id := Suc (task_seq d)\<rparr>], task_seq := Suc (task_seq d)\<rparr>)"
proof -
  have "Suc (task_seq d) \<notin> task_id ` set (tasks d)"
    using assms(1) by (auto simp: db_ok_def list_all_iff)
  with assms show ?thesis by (auto simp: db_ok_def list_all_iff celery_ids_def)
qed


section \<open>Triples\<close>

text \<open>What an operation has read of its schema, and the ids it has drawn and not used yet.\<close>

record ledger =
  known_wfs :: "nat set"
  known_tasks :: "(nat \<times> nat option \<times> nat) set"
  fresh_ids :: "nat set"

definition true_in :: "ledger \<Rightarrow> schema_db \<Rightarrow> bool" where
  "true_in K d \<longleftrightarrow>
     known_wfs K \<subseteq> wf_id ` set (workflows d) \<and> known_tasks K \<subseteq> task_key ` set (tasks d) \<and>
     fresh_ids K \<inter> set (celery_ids (tasks d)) = {}"

definition good :: "string \<Rightarrow> ledger \<Rightarrow> world \<Rightarrow> bool" where
  "good c K s \<longleftrightarrow>
     world_ok s \<and> search_path s = c \<and> (\<forall>u \<in> fresh_ids K. u < uuid_supply s) \<and>
     (\<forall>d. schemas s c = Some d \<longrightarrow> true_in K d)"

text \<open>The ledger grows; when \<open>b\<close> holds, the drawn ids are not used up either.\<close>

definition grows :: "bool \<Rightarrow> ledger \<Rightarrow> ledger \<Rightarrow> bool" where
  "grows b K L \<longleftrightarrow> known_wfs K \<subseteq> known_wfs L \<and> known_tasks K \<subseteq> known_tasks L \<and> (b \<longrightarrow> fresh_ids K \<subseteq> fresh_ids L)"

definition keep :: "bool \<Rightarrow> string \<Rightarrow> ledger \<Rightarrow> 'a io \<Rightarrow> (ledger \<Rightarrow> 'a \<Rightarrow> bool) \<Rightarrow> bool" where
  "keep b c K m Q \<longleftrightarrow>
     (\<forall>s. good c K s \<longrightarrow> (\<exists>L. grows b K L \<and> good c L (snd (m s)) \<and> (\<forall>x. fst (m s) = Inr x \<longrightarrow> Q L x)))"

definition anything :: "ledger \<Rightarrow> 'a \<Rightarrow> bool" where
  "anything K x = True"

named_theorems kept "operations that keep the invariant"

lemma grows_refl [simp, intro]: "grows b K K"
  by (simp add: grows_def)

lemma grows_trans: "grows b K L \<Longrightarrow> grows b L M \<Longrightarrow> grows b K M"
  by (auto simp: grows_def)

lemma grows_weaken: "grows True K L \<Longrightarrow> grows b K L"
  by (simp add: grows_def)

lemma anything_simp [simp]: "anything K x"
  by (simp add: anything_def)

lemma keepI:
  assumes "\<And>s r t. good c K s \<Longrightarrow> m s = (r, t) \<Longrightarrow> \<exists>L. grows b K L \<and> good c L t \<and> (\<forall>x. r = Inr x \<longrightarrow> Q L x)"
  shows "keep b c K m Q"
  unfolding keep_def using assms by (metis prod.collapse)

lemma keepD:
  assumes "keep b c K m Q" and "good c K s" and "m s = (r, t)"
  obtains L where "grows b K L" and "good c L t" and "\<forall>x. r = Inr x \<longrightarrow> Q L x"
  using assms unfolding keep_def by (metis fst_conv snd_conv)

lemma keep_weaken: "keep True c K m Q \<Longrightarrow> keep b c K m Q"
  unfolding keep_def using grows_weaken by blast

lemma keep_anything: "keep b c K m Q \<Longrightarrow> keep b c K m anything"
  unfolding keep_def by (simp add: anything_def) blast

lemma keep_post:
  assumes "keep b c K m Q" and "\<And>L x. grows b K L \<Longrightarrow> Q L x \<Longrightarrow> Q' L x"
  shows "keep b c K m Q'"
  using assms unfolding keep_def by blast

lemma keep_bind_with:
  assumes "keep b c K m Q" and "\<And>L x. grows b K L \<Longrightarrow> Q L x \<Longrightarrow> keep b' c L (f x) Q'" and "b'' \<Longrightarrow> b \<and> b'"
  shows "keep b'' c K (bind m f) Q'"
proof (rule keepI)
  fix s r t assume s: "good c K s" and run: "bind m f s = (r, t)"
  obtain r1 t1 where m: "m s = (r1, t1)" by force
  from assms(1) s m obtain L where L: "grows b K L" "good c L t1" "\<forall>x. r1 = Inr x \<longrightarrow> Q L x" by (rule keepD)
  show "\<exists>M. grows b'' K M \<and> good c M t \<and> (\<forall>x. r = Inr x \<longrightarrow> Q' M x)"
  proof (cases r1)
    case (Inl e)
    with run m have "r = Inl e" "t = t1" by (auto simp: bind_raise)
    with L assms(3) show ?thesis by (intro exI [of _ L]) (auto simp: grows_def)
  next
    case (Inr x)
    with run m have "f x t1 = (r, t)" by (simp add: bind_value)
    moreover have "keep b' c L (f x) Q'" using L(1,3) Inr by (intro assms(2)) auto
    ultimately obtain M where "grows b' L M" "good c M t" "\<forall>x. r = Inr x \<longrightarrow> Q' M x"
      using L(2) keepD [of b' c L "f x" Q' t1 r t] by metis
    with L(1) assms(3) show ?thesis by (intro exI [of _ M]) (auto simp: grows_def)
  qed
qed

lemma keep_bind:
  assumes "keep b c K m Q" and "\<And>L x. grows b K L \<Longrightarrow> Q L x \<Longrightarrow> keep b c L (f x) Q'"
  shows "keep b c K (bind m f) Q'"
  using assms by (rule keep_bind_with) auto

lemma keep_bind_steady:
  assumes "keep True c K m Q" and "\<And>L x. grows True K L \<Longrightarrow> Q L x \<Longrightarrow> keep False c L (f x) Q'"
  shows "keep False c K (bind m f) Q'"
  using assms by (rule keep_bind_with) auto

lemma keep_seq:
  assumes "keep b c K m Q" and "\<And>L. grows b K L \<Longrightarrow> keep b c L k Q'"
  shows "keep b c K (seq m k) Q'"
  unfolding seq_def using assms by (intro keep_bind) auto

lemmas keep_in_order [kept] = keep_bind keep_seq

lemma keep_catch [kept]:
  assumes "keep b c K m Q" and "\<And>L e. grows b K L \<Longrightarrow> keep b c L (h e) Q"
  shows "keep b c K (catch m h) Q"
proof (rule keepI)
  fix s r t assume s: "good c K s" and run: "catch m h s = (r, t)"
  obtain r1 t1 where m: "m s = (r1, t1)" by force
  from assms(1) s m obtain L where L: "grows b K L" "good c L t1" "\<forall>x. r1 = Inr x \<longrightarrow> Q L x" by (rule keepD)
  show "\<exists>M. grows b K M \<and> good c M t \<and> (\<forall>x. r = Inr x \<longrightarrow> Q M x)"
  proof (cases r1)
    case (Inr x)
    with run m L show ?thesis by (auto simp: catch_value)
  next
    case (Inl e)
    with run m have "h e t1 = (r, t)" by (simp add: catch_raise)
    with assms(2) [OF L(1)] L(2) obtain M where "grows b L M" "good c M t" "\<forall>x. r = Inr x \<longrightarrow> Q M x"
      using keepD [of b c L "h e" Q t1 r t] by metis
    with L(1) show ?thesis by (blast intro: grows_trans)
  qed
qed

lemma keep_pure [kept]:
  "keep b c K (ret x) anything" "keep b c K (throw e) Q" "keep b c K (lift r) anything" "keep b c K (query f) anything"
  by (auto simp: keep_def)

lemma keep_branches [kept]:
  "\<And>p. (p \<Longrightarrow> keep b c K m Q) \<Longrightarrow> (\<not> p \<Longrightarrow> keep b c K k Q) \<Longrightarrow> keep b c K (if p then m else k) Q"
  "\<And>x. (x = None \<Longrightarrow> keep b c K m Q) \<Longrightarrow> (\<And>y. x = Some y \<Longrightarrow> keep b c K (f y) Q) \<Longrightarrow>
     keep b c K (case x of None \<Rightarrow> m | Some y \<Rightarrow> f y) Q"
  "\<And>x. (\<And>y z. x = (y, z) \<Longrightarrow> keep b c K (g y z) Q) \<Longrightarrow> keep b c K (case x of (y, z) \<Rightarrow> g y z) Q"
  "\<And>x. (x = [] \<Longrightarrow> keep b c K m Q) \<Longrightarrow> (\<And>y ys. x = y # ys \<Longrightarrow> keep b c K (g' y ys) Q) \<Longrightarrow>
     keep b c K (case x of [] \<Rightarrow> m | y # ys \<Rightarrow> g' y ys) Q"
  "\<And>x. (\<And>y. keep b c K (f' y) Q) \<Longrightarrow> keep b c K (let y = x in f' y) Q"
  by (auto split: option.splits prod.splits list.splits)

lemma keep_for_each [kept]:
  assumes "\<And>L x. grows b K L \<Longrightarrow> x \<in> set xs \<Longrightarrow> keep b c L (f x) anything"
  shows "keep b c K (for_each xs f) anything"
  using assms
proof (induction xs arbitrary: K)
  case (Cons x xs)
  show ?case unfolding for_each.simps
  proof (rule keep_seq)
    show "keep b c K (f x) anything" by (rule Cons.prems) auto
    show "keep b c L (for_each xs f) anything" if "grows b K L" for L
      using that by (intro Cons.IH Cons.prems) (auto intro: grows_trans)
  qed
qed (simp add: keep_pure)


section \<open>The primitives\<close>

definition wf_known :: "ledger \<Rightarrow> workflow_row \<Rightarrow> bool" where
  "wf_known K w \<longleftrightarrow> wf_id w \<in> known_wfs K \<and> older_parent w"

definition task_known :: "ledger \<Rightarrow> task_row \<Rightarrow> bool" where
  "task_known K t \<longleftrightarrow> task_key t \<in> known_tasks K \<and> task_space t \<noteq> None"

lemma known_grows [intro]:
  "grows b K L \<Longrightarrow> wf_known K w \<Longrightarrow> wf_known L w"
  "grows b K L \<Longrightarrow> task_known K t \<Longrightarrow> task_known L t"
  by (auto simp: grows_def wf_known_def task_known_def)

lemma older_parent_cong [simp]:
  "older_parent (w\<lparr>wf_status := x1\<rparr>) = older_parent w" "older_parent (w\<lparr>current_node_id := x2\<rparr>) = older_parent w"
  "older_parent (w\<lparr>last_task_output := x3\<rparr>) = older_parent w" "older_parent (w\<lparr>wf_finished_at := x4\<rparr>) = older_parent w"
  "older_parent (set_payload v w) = older_parent w" "older_parent (failed_workflow e w) = older_parent w"
  by (simp_all add: older_parent_def set_payload_def failed_workflow_def cong: option.case_cong)

lemma wf_known_cong [simp]:
  "wf_known K (w\<lparr>wf_status := x1\<rparr>) = wf_known K w" "wf_known K (w\<lparr>current_node_id := x2\<rparr>) = wf_known K w"
  "wf_known K (w\<lparr>last_task_output := x3\<rparr>) = wf_known K w" "wf_known K (w\<lparr>wf_finished_at := x4\<rparr>) = wf_known K w"
  "wf_known K (set_payload v w) = wf_known K w" "wf_known K (failed_workflow e w) = wf_known K w"
  by (simp_all add: wf_known_def) (simp add: set_payload_def)

lemma task_known_cong [simp]:
  "task_known K (t\<lparr>task_status := x1\<rparr>) = task_known K t" "task_known K (t\<lparr>worker_name := x2\<rparr>) = task_known K t"
  "task_known K (set_result v t) = task_known K t" "task_known K (mark_task_as_finished n t) = task_known K t"
  "task_known K (failed_task env e n t) = task_known K t" "task_known K (succeeded n v t) = task_known K t"
  "task_known K (set_progress v t) = task_known K t" "task_known K (t\<lparr>task_log := x3\<rparr>) = task_known K t"
  by (simp_all add: task_known_def task_key_def set_result_def mark_task_as_finished_def failed_task_def succeeded_def
      set_progress_def)

text \<open>Operations that stay in the schema and leave the tables as they are.\<close>

definition same_tables :: "world \<Rightarrow> world \<Rightarrow> bool" where
  "same_tables s t \<longleftrightarrow> schemas t = schemas s \<and> uuid_supply s \<le> uuid_supply t \<and> schema_names t = schema_names s"

interpretation same_tables: local_frame same_tables
  by unfold_locales (auto simp: same_tables_def within_def)

lemma world_ok_same: "same_tables s t \<Longrightarrow> world_ok s \<Longrightarrow> world_ok t"
  by (auto simp: world_ok_def same_tables_def home_def dest: db_ok_mono)

lemma keep_quiet:
  assumes "within (inside c) m" and "within same_tables m"
  shows "keep b c K m anything"
proof (rule keepI)
  fix s r t assume s: "good c K s" and run: "m s = (r, t)"
  have st: "same_tables s t" "inside c s t" using assms run by (auto dest: within_run)
  have "search_path s = c" using s by (simp add: good_def)
  moreover have "search_path t = c"
  proof (cases "home c s")
    case True
    with st(2) \<open>search_path s = c\<close> show ?thesis by (simp add: inside_def)
  next
    case False
    then obtain d where "schemas s c = Some d" by (auto simp: home_def)
    with s False show ?thesis by (simp add: good_def world_ok_def)
  qed
  ultimately have "good c K t"
    using s st(1) world_ok_same [OF st(1)] by (force simp: good_def same_tables_def)
  then show "\<exists>L. grows b K L \<and> good c L t \<and> (\<forall>x. r = Inr x \<longrightarrow> anything L x)" by auto
qed

lemma within_mono: "within R m \<Longrightarrow> (\<And>s t. R s t \<Longrightarrow> S s t) \<Longrightarrow> within S m"
  by (simp add: within_def)

lemma same_tables_sends: "within sends_only m \<Longrightarrow> within same_tables m"
  by (erule within_mono) (auto simp: sends_only_def same_tables_def)

lemma inside_sends: "within sends_only m \<Longrightarrow> within (inside c) m"
  by (erule within_mono) (auto simp: sends_only_def inside_def)

lemma keep_sends: "within sends_only m \<Longrightarrow> keep b c K m anything"
  by (intro keep_quiet same_tables_sends inside_sends)

lemma keep_plain [kept]:
  "keep b c K (emit e) anything" "keep b c K (apply_async msg) anything" "keep b c K (sleep n) anything"
  "keep b c K now anything" "keep b c K (request env meth url body tok) anything"
  by (intro keep_quiet inside.emit inside.apply_async inside.sleep inside.queries inside.request keep_sends
      sends_only_request; auto simp: within_def same_tables_def emit_def apply_async_def sleep_def now_def)+

lemma keep_uuid [kept]: "keep b c K uuid (\<lambda>L u. u \<in> fresh_ids L)"
proof (rule keepI)
  fix s r t assume s: "good c K s" and run: "uuid s = (r, t)"
  let ?u = "uuid_supply s"
  let ?L = "K\<lparr>fresh_ids := insert ?u (fresh_ids K)\<rparr>"
  from run have r: "r = Inr ?u" and t: "t = s\<lparr>uuid_supply := Suc ?u\<rparr>" by (auto simp: uuid_def bind_def seq_def)
  have "world_ok t" using s world_ok_same [of s t] t by (simp add: good_def same_tables_def)
  moreover have "?u \<notin> set (celery_ids (tasks d))" if "schemas s c = Some d" for d
    using s that by (auto simp: good_def world_ok_def db_ok_def list_all_iff)
  ultimately have "good c ?L t" using s t by (auto simp: good_def true_in_def)
  then show "\<exists>L. grows b K L \<and> good c L t \<and> (\<forall>x. r = Inr x \<longrightarrow> x \<in> fresh_ids L)"
    using r by (intro exI [of _ ?L]) (auto simp: grows_def)
qed


text \<open>Rows that a query gives are known from then on.\<close>

lemma keep_rows:
  assumes "\<And>d x. f d = Inr x \<Longrightarrow> W x \<subseteq> set (workflows d) \<and> T x \<subseteq> set (tasks d)"
  shows "keep b c K (db_query f) (\<lambda>L x. (\<forall>w \<in> W x. wf_known L w) \<and> (\<forall>t \<in> T x. task_known L t))"
proof (rule keepI)
  fix s r t assume s: "good c K s" and run: "db_query f s = (r, t)"
  have t: "t = s" using run by (auto simp: db_query_def split: option.splits)
  show "\<exists>L. grows b K L \<and> good c L t \<and> (\<forall>x. r = Inr x \<longrightarrow> (\<forall>w \<in> W x. wf_known L w) \<and> (\<forall>t \<in> T x. task_known L t))"
  proof (cases "\<exists>d x. schemas s c = Some d \<and> r = Inr x")
    case True
    then obtain d x where d: "schemas s c = Some d" and r: "r = Inr x" by blast
    let ?L = "K\<lparr>known_wfs := known_wfs K \<union> wf_id ` W x, known_tasks := known_tasks K \<union> task_key ` T x\<rparr>"
    have ok: "db_ok (uuid_supply s) d" using s d by (simp add: good_def world_ok_def)
    have "f d = Inr x" using run r d s by (auto simp: db_query_def cur_db_def good_def)
    note sub = assms [OF this]
    have "good c ?L t" using s t d sub by (auto simp: good_def true_in_def)
    moreover have "\<forall>w \<in> W x. wf_known ?L w" "\<forall>t \<in> T x. task_known ?L t"
      using ok sub by (auto simp: wf_known_def task_known_def db_ok_def list_all_iff)
    ultimately show ?thesis using r by (intro exI [of _ ?L]) (auto simp: grows_def)
  next
    case False
    then show ?thesis using s t run
      by (intro exI [of _ K]) (auto simp: db_query_def cur_db_def good_def split: option.splits)
  qed
qed

lemma keep_query [kept]: "keep b c K (db_query f) anything"
  using keep_rows [of f "\<lambda>_. {}" "\<lambda>_. {}"] keep_anything by blast

lemma keep_get_workflow [kept]: "keep b c K (get_workflow i) (\<lambda>L w. wf_known L w \<and> wf_id w = i)"
proof -
  have "keep b c K (get_workflow i) (\<lambda>L w. (\<forall>w' \<in> {w}. wf_known L w') \<and> (\<forall>t \<in> {}. task_known L t))"
    unfolding get_workflow_def by (rule keep_rows) (auto dest: find_row_Some)
  moreover have "wf_id w = i" if "fst (get_workflow i s) = Inr w" for s w
    using that by (auto simp: get_workflow_def db_query_def dest: find_row_Some split: option.splits)
  ultimately show ?thesis unfolding keep_def by simp
qed

lemma keep_get_object [kept]: "keep b c K (get_object i) wf_known"
proof -
  have "keep b c K (get_object i) (\<lambda>L w. (\<forall>w' \<in> {w}. wf_known L w') \<and> (\<forall>t \<in> {}. task_known L t))"
    unfolding get_object_def by (rule keep_rows) (auto dest: find_row_Some)
  then show ?thesis by (rule keep_post) auto
qed

lemma keep_task_rows:
  assumes "\<And>d x. f d = Inr x \<Longrightarrow> T x \<subseteq> set (tasks d)"
  shows "keep b c K (db_query f) (\<lambda>L x. \<forall>t \<in> T x. task_known L t)"
  using keep_rows [of f "\<lambda>_. {}" T b c K] assms by simp

lemma keep_workflow_rows:
  assumes "\<And>d x. f d = Inr x \<Longrightarrow> W x \<subseteq> set (workflows d)"
  shows "keep b c K (db_query f) (\<lambda>L x. \<forall>w \<in> W x. wf_known L w)"
  using keep_rows [of f W "\<lambda>_. {}" b c K] assms by simp

lemma keep_get_task [kept]:
  "keep b c K (get_task_by_celery_id i) task_known" "keep b c K (get_parent_task pw w) task_known"
proof -
  have one: "keep b c K (db_query (\<lambda>d. objects_get P (tasks d))) task_known" for P
    using keep_task_rows [of "\<lambda>d. objects_get P (tasks d)" "\<lambda>t. {t}" b c K] by (auto dest: objects_get_sound)
  show "keep b c K (get_task_by_celery_id i) task_known" "keep b c K (get_parent_task pw w) task_known"
    unfolding get_task_by_celery_id_def get_parent_task_def by (rule one)+
qed

lemma keep_other_queries [kept]:
  "keep b c K (get_template i) anything" "keep b c K (get_space_row i) anything" "keep b c K (get_user_row i) anything"
  "keep b c K (get_user n) anything" "keep b c K (get_space_by_code code) anything" "keep b c K first_space anything"
  by (simp_all add: get_template_def get_space_row_def get_user_row_def get_user_def get_space_by_code_def first_space_def
      keep_query)

text \<open>An update of the current schema that keeps its tables good.\<close>

lemma keep_update:
  assumes "engine_update f"
    and "\<And>n d. db_ok n d \<Longrightarrow> true_in K d \<Longrightarrow> (\<forall>u \<in> fresh_ids K. u < n) \<Longrightarrow> db_ok n (f d) \<and> true_in L (f d)"
    and "grows b K L" and "fresh_ids L \<subseteq> fresh_ids K"
  shows "keep b c K (db_update f) (\<lambda>M _. M = L)"
proof (rule keepI)
  fix s r t assume s: "good c K s" and run: "db_update f s = (r, t)"
  have path: "search_path s = c" using s by (simp add: good_def)
  show "\<exists>M. grows b K M \<and> good c M t \<and> (\<forall>x. r = Inr x \<longrightarrow> M = L)"
  proof (cases "schemas s c")
    case None
    then show ?thesis using s run path assms(3) by (intro exI [of _ K]) (auto simp: db_update_def cur_db_def)
  next
    case (Some d)
    then have t: "t = s\<lparr>schemas := (schemas s)(c \<mapsto> f d)\<rparr>"
      using run path by (auto simp: db_update_def cur_db_def)
    have "db_ok (uuid_supply s) d" "true_in K d" "\<forall>u \<in> fresh_ids K. u < uuid_supply s"
      using s Some by (simp_all add: good_def world_ok_def)
    from assms(2) [OF this] have ok: "db_ok (uuid_supply s) (f d)" "true_in L (f d)" by simp_all
    have "home x t" if "home x s" for x
      using that assms(1) Some by (auto simp: t home_def engine_update_def)
    then have "world_ok t" using s ok(1) Some by (auto simp: good_def world_ok_def t)
    then have "good c L t" using s ok(2) t assms(4) path by (auto simp: good_def)
    then show ?thesis using assms(3) by blast
  qed
qed


lemma keep_put_workflow [kept]:
  assumes "wf_known K w"
  shows "keep b c K (put_workflow w) anything"
proof -
  let ?f = "\<lambda>d. d\<lparr>workflows := save_row wf_id w (workflows d)\<rparr>"
  have "keep b c K (db_update ?f) (\<lambda>M _. M = K)"
  proof (rule keep_update)
    fix n d assume "db_ok n d" "true_in K d"
    moreover have "wf_id w \<in> wf_id ` set (workflows d)" using assms calculation(2) by (auto simp: true_in_def wf_known_def)
    ultimately show "db_ok n (?f d) \<and> true_in K (?f d)"
      using assms db_ok_save_workflow by (auto simp: true_in_def wf_known_def ids_save_row)
  qed (auto simp: engine_update_def)
  then show ?thesis unfolding put_workflow_def by (rule keep_anything)
qed

lemma keep_save_task [kept]:
  assumes "task_known K t"
  shows "keep b c K (save_task t) anything"
proof -
  let ?f = "\<lambda>d. d\<lparr>tasks := save_row task_id t (tasks d)\<rparr>"
  have "keep b c K (db_update ?f) (\<lambda>M _. M = K)"
  proof (rule keep_update)
    fix n d assume ok: "db_ok n d" and K: "true_in K d"
    have "task_key t \<in> task_key ` set (tasks d)" "task_space t \<noteq> None"
      using assms K by (auto simp: true_in_def task_known_def)
    note saved = db_ok_save_task [OF ok this]
    have "task_key ` set (save_row task_id t (tasks d)) = task_key ` set (tasks d)"
      using arg_cong [OF saved(2), of set] by simp
    moreover have "celery_ids (save_row task_id t (tasks d)) = celery_ids (tasks d)"
      unfolding celery_ids_key saved(2) ..
    ultimately show "db_ok n (?f d) \<and> true_in K (?f d)" using saved(1) K by (simp add: true_in_def)
  qed (auto simp: engine_update_def)
  then have "keep b c K (db_update ?f) anything" by (rule keep_anything)
  then show ?thesis unfolding save_task_def by (intro keep_branches(1) keep_pure)
qed

lemma keep_insert_workflow [kept]:
  assumes "\<And>p. parent w = Some p \<Longrightarrow> p \<in> known_wfs K"
  shows "keep b c K (insert_workflow w) wf_known"
proof (rule keepI)
  fix s r t assume s: "good c K s" and run: "insert_workflow w s = (r, t)"
  have path: "search_path s = c" using s by (simp add: good_def)
  show "\<exists>L. grows b K L \<and> good c L t \<and> (\<forall>x. r = Inr x \<longrightarrow> wf_known L x)"
  proof (cases "schemas s c")
    case None
    then show ?thesis using s run path
      by (intro exI [of _ K]) (auto simp: insert_workflow_def bind_def db_query_def cur_db_def)
  next
    case (Some d)
    let ?w = "w\<lparr>wf_id := Suc (wf_seq d)\<rparr>"
    let ?f = "\<lambda>d. d\<lparr>workflows := workflows d @ [?w], wf_seq := Suc (wf_seq d)\<rparr>"
    let ?L = "K\<lparr>known_wfs := insert (wf_id ?w) (known_wfs K)\<rparr>"
    from Some path run have r: "r = Inr ?w" and t: "t = s\<lparr>schemas := (schemas s)(c \<mapsto> ?f d)\<rparr>"
      by (auto simp: insert_workflow_def bind_def seq_def db_query_def db_update_def cur_db_def Let_def)
    have ok: "db_ok (uuid_supply s) d" "true_in K d" using s Some by (simp_all add: good_def world_ok_def)
    have new: "db_ok (uuid_supply s) (?f d)" "older_parent ?w"
      using ok assms by (auto intro!: db_ok_insert_workflow simp: true_in_def)
    have "home x t" if "home x s" for x using that Some by (auto simp: t home_def)
    then have "world_ok t" using s new(1) Some by (auto simp: good_def world_ok_def t)
    then have "good c ?L t" using s ok path t by (auto simp: good_def true_in_def)
    then show ?thesis using r new(2) by (intro exI [of _ ?L]) (auto simp: grows_def wf_known_def)
  qed
qed

lemma keep_insert_task:
  assumes "task_workflow row \<in> known_wfs K" and "celery_task_id row = Some u" and "u \<in> fresh_ids K"
  shows "keep False c K (insert_task row) task_known"
proof (rule keepI)
  fix s r t assume s: "good c K s" and run: "insert_task row s = (r, t)"
  have path: "search_path s = c" using s by (simp add: good_def)
  show "\<exists>L. grows False K L \<and> good c L t \<and> (\<forall>x. r = Inr x \<longrightarrow> task_known L x)"
  proof (cases "task_space row = None \<or> schemas s c = None")
    case True
    then show ?thesis using s run path
      by (intro exI [of _ K]) (auto simp: insert_task_def bind_def db_query_def cur_db_def split: if_splits)
  next
    case False
    then obtain d where d: "schemas s c = Some d" and sp: "task_space row \<noteq> None" by auto
    let ?r = "row\<lparr>task_id := Suc (task_seq d)\<rparr>"
    let ?f = "\<lambda>d. d\<lparr>tasks := tasks d @ [?r], task_seq := Suc (task_seq d)\<rparr>"
    let ?L = "K\<lparr>known_tasks := insert (task_key ?r) (known_tasks K), fresh_ids := fresh_ids K - {u}\<rparr>"
    from d sp path run have r: "r = Inr ?r" and t: "t = s\<lparr>schemas := (schemas s)(c \<mapsto> ?f d)\<rparr>"
      by (auto simp: insert_task_def bind_def seq_def db_query_def db_update_def cur_db_def Let_def)
    have ok: "db_ok (uuid_supply s) d" "true_in K d" "u < uuid_supply s"
      using s d assms(3) by (simp_all add: good_def world_ok_def)
    have "u \<notin> set (celery_ids (tasks d))" using ok(2) assms(3) by (auto simp: true_in_def)
    then have new: "db_ok (uuid_supply s) (?f d)"
      using ok sp assms by (intro db_ok_insert_task) (auto simp: true_in_def)
    have ids: "set (celery_ids (tasks d @ [?r])) = insert u (set (celery_ids (tasks d)))"
      using assms(2) by (simp add: celery_ids_def)
    have "home x t" if "home x s" for x using that d by (auto simp: t home_def)
    then have "world_ok t" using s new d by (auto simp: good_def world_ok_def t)
    moreover have "true_in ?L (?f d)" using ok(2) ids by (auto simp: true_in_def)
    ultimately have "good c ?L t" using s path t by (auto simp: good_def)
    then show ?thesis using r sp by (intro exI [of _ ?L]) (auto simp: grows_def task_known_def task_key_def)
  qed
qed


section \<open>The engine\<close>

lemma keep_report_to_platform [kept]: "keep b c K (report_to_platform env w) anything"
  by (rule keep_sends [OF report_to_platform_sends])

lemma keep_save_workflow [kept]: "wf_known K w \<Longrightarrow> keep b c K (save_workflow env w) anything"
  unfolding save_workflow_def by (rule kept | assumption)+

lemma keep_ret: "Q K x \<Longrightarrow> keep b c K (ret x) Q"
  by (auto simp: keep_def)

lemma keep_create_workflow [kept]:
  "(\<And>p. parent w = Some p \<Longrightarrow> p \<in> known_wfs K) \<Longrightarrow> keep b c K (create_workflow env w) wf_known"
  unfolding create_workflow_def
  by (rule keep_bind [OF keep_insert_workflow], assumption, rule keep_seq [OF keep_report_to_platform], rule keep_ret)
    (auto intro: known_grows)

lemma keep_send_alert [kept]: "keep b c K (send_alert env w) anything"
  unfolding send_alert_def by (rule kept)+

lemma keep_cancel_task [kept]: "task_known K t \<Longrightarrow> keep b c K (cancel_task t) anything"
  unfolding cancel_task_def by (rule kept | fastforce)+

lemma keep_tasks_of [kept]: "keep b c K (db_query (\<lambda>d. Inr (filter P (tasks_of i d)))) (\<lambda>L ts. \<forall>t \<in> set ts. task_known L t)"
  by (rule keep_task_rows) (auto simp: tasks_of_def)

lemma keep_tasks_of_all: "keep b c K (db_query (\<lambda>d. Inr (tasks_of i d))) (\<lambda>L ts. \<forall>t \<in> set ts. task_known L t)"
  by (rule keep_task_rows) (auto simp: tasks_of_def)

lemma keep_cancel [kept]: "wf_known K w \<Longrightarrow> keep b c K (cancel env w) anything"
  unfolding cancel_def
  by (rule keep_bind [OF keep_tasks_of_all]) (rule kept | fastforce)+

lemma keep_dispatch_next [kept]: "keep b c K (dispatch_next w ns adj conns n) anything"
  unfolding dispatch_next_def by (rule kept)+

lemma keep_handle_task_success [kept]: "task_known K t \<Longrightarrow> keep b c K (handle_task_success env n t v) anything"
proof (induction n arbitrary: K t)
  case (Suc n)
  show ?case unfolding handle_by_advance advance_def done_workflow_def
    using Suc.prems by - (rule kept Suc.IH | (simp, blast intro: known_grows) | simp)+
qed (simp add: handle_task_success.simps keep_pure)


text \<open>Entering the schema of a context, where the connection already is or goes to.\<close>

lemma same_tables_set_schema: "within same_tables (set_schema_from_context ctx)"
proof (rule withinI)
  fix s
  show "same_tables s (snd (set_schema_from_context ctx s))"
    using set_schema_state [of ctx s] by (auto simp: same_tables_def)
qed

lemma keep_enter:
  assumes "\<And>code. space_of ctx = Some code \<Longrightarrow> ascii_lower code = c"
  shows "keep b c K (set_schema_from_context ctx) anything"
  using assms by (intro keep_quiet set_schema_inside same_tables_set_schema)

lemma keep_on_failure:
  assumes "\<And>code. space_of ctx = Some code \<Longrightarrow> ascii_lower code = c"
  shows "keep b c K (on_failure env n cid e ctx) anything"
proof (induction n arbitrary: K cid)
  case (Suc n)
  show ?case unfolding on_failure.simps
    by (rule kept keep_enter Suc.IH assms | assumption | (simp, blast intro: known_grows) | simp)+
qed (simp add: on_failure.simps keep_pure)

lemma keep_before_start:
  assumes "\<And>code. space_of ctx = Some code \<Longrightarrow> ascii_lower code = c"
  shows "keep b c K (before_start env cid ctx) task_known"
  unfolding before_start_def Let_def
  by (rule kept keep_enter keep_ret assms | assumption | (simp, blast intro: known_grows) | simp)+

lemma keep_on_success:
  assumes "\<And>code. space_of ctx = Some code \<Longrightarrow> ascii_lower code = c"
  shows "keep b c K (on_success env v cid ctx) anything"
  unfolding on_success_def
  by (rule kept keep_enter assms | assumption | (simp, blast intro: known_grows))+

section \<open>The steps\<close>

lemma keep_get_by_user_code:
  assumes "code \<noteq> []" and "ascii_lower code = c" and "CHR ''.'' \<notin> set code"
  shows "keep b c K (get_by_user_code env sync (code @ ''.'' @ name)) anything"
proof (rule keep_quiet)
  show "within (inside c) (get_by_user_code env sync (code @ ''.'' @ name))"
    by (rule get_by_user_code_inside [OF assms])
  show "within same_tables (get_by_user_code env sync (code @ ''.'' @ name))"
    by (rule within_mono [OF get_by_user_code_lookup]) (simp add: lookup_only_def same_tables_def)
qed

lemma keep_sync [kept]: "keep b c K (sync_for_schema env m pats) anything"
  by (intro keep_quiet inside.sync_for_schema same_tables.sync_for_schema)

lemma keep_sync_import [kept]: "keep b c K (sync_import env m v) anything"
  unfolding sync_import_def Let_def by (rule kept)+

lemma keep_run_registered [kept]: "keep b c K (run_registered env t kw name) anything"
  unfolding run_registered_def Let_def by (rule kept)+

lemma keep_start_nested [kept]:
  assumes "wf_known K w" and "task_known K t"
  shows "keep b c K (start_nested env t kw w code) anything"
  unfolding start_nested_def
proof (rule keep_bind)
  show "keep b c K (catch (get_template_for code (wf_space w)) (\<lambda>e. throw (Raised ''Exception'' (str_exc env e)))) anything"
    unfolding get_template_for_def by (rule kept)+
  fix L and tp :: template_row
  let ?w = "set_payload (kw_payload kw) ((new_workflow_row (wf_space w) (wf_owner w))
      \<lparr>wf_user_code := Some code, wf_node_id := task_node_id t, parent := Some (wf_id w), workflow_template := Some (tp_id tp)\<rparr>)"
  assume g: "grows b K L"
  have "p \<in> known_wfs L" if "parent ?w = Some p" for p
    using that assms(1) g by (auto simp: set_payload_def wf_known_def grows_def)
  then show "keep b c L (bind (create_workflow env ?w) (\<lambda>child. seq (apply_async (ExecuteWorkflowV2 (wf_id child)
       \<lparr>ctx_realm_code = ctx_realm_code (kw_context kw), ctx_space_code = ctx_space_code (kw_context kw)\<rparr>))
     (seq (save_task (t\<lparr>task_status := TNestedProgress\<rparr>)) (ret JNull)))) anything"
    using assms(2) g
    by (intro keep_bind [OF keep_create_workflow]) (rule kept | (simp, blast intro: known_grows) | simp)+
qed

lemma keep_step_by_name:
  assumes "tenant_context c (kw_context kw)" and "wf_known K w" and "task_known K t"
  shows "keep b c K (step_by_name env t kw w) anything"
proof -
  from assms(1) obtain code where code: "ctx_space_code (kw_context kw) = Some code" "code \<noteq> []"
      "ascii_lower code = c" "CHR ''.'' \<notin> set code"
    by (auto simp: tenant_context_def split: option.splits)
  show ?thesis
    unfolding step_by_name_def code(1) option.case Let_def
    using assms(2,3) by - (rule kept keep_get_by_user_code [OF code(2-4)] | (blast intro: known_grows))+
qed

lemma tenant_context_lower: "tenant_context c ctx \<Longrightarrow> space_of (Some ctx) = Some code \<Longrightarrow> ascii_lower code = c"
  by (auto simp: tenant_context_def space_of_def split: option.splits if_splits)

lemma keep_execute_workflow_step:
  assumes "tenant_context c (kw_context kw)" and "task_known K t"
  shows "keep b c K (execute_workflow_step env t kw) anything"
proof -
  have outcome: "keep b c L (case r of Returns v \<Rightarrow> ret v | NoMain \<Rightarrow> ret JNull | Raises e \<Rightarrow> throw e) anything" for r L
    by (cases r) (simp_all add: keep_pure)
  show ?thesis unfolding execute_workflow_step_def
    using assms(2)
    by - (rule kept keep_enter [OF tenant_context_lower [OF assms(1)]] keep_step_by_name [OF assms(1)] outcome
        | assumption | (blast intro: known_grows))+
qed

end
