(* ===== verification/Worker.thy ===== *)
theory Worker
  imports Ledger
begin

text \<open>
  Every Celery task of the engine, the builder and the launch keep the invariant of the
  tables.  A handler may leave its schema at its end (\<^verbatim>\<open>task_postrun\<close>, the lookup of a
  definition of another space), so that the last part of it is only asked for the invariant.
\<close>

section \<open>Handlers that may leave the schema at the end\<close>

definition finish :: "string \<Rightarrow> ledger \<Rightarrow> 'a io \<Rightarrow> bool" where
  "finish c K m \<longleftrightarrow> (\<forall>s. good c K s \<longrightarrow> world_ok (snd (m s)))"

lemma finish_keep: "keep b c K m Q \<Longrightarrow> finish c K m"
  by (auto simp: keep_def finish_def good_def)

lemma finish_bind:
  assumes "keep b c K m Q" and "\<And>L x. grows b K L \<Longrightarrow> Q L x \<Longrightarrow> finish c L (f x)"
  shows "finish c K (bind m f)"
  unfolding finish_def
proof (intro allI impI)
  fix s assume s: "good c K s"
  obtain r t where m: "m s = (r, t)" by force
  from assms(1) s m obtain L where L: "grows b K L" "good c L t" "\<forall>x. r = Inr x \<longrightarrow> Q L x" by (rule keepD)
  show "world_ok (snd (bind m f s))"
  proof (cases r)
    case (Inl e)
    with m L(2) show ?thesis by (simp add: bind_raise good_def)
  next
    case (Inr x)
    with m L assms(2) [OF L(1)] show ?thesis by (simp add: bind_value finish_def)
  qed
qed

lemma finish_catch: "finish c K m \<Longrightarrow> finish c K (catch m (\<lambda>_. ret x))"
  by (auto simp: finish_def catch_def split: prod.splits sum.splits)

lemma finish_branch: "(p \<Longrightarrow> finish c K m) \<Longrightarrow> (\<not> p \<Longrightarrow> finish c K k) \<Longrightarrow> finish c K (if p then m else k)"
  by simp

lemma world_ok_path [simp]: "world_ok (s\<lparr>search_path := p\<rparr>) = world_ok s"
  by (simp add: world_ok_def)

lemma world_ok_queue [simp]: "world_ok (s\<lparr>queue := q\<rparr>) = world_ok s"
  by (simp add: world_ok_def)

lemma world_ok_clock [simp]: "world_ok (s\<lparr>clock := k\<rparr>) = world_ok s"
  by (simp add: world_ok_def)

lemma signal_cleanup_run: "signal cleanup s = (Inr (), s\<lparr>search_path := ''public''\<rparr>)"
  by (simp add: signal_def cleanup_def set_search_path_def catch_def lower_public)

lemma keep_signal [kept]: "keep b c K m anything \<Longrightarrow> keep b c K (signal m) anything"
  unfolding signal_def by (rule kept | assumption)+

lemma finish_life_cycle:
  assumes "keep True c K before Q" and "\<And>L x. grows True K L \<Longrightarrow> Q L x \<Longrightarrow> keep True c L (body x) anything"
    and "\<And>L v. grows True K L \<Longrightarrow> keep True c L (succ v) anything"
    and "\<And>L e. grows True K L \<Longrightarrow> keep True c L (fail e) anything"
  shows "finish c K (life_cycle before body succ fail cleanup)"
  unfolding finish_def
proof (intro allI impI)
  fix s assume s: "good c K s"
  have failed: "world_ok (snd (seq (signal (fail e)) k t))"
    if "good c L t" "grows True K L" "\<And>u. world_ok u \<Longrightarrow> world_ok (snd (k u))" for e t L and k :: "unit io"
  proof -
    have "keep True c L (signal (fail e)) anything" using that(2) by (intro keep_signal assms(4))
    from finish_keep [OF this] have "world_ok (snd (signal (fail e) t))" using that(1) by (simp add: finish_def)
    then show ?thesis using that(3) by (auto simp: seq_def bind_def split: prod.splits sum.splits)
  qed
  have post: "world_ok u \<Longrightarrow> world_ok (snd (seq (signal cleanup) (throw e) u))" for u e
    by (simp add: seq_value [OF signal_cleanup_run])
  obtain r t where m: "bind before body s = (r, t)" by force
  have "keep True c K (bind before body) anything" using assms(1,2) by (rule keep_bind)
  from this s m obtain L where L: "grows True K L" "good c L t" by (rule keepD)
  show "world_ok (snd (life_cycle before body succ fail cleanup s))"
  proof (cases r)
    case (Inl e)
    with m failed [OF L(2,1), of "signal cleanup"] show ?thesis by (simp add: life_cycle_def signal_cleanup_run)
  next
    case (Inr v)
    obtain r' u where succ: "succ v t = (r', u)" by force
    from assms(3) [OF L(1)] L(2) succ obtain M where M: "grows True L M" "good c M u" by (rule keepD)
    have KM: "grows True K M" using L(1) M(1) by (rule grows_trans)
    have "world_ok u" using M(2) by (simp add: good_def)
    then show ?thesis using m succ Inr failed [OF M(2) KM post]
      by (cases r') (simp_all add: life_cycle_def signal_cleanup_run)
  qed
qed

lemma finish_run_step:
  assumes "tenant_context c (kw_context kw)"
  shows "finish c K (run_step env u kw)"
  unfolding run_step_def
  using tenant_context_lower [OF assms]
  by (intro finish_life_cycle [OF keep_before_start] keep_on_success keep_on_failure
      keep_execute_workflow_step [OF assms])


section \<open>The tasks\<close>

lemma keep_get_space_row_names: "keep b c K (get_space_row i) (\<lambda>L sp. names_schema c sp)"
proof (rule keepI)
  fix s r t assume s: "good c K s" and run: "get_space_row i s = (r, t)"
  have "names_schema c sp" if r: "r = Inr sp" for sp
  proof -
    have "search_path s = c" using s by (simp add: good_def)
    then obtain d where "schemas s c = Some d" "find_row space_id i (spaces d) = Some sp"
      using run r by (auto simp: get_space_row_def db_query_def cur_db_def split: option.splits)
    then show ?thesis using s by (auto simp: good_def world_ok_def home_def dest: find_row_Some)
  qed
  moreover have "t = s" using run by (auto simp: get_space_row_def db_query_def split: option.splits)
  ultimately show "\<exists>L. grows b K L \<and> good c L t \<and> (\<forall>x. r = Inr x \<longrightarrow> names_schema c x)" using s by blast
qed

lemma keep_port_value [kept]: "keep b c K (port_value i cur node conns port dflt) anything"
  unfolding port_value_def by (rule kept)+

lemma keep_are_inputs_ready [kept]: "keep b c K (are_inputs_ready i n conns) anything"
  unfolding are_inputs_ready_def by (rule kept)+

lemma finish_run_node:
  assumes "celery_applies env app" and "c \<noteq> []" and "wf_known K w"
  shows "finish c K (run_node env app cur w node conns)"
proof -
  have step: "finish c L (app (StepSig u kw q))" if "tenant_context c (kw_context kw)" for L u kw q
    using assms(1) finish_run_step [OF that] by (simp add: celery_applies_def)
  show ?thesis unfolding run_node_def
  proof (rule finish_bind [where b = True, OF keep_pure(3)], rule finish_bind [where b = True, OF keep_port_value],
        rule finish_bind [where b = True, OF keep_port_value], rule finish_bind [where b = True, OF keep_uuid],
        rule finish_bind [where b = True, OF keep_get_space_row_names], rule finish_bind [where b = True, OF keep_pure(3)],
        rule finish_bind [OF keep_insert_task])
    fix L1 L2 L3 L4 L5 L6 u
    assume "grows True K L1" "grows True L1 L2" "grows True L2 L3" "grows True L3 L4" "grows True L4 L5" "grows True L5 L6"
      and u: "u \<in> fresh_ids L4"
    then have "wf_known L6 w" and fresh: "u \<in> fresh_ids L6"
      using assms(3) by (blast intro: known_grows, auto simp: grows_def)
    then have "wf_id w \<in> known_wfs L6" by (simp add: wf_known_def)
    then show "task_workflow (set_task_payload pl ((new_task_row (wf_id w))\<lparr>celery_task_id := Some u, task_name := n,
        task_node_id := nd, task_space := sp, source_code := src\<rparr>)) \<in> known_wfs L6" for pl n nd sp src
      by (simp add: set_task_payload_def new_task_row_def)
    show "celery_task_id (set_task_payload pl ((new_task_row (wf_id w))\<lparr>celery_task_id := Some u, task_name := n,
        task_node_id := nd, task_space := sp, source_code := src\<rparr>)) = Some u" for pl n nd sp src
      by (simp add: set_task_payload_def)
    show "u \<in> fresh_ids L6" by (rule fresh)
  qed (simp add: step names_schema_context assms(2))
qed


text \<open>A task enters the schema of its context from whatever schema the connection was left in.\<close>

definition no_ledger :: ledger where
  "no_ledger = \<lparr>known_wfs = {}, known_tasks = {}, fresh_ids = {}\<rparr>"

lemma good_no_ledger: "world_ok s \<Longrightarrow> good (search_path s) no_ledger s"
  by (simp add: good_def no_ledger_def true_in_def)

lemma finish_here: "(\<And>c. finish c no_ledger m) \<Longrightarrow> world_ok s \<Longrightarrow> world_ok (snd (m s))"
  using good_no_ledger by (auto simp: finish_def)

lemma entered_ok:
  assumes "\<And>code. space_of ctx = Some code \<Longrightarrow> finish (ascii_lower code) no_ledger m" and "world_ok s"
  shows "world_ok (snd (seq (set_schema_from_context ctx) m s))"
proof -
  obtain r t where r: "set_schema_from_context ctx s = (r, t)" by force
  show ?thesis
  proof (cases r)
    case (Inl e)
    with r assms(2) show ?thesis by (auto simp: seq_raise dest: set_schema_raises)
  next
    case (Inr u)
    with r obtain code where code: "space_of ctx = Some code" "t = s\<lparr>search_path := ascii_lower code\<rparr>"
      by (auto simp: set_schema_ok)
    then have "good (ascii_lower code) no_ledger t" using good_no_ledger [of t] assms(2) by simp
    with assms(1) [OF code(1)] have "world_ok (snd (m t))" by (simp add: finish_def)
    with r Inr show ?thesis by (simp add: seq_value)
  qed
qed

lemma process_next_node_ok:
  assumes "celery_applies env app" and "world_ok s"
  shows "world_ok (snd (process_next_node env app cur i ns ctx conns s))"
  unfolding process_next_node_def
proof (rule entered_ok [OF _ assms(2)])
  fix code assume "space_of ctx = Some code"
  then have c: "ascii_lower code \<noteq> []"
    by (auto simp: space_of_def ascii_lower_def split: option.splits if_splits)
  have node: "finish (ascii_lower code) L (if wf_status w = WWait then save_workflow env (w\<lparr>current_node_id := Some cur\<rparr>)
      else bind (are_inputs_ready i cur conns) (\<lambda>ready. if \<not> ready then ret () else run_node env app cur w node conns))"
    if "wf_known L w" for L w node
    using that
    by (intro finish_branch finish_keep [where b = True, OF keep_save_workflow]
        finish_bind [where b = True, OF keep_are_inputs_ready] finish_keep [where b = True, OF keep_pure(1)]
        finish_run_node [OF assms(1) c]) (auto intro: known_grows)
  show "finish (ascii_lower code) no_ledger (catch
       (bind (get_workflow i) (\<lambda>w.
        bind (lift (or_raise (map_of ns cur) (KeyError cur))) (\<lambda>node.
          if wf_status w = WWait then save_workflow env (w\<lparr>current_node_id := Some cur\<rparr>)
          else bind (are_inputs_ready i cur conns) (\<lambda>ready.
            if \<not> ready then ret () else run_node env app cur w node conns))))
       (\<lambda>_. ret ()))"
    by (intro finish_catch finish_bind [where b = True, OF keep_get_workflow] finish_bind [where b = True, OF keep_pure(3)] node)
      (auto intro: known_grows)
qed

lemma execute_workflow_v2_ok: "world_ok s \<Longrightarrow> world_ok (snd (execute_workflow_v2 env i ctx s))"
  unfolding execute_workflow_v2_def
  by (rule entered_ok, rule finish_keep [where b = True and Q = anything])
    (rule kept | (simp, blast intro: known_grows) | simp)+

lemma start_ok: "world_ok s \<Longrightarrow> world_ok (snd (start env i ctx s))"
  unfolding start_def
  by (rule entered_ok, rule finish_keep [where b = True and Q = anything]) (rule kept | simp)+

lemma end_workflow_ok: "world_ok s \<Longrightarrow> world_ok (snd (end_workflow env i ctx s))"
proof -
  assume s: "world_ok s"
  have "world_ok (snd (seq (set_schema_from_context ctx)
      (bind (get_workflow i) (\<lambda>w. if wf_status w \<noteq> WError then save_workflow env (w\<lparr>wf_status := WSuccess\<rparr>) else ret ())) t))"
    if "world_ok t" for t
    by (rule entered_ok, rule finish_keep [where b = True and Q = anything]) (rule kept | simp add: that)+
  moreover have "sleep 500 s = (Inr (), s\<lparr>clock := clock s + 500\<rparr>)" by (simp add: sleep_def)
  ultimately show ?thesis using s by (simp add: end_workflow_def seq_value)
qed

lemma mark_as_canceled_ok: "world_ok s \<Longrightarrow> world_ok (snd (mark_as_canceled_init_tasks i ctx s))"
  unfolding mark_as_canceled_init_tasks_def
  by (rule entered_ok, rule finish_keep [where b = True, OF keep_bind [OF keep_tasks_of]])
    (rule kept | (simp, blast intro: known_grows) | simp)+


section \<open>The builder\<close>

lemma keep_reads: "within (=) m \<Longrightarrow> keep b c K m anything"
  by (intro keep_quiet; erule within_mono; simp add: inside_def same_tables_def)

lemma keep_parts [kept]:
  "keep b c K (get_tasks env code) anything" "keep b c K (get_queue env code) anything"
  "keep b c K (get_imports env code) anything" "keep b c K (get_failure_hook_task env code) anything"
  "keep b c K (get_success_hook_task env code) anything" "keep b c K (get_before_start_hook_task env code) anything"
  by (simp_all add: keep_reads parts_read get_failure_hook_task_def get_success_hook_task_def get_before_start_hook_task_def)

lemma keep_map_each [kept]:
  assumes "\<And>L x. grows b K L \<Longrightarrow> keep b c L (f x) anything"
  shows "keep b c K (map_each f xs) anything"
  using assms
proof (induction xs arbitrary: K)
  case (Cons x xs)
  have "keep b c L (map_each f xs) anything" if "grows b K L" for L
    using that by (intro Cons.IH Cons.prems) (auto intro: grows_trans)
  then show ?case unfolding map_each.simps
    by (intro keep_bind [OF Cons.prems] keep_bind [of b c _ "map_each f xs"] keep_pure) auto
qed (simp add: keep_pure)

definition same_workflow :: "builder \<Rightarrow> ledger \<Rightarrow> 'a \<times> builder \<Rightarrow> bool" where
  "same_workflow b K r \<longleftrightarrow> b_workflow (snd r) = b_workflow b"

lemma keep_new_task:
  assumes "wf_known K (b_workflow b)"
  shows "keep False c K (new_task b v hook single) (same_workflow b)"
  unfolding new_task_def
proof (rule keep_bind_steady [OF keep_uuid], rule keep_bind_steady [OF keep_other_queries(2)],
    rule keep_bind_steady [OF keep_pure(3)], rule keep_bind_steady [OF keep_pure(3)], rule keep_bind [OF keep_insert_task])
  fix L1 L2 L3 L4 u
  assume "grows True K L1" "grows True L1 L2" "grows True L2 L3" "grows True L3 L4" and u: "u \<in> fresh_ids L1"
  then have "wf_known L4 (b_workflow b)" and fresh: "u \<in> fresh_ids L4"
    using assms by (blast intro: known_grows, auto simp: grows_def)
  then have "wf_id (b_workflow b) \<in> known_wfs L4" by (simp add: wf_known_def)
  then show "task_workflow (set_previous p ((new_task_row (wf_id (b_workflow b)))\<lparr>celery_task_id := Some u, task_name := n,
      task_space := sp, is_hook := hook\<rparr>)) \<in> known_wfs L4" for p n sp
    by (simp add: set_previous_def new_task_row_def)
  show "celery_task_id (set_previous p ((new_task_row (wf_id (b_workflow b)))\<lparr>celery_task_id := Some u, task_name := n,
      task_space := sp, is_hook := hook\<rparr>)) = Some u" for p n sp
    by (simp add: set_previous_def)
  show "u \<in> fresh_ids L4" by (rule fresh)
qed (auto intro!: keep_ret simp: same_workflow_def)

lemma keep_parse_group:
  assumes "wf_known K (b_workflow b)"
  shows "keep False c K (parse_group b body hook) anything"
proof -
  have "keep False c L (group_task b hook t) anything" if "grows False K L" for L t
    unfolding group_task_def using assms that
    by (intro keep_bind [OF keep_new_task] keep_pure) (blast intro: known_grows)
  then show ?thesis unfolding parse_group_def
    by - (rule kept | (blast intro: grows_trans))+
qed


lemma keep_parse_task:
  assumes "wf_known K (b_workflow b)"
  shows "keep False c K (parse_task b task hook) (same_workflow b)"
proof (cases task)
  case (JStr x)
  have "keep False c K (bind (new_task b task hook True) (\<lambda>(sig, b'). ret (Single sig, b'))) (same_workflow b)"
    using assms by (intro keep_bind [OF keep_new_task]) (auto intro!: keep_ret simp: same_workflow_def split: prod.splits)
  then show ?thesis by (simp add: parse_task_def JStr)
next
  case (JObj ps)
  have "keep False c K (bind (parse_group b body hook) (\<lambda>sigs. bind uuid (\<lambda>_.
      ret (Group sigs None, b\<lparr>b_previous := JList (map sig_id sigs)\<rparr>)))) (same_workflow b)" for body
    by (intro keep_bind [OF keep_parse_group [OF assms]] keep_bind [OF keep_uuid]) (auto intro!: keep_ret simp: same_workflow_def)
  then show ?thesis by (auto simp: parse_task_def JObj keep_pure split: list.splits)
qed (simp_all add: parse_task_def keep_pure)

lemma keep_parse_flat_tasks:
  "wf_known K (b_workflow b) \<Longrightarrow> keep False c K (parse_flat_tasks b ts hook) (same_workflow b)"
proof (induction ts arbitrary: b K)
  case (Cons t ts)
  show ?case unfolding parse_flat_tasks.simps
  proof (rule keep_bind [OF keep_parse_task [OF Cons.prems]], clarify)
    fix L item b1 assume g: "grows False K L" and same: "same_workflow b L (item :: canvas_item, b1)"
    then have b1: "b_workflow b1 = b_workflow b" by (simp add: same_workflow_def)
    then have "wf_known L (b_workflow b1)" using g Cons.prems known_grows by simp
    note tail = Cons.IH [OF this]
    show "keep False c L (bind (parse_flat_tasks b1 ts hook) (\<lambda>(cs, b2). ret (item # cs, b2))) (same_workflow b)"
      by (rule keep_bind [OF tail]) (auto intro!: keep_ret simp: same_workflow_def b1 split: prod.splits)
  qed
qed (auto intro!: keep_ret simp: same_workflow_def)

lemma keep_parse_hook:
  "wf_known K (b_workflow b) \<Longrightarrow> keep False c K (parse_hook b hook) (same_workflow b)"
  unfolding parse_hook_def
  by (rule keep_bind [OF keep_parse_flat_tasks])
    (auto intro!: keep_ret keep_pure simp: same_workflow_def split: prod.splits list.splits)

definition knows :: "ledger \<Rightarrow> builder \<Rightarrow> bool" where
  "knows K b \<longleftrightarrow> wf_known K (b_workflow b)"

lemma keep_read_definition: "keep b c K (read_definition env i) knows"
  unfolding read_definition_def Let_def
proof (rule keep_bind [OF keep_get_workflow], (rule keep_bind [OF keep_parts(2)] keep_bind [OF keep_parts(1)]
    keep_bind [OF keep_parts(4)] keep_bind [OF keep_parts(5)] keep_bind [OF keep_parts(6)])+)
  fix L w L1 q L2 ts L3 fh L4 sh L5 bh
  let ?b = "\<lparr>b_workflow = w, custom_queues = JObj [], b_queue = q, b_imports = JNull, b_previous = JList [], canvas = [],
    b_tasks = ts, failure_hook = fh, failure_hook_canvas = [], success_hook = sh, success_hook_canvas = [], before_start_hook = bh\<rparr>"
  assume w: "wf_known L w \<and> wf_id w = i"
    and g: "grows b L L1" "grows b L1 L2" "grows b L2 L3" "grows b L3 L4" "grows b L4 L5"
  have parsed: "b_workflow b' = w" if "parse_queues ?b = Inr b'" for b'
    using that by (auto simp: parse_queues_def Let_def split: json.splits if_splits)
  have "wf_known L5 w" using w g by (blast intro: known_grows)
  then have "keep b c L5 (lift (parse_queues ?b)) knows"
    using parsed by (auto simp: keep_def knows_def)
  then show "keep b c L5 (bind (lift (parse_queues ?b)) (\<lambda>b. bind (get_imports env (workflow_str w))
      (\<lambda>im. ret (b\<lparr>b_imports := im\<rparr>)))) knows"
    by (rule keep_bind, intro keep_bind [OF keep_parts(3)] keep_ret) (auto simp: knows_def intro: known_grows)
qed

lemma knowsD: "knows K b \<Longrightarrow> wf_known K (b_workflow b)"
  by (simp add: knows_def)

lemma knows_grows: "grows b K L \<Longrightarrow> knows K x \<Longrightarrow> knows L x"
  by (auto simp: knows_def intro: known_grows)

lemma keep_add_before_start_hook:
  assumes "knows K b"
  shows "keep False c K (add_before_start_hook b) knows"
proof -
  have "wf_known K (b_workflow (b\<lparr>b_previous := JNull\<rparr>))" using assms by (simp add: knows_def)
  note hook = keep_parse_hook [OF this]
  show ?thesis unfolding add_before_start_hook_def
    using assms by (intro keep_branches(1) keep_bind [OF hook] keep_ret)
      (auto intro!: keep_ret simp: knows_def same_workflow_def split: prod.splits intro: known_grows)
qed


lemma keep_build: "keep False c K (build env i) knows"
  unfolding build_def Let_def
proof (rule keep_bind [OF keep_read_definition], rule keep_bind [OF keep_pure(3)])
  fix L0 b0 L1 and ts :: "json list" assume b0: "knows L0 b0" and g1: "grows False L0 L1"
  have known: "wf_known L1 (b_workflow b0)" using known_grows(1) [OF g1 knowsD [OF b0]] .
  show "keep False c L1 (bind (parse_flat_tasks b0 ts False) (\<lambda>(cs, b1).
      bind (add_before_start_hook (b1\<lparr>canvas := cs\<rparr>)) (\<lambda>b2. bind (get_space_row (wf_space (b_workflow b2))) (\<lambda>sp.
       ret (b2\<lparr>canvas := Single (StartSig (wf_id (b_workflow b2)) (context_of sp) (b_queue b2)) # canvas b2
              @ [Single (EndSig (wf_id (b_workflow b2)) (context_of sp) (b_queue b2))]\<rparr>))))) knows"
  proof (rule keep_bind [OF keep_parse_flat_tasks [OF known]], clarify)
    fix L2 and cs :: "canvas_item list" and b1 assume g2: "grows False L1 L2" and "same_workflow b0 L2 (cs, b1)"
    then have "knows L2 (b1\<lparr>canvas := cs\<rparr>)"
      using known_grows(1) [OF g2 known] by (simp add: knows_def same_workflow_def)
    from keep_add_before_start_hook [OF this] show "keep False c L2 (bind (add_before_start_hook (b1\<lparr>canvas := cs\<rparr>))
       (\<lambda>b2. bind (get_space_row (wf_space (b_workflow b2))) (\<lambda>sp.
       ret (b2\<lparr>canvas := Single (StartSig (wf_id (b_workflow b2)) (context_of sp) (b_queue b2)) # canvas b2
              @ [Single (EndSig (wf_id (b_workflow b2)) (context_of sp) (b_queue b2))]\<rparr>)))) knows"
      by (rule keep_bind, intro keep_bind [OF keep_other_queries(2)] keep_ret) (auto simp: knows_def intro: known_grows)
  qed
qed

lemma keep_build_hooks:
  assumes "knows K b"
  shows "keep False c K (build_hooks b) knows"
  unfolding build_hooks_def
proof (rule keep_bind)
  show "keep False c K (if truthy (failure_hook b) \<and> failure_hook_canvas b = [] then
             bind (get_space_row (wf_space (b_workflow b))) (\<lambda>sp.
               ret (b\<lparr>b_previous := JNull, failure_hook_canvas :=
                      [FailureHooksSig (wf_id (b_workflow b)) (b_queue b) [failure_hook b]
                         (payload (b_workflow b)) (context_of sp)]\<rparr>))
           else ret b) knows"
    using assms by (intro keep_branches(1) keep_bind [OF keep_other_queries(2)] keep_ret) (auto simp: knows_def intro: known_grows)
  fix L b1 assume b1: "knows L b1"
  show "keep False c L (bind (if truthy (success_hook b1) \<and> success_hook_canvas b1 = [] then
             bind (parse_hook b1 (success_hook b1)) (\<lambda>(c, b2). ret (b2\<lparr>success_hook_canvas := [c]\<rparr>))
           else ret b1) (\<lambda>b3. ret (b3\<lparr>b_previous := b_previous b\<rparr>))) knows"
  proof (rule keep_bind)
    show "keep False c L (if truthy (success_hook b1) \<and> success_hook_canvas b1 = [] then
             bind (parse_hook b1 (success_hook b1)) (\<lambda>(c, b2). ret (b2\<lparr>success_hook_canvas := [c]\<rparr>))
           else ret b1) knows"
      using b1 by (intro keep_branches(1) keep_bind [OF keep_parse_hook [OF knowsD [OF b1]]] keep_ret)
        (auto intro!: keep_ret simp: knows_def same_workflow_def split: prod.splits intro: known_grows)
  qed (auto intro!: keep_ret simp: knows_def)
qed

lemma keep_run_canvas:
  assumes "knows K b"
  shows "keep False c K (run_canvas env b) anything"
proof -
  have "keep False c L (case publish_fails env m of None \<Rightarrow> apply_async m
      | Some e \<Rightarrow> seq (save_workflow env ((b_workflow b')\<lparr>wf_status := WError\<rparr>)) (throw e)) anything" if "knows L b'" for L b' m
    using that by - (rule kept | simp add: knows_def)+
  then show ?thesis unfolding run_canvas_def Let_def
    using assms by (intro keep_bind [OF keep_uuid] keep_bind [OF keep_build_hooks]) (auto intro: knows_grows)
qed


section \<open>Launches and requests\<close>

text \<open>A lookup of a definition may leave the connection in another schema; what follows is done there.\<close>

lemma finish_lookup:
  assumes "within same_tables m" and "\<And>c x. finish c no_ledger (f x)"
  shows "finish c K (bind m f)"
  unfolding finish_def
proof (intro allI impI)
  fix s assume "good c K s"
  then have s: "world_ok s" by (simp add: good_def)
  obtain r t where m: "m s = (r, t)" by force
  with assms(1) have "same_tables s t" by (rule within_run)
  then have t: "world_ok t" using s by (rule world_ok_same)
  show "world_ok (snd (bind m f s))"
  proof (cases r)
    case (Inl e)
    with m t show ?thesis by (simp add: bind_raise)
  next
    case (Inr x)
    with m finish_here [OF assms(2) t, of x] show ?thesis by (simp add: bind_value)
  qed
qed

lemma same_tables_definition: "within same_tables (get_by_user_code env sync code)"
  by (rule within_mono [OF get_by_user_code_lookup]) (simp add: lookup_only_def same_tables_def)

lemma keep_find_template [kept]: "keep b c K (find_template code sp) anything"
  unfolding find_template_def get_template_for_def by (rule kept)+

lemma keep_launch:
  assumes "parent w = None"
  shows "keep False c K (bind (create_workflow env w) (\<lambda>w. bind (lift r) (\<lambda>version.
     seq (if version = JStr ''2'' then apply_async (ExecuteWorkflowV2 (wf_id w) ctx) else bind (build env (wf_id w)) (run_canvas env))
       (ret (to_dict True w))))) anything"
  using assms
  by (intro keep_bind [OF keep_create_workflow]) (rule kept keep_bind [OF keep_build] keep_run_canvas | simp | assumption)+

lemma finish_execute_workflow: "finish c K (execute_workflow env user code pl realm space pid cron)"
proof -
  have new: "parent (set_payload v ((new_workflow_row sp u)\<lparr>wf_user_code := uc, workflow_template := tp, is_manager := im,
      platform_task_id := p, wf_crontab := cr\<rparr>)) = None" for v sp u uc tp im p cr
    by (simp add: set_payload_def new_workflow_row_def)
  show ?thesis
    unfolding execute_workflow_def
    by (intro finish_bind [where b = False, OF keep_other_queries(4)] finish_lookup [OF same_tables_definition]
        finish_keep [where b = False and Q = anything])
      (rule kept keep_launch [OF new])+
qed

lemma finish_ret: "finish c K m \<Longrightarrow> finish c K (bind m (\<lambda>x. ret (g x)))"
  by (auto simp: finish_def bind_def split: prod.splits sum.splits)

lemma finish_run_new_workflow: "finish c K (run_new_workflow env w code pl)"
  unfolding run_new_workflow_def Let_def
  by (intro finish_branch finish_keep [where b = False, OF keep_pure(2)] finish_bind [where b = False, OF keep_other_queries(2)]
      finish_lookup [OF same_tables_definition] finish_bind [where b = False, OF keep_pure(3)]
      finish_bind [where b = False, OF keep_other_queries(3)] finish_execute_workflow)

lemma keep_schedules: "keep b c K (db_update (\<lambda>d. d\<lparr>schedules := f d\<rparr>)) (\<lambda>M _. M = K)"
  by (rule keep_update) (auto simp: engine_update_def db_ok_def true_in_def)

lemma execute_ok: "world_ok s \<Longrightarrow> world_ok (snd (execute env code pl ctx cron sid s))"
proof -
  assume s: "world_ok s"
  let ?m = "bind now (\<lambda>time.
        seq (db_update (\<lambda>d. d\<lparr>schedules := mark_last_run sid time (schedules d)\<rparr>))
        (bind (get_schedule sid) (\<lambda>r.
         bind (get_user_row (sched_owner r)) (\<lambda>u.
         bind (get_user (username u)) (\<lambda>owner.
         bind (get_space_by_code (case ctx of None \<Rightarrow> None | Some c \<Rightarrow> ctx_space_code c)) (\<lambda>sp.
           execute_workflow env (username owner) code pl (realm_code sp) (Some (space_code sp)) JNull cron))))))"
  have "finish c no_ledger ?m" for c
    unfolding seq_def get_schedule_def
    by (intro finish_bind [where b = False, OF keep_plain(4)] finish_bind [where b = False, OF keep_schedules]
        finish_bind [where b = False, OF keep_query] finish_bind [where b = False, OF keep_other_queries(3)]
        finish_bind [where b = False, OF keep_other_queries(4)] finish_bind [where b = False, OF keep_other_queries(5)]
        finish_execute_workflow)
  then have "world_ok (snd (seq (set_schema_from_context ctx) ?m s))" by (intro entered_ok s)
  then show ?thesis by (auto simp: execute_def catch_def split: prod.splits sum.splits)
qed

end
