(* ===== verification/System.thy ===== *)
theory System
  imports Worker Scheduling
begin

text \<open>
  The whole system as a state machine: a worker takes any message of the queue and runs its
  handler in the life cycle of Celery, a request runs a view in a schema, and time passes.
  Every step keeps the invariant of the tables, so that it holds in every reachable state,
  and with it what the other theories assume of the tables.
\<close>

section \<open>Views\<close>

datatype view =
    RunWorkflow http_request | Relaunch http_request nat | CancelWorkflow nat | BulkCancel http_request
  | BulkDelete http_request | PauseWorkflow nat | ResumeWorkflow http_request nat | RunManual nat
  | RefreshStorage http_request

fun run_view :: "env \<Rightarrow> view \<Rightarrow> http_response io" where
  "run_view env (RunWorkflow req) = run_workflow env req"
| "run_view env (Relaunch req i) = relaunch env req i"
| "run_view env (CancelWorkflow i) = cancel_view env i"
| "run_view env (BulkCancel req) = bulk_cancel env req"
| "run_view env (BulkDelete req) = bulk_delete env req"
| "run_view env (PauseWorkflow i) = pause_workflow env i"
| "run_view env (ResumeWorkflow req i) = resume_workflow env req i"
| "run_view env (RunManual i) = run_manual env i"
| "run_view env (RefreshStorage req) = refresh_storage env req"

lemma finish_run_workflow: "finish c K (run_workflow env req)"
  unfolding run_workflow_def Let_def
  by (intro finish_bind [where b = False, OF keep_pure(3)] finish_lookup [OF same_tables_definition]
      finish_ret finish_execute_workflow)

lemma finish_option:
  "(x = None \<Longrightarrow> finish c K m) \<Longrightarrow> (\<And>y. x = Some y \<Longrightarrow> finish c K (f y)) \<Longrightarrow> finish c K (case x of None \<Rightarrow> m | Some y \<Rightarrow> f y)"
  by (simp split: option.splits)

lemma finish_relaunch: "finish c K (relaunch env req i)"
proof -
  have "finish c L (seq (get_user n) (throw e :: http_response io))" for L n e
    by (rule finish_keep [where b = False and Q = anything]) (rule kept)+
  then show ?thesis unfolding relaunch_def
    by (intro finish_bind [where b = False, OF keep_get_workflow] finish_option finish_ret finish_execute_workflow)
qed

lemma finish_cancel_view: "finish c K (cancel_view env i)"
  unfolding cancel_view_def
  by (rule finish_keep [where b = False and Q = anything]) (rule kept | simp)+

lemma keep_workflows_in [kept]:
  "keep b c K (db_query (\<lambda>d. Inr (filter P (workflows_in ids d)))) (\<lambda>L ws. \<forall>w \<in> set ws. wf_known L w)"
  by (rule keep_workflow_rows) (auto simp: workflows_in_def)

lemma finish_bulk_cancel: "finish c K (bulk_cancel env req)"
  unfolding bulk_cancel_def
  by (rule finish_keep [where b = False and Q = anything], rule keep_bind [OF keep_pure(3)], rule keep_bind [OF keep_workflows_in])
    (rule kept | (simp, blast intro: known_grows) | simp)+

lemma finish_pause: "finish c K (pause_workflow env i)"
  unfolding pause_workflow_def
  by (rule finish_keep [where b = False and Q = anything]) (rule kept | simp)+

lemma keep_resume_from [kept]: "keep b c K (resume_from w cur) anything"
  unfolding resume_from_def by (rule kept)+

lemma finish_resume: "finish c K (resume_workflow env req i)"
  unfolding resume_workflow_def Let_def
  by (rule finish_keep [where b = False and Q = anything]) (rule kept | (simp, blast intro: known_grows) | simp)+

lemma finish_run_manual: "finish c K (run_manual env i)"
  unfolding run_manual_def get_schedule_object_def
  by (rule finish_keep [where b = False and Q = anything]) (rule kept)+

lemma sync_remote_storage_lookup: "within lookup_only (sync_remote_storage env sc)"
  unfolding sync_remote_storage_def
  by (intro lookup_only.bind lookup_only.seq lookup_only.for_each lookup_only.tenant_schemas lookup_only.sync_for_schema
      set_search_path_lookup)

lemma refresh_storage_ok: "world_ok s \<Longrightarrow> world_ok (snd (refresh_storage env req s))"
proof -
  have "within lookup_only (refresh_storage env req)"
    unfolding refresh_storage_def
    by (intro lookup_only.seq lookup_only.catch lookup_only.ret sync_remote_storage_lookup register_workflows_lookup)
  then have "within same_tables (refresh_storage env req)"
    by (rule within_mono) (simp add: lookup_only_def same_tables_def)
  from withinD [OF this, of s] show "world_ok s \<Longrightarrow> world_ok (snd (refresh_storage env req s))"
    by (rule world_ok_same)
qed

section \<open>Deletion\<close>

lemma older_parent_orphan [simp]: "older_parent (w\<lparr>parent := None\<rparr>)"
  by (simp add: older_parent_def)

lemma celery_ids_filter:
  "distinct (celery_ids ts) \<Longrightarrow> distinct (celery_ids (filter P ts))" "set (celery_ids (filter P ts)) \<subseteq> set (celery_ids ts)"
proof -
  have eq: "celery_ids (filter P ts) = map (\<lambda>t. the (celery_task_id t)) (filter P (filter (\<lambda>t. celery_task_id t \<noteq> None) ts))"
    by (simp add: celery_ids_def conj_commute)
  show "distinct (celery_ids ts) \<Longrightarrow> distinct (celery_ids (filter P ts))"
    unfolding eq by (simp only: celery_ids_def distinct_map_filter)
  show "set (celery_ids (filter P ts)) \<subseteq> set (celery_ids ts)"
    by (auto simp: celery_ids_def)
qed

lemma delete_workflow_ids:
  "map wf_id (workflows (delete_workflow i d)) = filter (\<lambda>j. j \<noteq> i) (map wf_id (workflows d))"
proof -
  have "map wf_id (map (\<lambda>w. if parent w = Some i then w\<lparr>parent := None\<rparr> else w) ws) = map wf_id ws" for ws by simp
  then show ?thesis by (simp add: delete_workflow_def filter_map comp_def del: map_map)
qed

lemma db_ok_delete: "db_ok n d \<Longrightarrow> db_ok n (delete_workflow i d)"
proof -
  assume ok: "db_ok n d"
  have ids: "wf_id ` set (workflows (delete_workflow i d)) = wf_id ` set (workflows d) - {i}"
    using arg_cong [OF delete_workflow_ids, of set i d] by auto
  have "list_all (\<lambda>w. wf_id w \<le> wf_seq (delete_workflow i d) \<and> older_parent w) (workflows (delete_workflow i d))"
    using ok by (auto simp: db_ok_def delete_workflow_def list_all_iff)
  moreover have "distinct (map wf_id (workflows (delete_workflow i d)))"
    using ok by (simp only: delete_workflow_ids db_ok_def distinct_filter)
  moreover have "list_all (\<lambda>t. task_space t \<noteq> None \<and> task_workflow t \<in> wf_id ` set (workflows (delete_workflow i d)))
      (tasks (delete_workflow i d))"
    unfolding ids using ok by (auto simp: db_ok_def list_all_iff delete_workflow_def)
  moreover have "distinct (celery_ids (tasks (delete_workflow i d)))"
      "list_all (\<lambda>u. u < n) (celery_ids (tasks (delete_workflow i d)))"
    using ok celery_ids_filter [where P = "\<lambda>t. task_workflow t \<noteq> i" and ts = "tasks d"]
    by (auto simp: delete_workflow_def db_ok_def list_all_iff)
  moreover have "distinct (map task_id (tasks (delete_workflow i d)))"
      "list_all (\<lambda>t. task_id t \<le> task_seq (delete_workflow i d)) (tasks (delete_workflow i d))"
    using ok by (auto simp: delete_workflow_def db_ok_def list_all_iff distinct_map_filter)
  ultimately show ?thesis by (simp add: db_ok_def)
qed

text \<open>What is known of the other workflows is still known after one is deleted.\<close>

definition without :: "nat \<Rightarrow> ledger \<Rightarrow> ledger" where
  "without i K = K\<lparr>known_wfs := known_wfs K - {i}, known_tasks := {}\<rparr>"

lemma good_without: "good c K s \<Longrightarrow> good c (without i K) s"
  by (auto simp: good_def without_def true_in_def)

lemma keep_delete: "keep b c (without i K) (db_update (delete_workflow i)) (\<lambda>L _. L = without i K)"
proof (rule keep_update)
  show "engine_update (delete_workflow i)" by (simp add: engine_update_def delete_workflow_def)
  fix n d assume "db_ok n d" "true_in (without i K) d"
  moreover have "wf_id ` set (workflows (delete_workflow i d)) = wf_id ` set (workflows d) - {i}"
    using arg_cong [OF delete_workflow_ids, of set i d] by auto
  moreover have "set (celery_ids (tasks (delete_workflow i d))) \<subseteq> set (celery_ids (tasks d))"
    by (simp add: delete_workflow_def celery_ids_filter)
  ultimately show "db_ok n (delete_workflow i d) \<and> true_in (without i K) (delete_workflow i d)"
    using db_ok_delete by (auto simp: true_in_def without_def)
qed auto

lemma finish_delete_each:
  "\<forall>w \<in> set ws. wf_known K w \<Longrightarrow> distinct (map wf_id ws) \<Longrightarrow>
    finish c K (for_each ws (\<lambda>w. seq (cancel env w) (db_update (delete_workflow (wf_id w)))))"
proof (induction ws arbitrary: K)
  case (Cons w ws)
  let ?each = "for_each ws (\<lambda>w. seq (cancel env w) (db_update (delete_workflow (wf_id w))))"
  have rest: "finish c L (seq (db_update (delete_workflow (wf_id w))) ?each)" if "grows False K L" for L
  proof -
    have "\<forall>v \<in> set ws. wf_known (without (wf_id w) L) v"
      using Cons.prems that by (auto simp: wf_known_def without_def grows_def) (metis image_eqI)
    then have "finish c (without (wf_id w) L) ?each" using Cons.prems(2) by (intro Cons.IH) simp_all
    then have "finish c (without (wf_id w) L) (seq (db_update (delete_workflow (wf_id w))) ?each)"
      unfolding seq_def by (intro finish_bind [where b = False, OF keep_delete]) simp
    then show ?thesis by (simp add: finish_def good_without)
  qed
  have "finish c K (seq (cancel env w) (seq (db_update (delete_workflow (wf_id w))) ?each))"
    unfolding seq_def [of "cancel env w"] using Cons.prems(1)
    by (intro finish_bind [where b = False, OF keep_cancel] rest) simp_all
  then show ?case by (simp add: seq_def bind_assoc)
qed (simp add: finish_keep [where b = False, OF keep_pure(1)])

lemma keep_query_fact:
  assumes "keep b c K (db_query f) Q" and "\<And>n d x. db_ok n d \<Longrightarrow> f d = Inr x \<Longrightarrow> P x"
  shows "keep b c K (db_query f) (\<lambda>L x. Q L x \<and> P x)"
proof (rule keepI)
  fix s r t assume s: "good c K s" and run: "db_query f s = (r, t)"
  from assms(1) s run obtain L where L: "grows b K L" "good c L t" "\<forall>x. r = Inr x \<longrightarrow> Q L x" by (rule keepD)
  have "P x" if "r = Inr x" for x
  proof -
    from that run obtain d where "cur_db s = Some d" "f d = Inr x" by (auto simp: db_query_run)
    moreover have "db_ok (uuid_supply s) d" using s calculation(1) by (simp add: good_def world_ok_def cur_db_def)
    ultimately show ?thesis using assms(2) by blast
  qed
  with L show "\<exists>L. grows b K L \<and> good c L t \<and> (\<forall>x. r = Inr x \<longrightarrow> Q L x \<and> P x)" by blast
qed

lemma finish_bulk_delete: "finish c K (bulk_delete env req)"
proof -
  have rows: "keep b c L (db_query (\<lambda>d. Inr (workflows_in ids d)))
      (\<lambda>L ws. (\<forall>w \<in> set ws. wf_known L w) \<and> distinct (map wf_id ws))" for b L ids
    by (rule keep_query_fact [OF keep_workflow_rows]) (auto simp: workflows_in_def db_ok_def distinct_map_filter rev_map [symmetric])
  show ?thesis unfolding bulk_delete_def seq_def [of "for_each _ _"]
    by (intro finish_bind [where b = False, OF keep_pure(3)] finish_bind [where b = False, OF rows] finish_ret finish_delete_each)
      auto
qed

section \<open>Tasks in the life cycle of Celery\<close>

text \<open>The invariant as a frame, so that the rules of frames compose what keeps it.\<close>

definition keeps_ok :: "world \<Rightarrow> world \<Rightarrow> bool" where
  "keeps_ok s t \<longleftrightarrow> (world_ok s \<longrightarrow> world_ok t)"

lemma world_ok_files [simp]: "world_ok (s\<lparr>local_fs := x\<rparr>) = world_ok s" "world_ok (s\<lparr>registry := g\<rparr>) = world_ok s"
  by (simp_all add: world_ok_def)

interpretation ok_frame: local_frame keeps_ok
  by unfold_locales (simp_all add: keeps_ok_def within_def)

lemma ok_within: "(\<And>s. world_ok s \<Longrightarrow> world_ok (snd (m s))) \<Longrightarrow> within keeps_ok m"
  by (simp add: within_def keeps_ok_def)

lemma ok_finish: "(\<And>c. finish c no_ledger m) \<Longrightarrow> within keeps_ok m"
  by (intro ok_within finish_here)

lemma ok_same: "within same_tables m \<Longrightarrow> within keeps_ok m"
  by (erule within_mono) (simp add: keeps_ok_def world_ok_same)

lemma ok_path: "within keeps_ok (set_search_path x)"
  by (rule ok_within) (simp add: set_search_path_def)

lemma ok_signal: "within keeps_ok m \<Longrightarrow> within keeps_ok (signal m)"
  unfolding signal_def by (intro ok_frame.catch ok_frame.ret)

lemma ok_life_cycle:
  assumes "within keeps_ok (bind before body)" and "\<And>v. within keeps_ok (succ v)" and "\<And>e. within keeps_ok (fail e)"
    and "within keeps_ok postrun"
  shows "within keeps_ok (life_cycle before body succ fail postrun)"
proof (rule withinI)
  fix s
  have seqs: "within keeps_ok (seq (signal (fail e)) (signal postrun))"
      "within keeps_ok (seq (signal (fail e)) (seq (signal postrun) (throw e :: unit io)))" for e
    by (intro ok_frame.seq ok_signal ok_frame.throw assms)+
  obtain r t where m: "bind before body s = (r, t)" by force
  with assms(1) have st: "keeps_ok s t" by (rule within_run)
  show "keeps_ok s (snd (life_cycle before body succ fail postrun s))"
  proof (cases r)
    case (Inl e)
    with m st withinD [OF seqs(1), of t e] show ?thesis by (simp add: life_cycle_def keeps_ok_def)
  next
    case (Inr v)
    obtain r' u where succ: "succ v t = (r', u)" by force
    with assms(2) have "keeps_ok t u" by (rule within_run)
    with m Inr succ st withinD [OF seqs(2), of u] withinD [OF ok_signal [OF assms(4)], of u] show ?thesis
      by (cases r') (simp_all add: life_cycle_def keeps_ok_def)
  qed
qed

text \<open>
  An operation that begins by entering the schema of its context runs as if it were there
  already, or not at all.
\<close>

lemma entering:
  assumes "world_ok s" and "\<And>t. set_schema_from_context ctx s = set_schema_from_context ctx t \<Longrightarrow> m s = m t"
    and "\<And>e. set_schema_from_context ctx s = (Inl e, s) \<Longrightarrow> world_ok (snd (m s))"
    and "\<And>code. space_of ctx = Some code \<Longrightarrow> CHR ''.'' \<notin> set code \<Longrightarrow> finish (ascii_lower code) no_ledger m"
  shows "world_ok (snd (m s))"
proof (cases "fst (set_schema_from_context ctx s)")
  case (Inl e)
  then have "set_schema_from_context ctx s = (Inl e, s)" using set_schema_raises by (metis prod.collapse)
  then show ?thesis by (rule assms(3))
next
  case (Inr u)
  then obtain code where code: "space_of ctx = Some code" "schema_exists code s"
      "set_schema_from_context ctx s = (Inr (), s\<lparr>search_path := ascii_lower code\<rparr>)"
    using set_schema_ok [of ctx s u] by (metis prod.collapse old.unit.exhaust)
  let ?s = "s\<lparr>search_path := ascii_lower code\<rparr>"
  have "set_schema_from_context ctx ?s = (Inr (), ?s)" using code by (simp add: set_schema_ok schema_exists_def)
  then have "m s = m ?s" using code(3) by (intro assms(2)) simp
  moreover have "CHR ''.'' \<notin> set code" using assms(1) code(2) by (simp add: world_ok_def schema_exists_def list_all_iff)
  with code(1) have "finish (ascii_lower code) no_ledger m" by (rule assms(4))
  moreover have "good (ascii_lower code) no_ledger ?s" using good_no_ledger [of ?s] assms(1) by simp
  ultimately show ?thesis by (simp add: finish_def)
qed

lemma on_failure_ok: "within keeps_ok (on_failure env n cid e ctx)"
proof (cases n)
  case 0
  then show ?thesis by (simp add: on_failure.simps ok_frame.throw)
next
  case (Suc k)
  show ?thesis
  proof (rule ok_within, rule entering [where ctx = ctx])
    fix s t assume "set_schema_from_context ctx s = set_schema_from_context ctx t"
    then show "on_failure env n cid e ctx s = on_failure env n cid e ctx t"
      unfolding Suc on_failure.simps by (simp add: seq_def bind_def)
  next
    fix s :: world and e' assume "set_schema_from_context ctx s = (Inl e', s)" and "world_ok s"
    then show "world_ok (snd (on_failure env n cid e ctx s))"
      unfolding Suc on_failure.simps by (simp add: seq_raise)
  next
    fix code assume "space_of ctx = Some code"
    then show "finish (ascii_lower code) no_ledger (on_failure env n cid e ctx)"
      by (intro finish_keep [where b = False, OF keep_on_failure]) simp
  qed
qed

lemma run_step_ok: "within keeps_ok (run_step env u kw)"
proof (rule ok_within, rule entering [where ctx = "Some (kw_context kw)"])
  let ?ctx = "Some (kw_context kw)"
  have before: "before_start env (Some u) ?ctx s = before_start env (Some u) ?ctx t"
    if "set_schema_from_context ?ctx s = set_schema_from_context ?ctx t" for s t
    using that by (simp add: before_start_def seq_def bind_def)
  show "run_step env u kw s = run_step env u kw t"
    if "set_schema_from_context ?ctx s = set_schema_from_context ?ctx t" for s t
    using before [OF that] by (simp add: run_step_def life_cycle_def bind_def)
  show "world_ok (snd (run_step env u kw s))" if "set_schema_from_context ?ctx s = (Inl e, s)" "world_ok s" for s e
  proof -
    have "before_start env (Some u) ?ctx s = (Inl e, s)"
      using that(1) by (simp add: before_start_def seq_raise)
    moreover have "within keeps_ok (seq (signal (on_failure env (recursion_limit env) (Some u) e ?ctx)) (signal cleanup))"
      unfolding cleanup_def by (intro ok_frame.seq ok_signal on_failure_ok ok_path)
    from withinD [OF this, of s] have "world_ok (snd (seq (signal (on_failure env (recursion_limit env) (Some u) e ?ctx)) (signal cleanup) s))"
      using that(2) by (simp add: keeps_ok_def)
    ultimately show ?thesis by (simp add: run_step_def life_cycle_def bind_raise)
  qed
  show "finish (ascii_lower code) no_ledger (run_step env u kw)" if "space_of ?ctx = Some code" "CHR ''.'' \<notin> set code" for code
    using that by (intro finish_run_step) (auto simp: tenant_context_def space_of_def split: option.splits if_splits)
qed

section \<open>The system\<close>

text \<open>
  A task whose base class is Celery's own: no callbacks around the body, but the signals of
  \<^verbatim>\<open>tasks/base.py\<close> are connected for every task.  The id of its message is drawn when it runs;
  no row holds it.
\<close>

definition run_plain :: "env \<Rightarrow> task_context option \<Rightarrow> unit io \<Rightarrow> unit io" where
  "run_plain env ctx m =
     bind uuid (\<lambda>u. life_cycle (ret ()) (\<lambda>_. seq m (ret JNull)) (\<lambda>_. ret ())
       (\<lambda>e. on_failure env (recursion_limit env) (Some u) e ctx) cleanup)"

fun run_signature :: "env \<Rightarrow> signature \<Rightarrow> unit io" where
  "run_signature env (StepSig u kw q) = run_step env u kw"
| "run_signature env (StartSig i c q) = run_plain env (Some c) (start env i (Some c))"
| "run_signature env (EndSig i c q) = run_plain env (Some c) (end_workflow env i (Some c))"
| "run_signature env (FailureHooksSig i q names pl c) =
     run_plain env (Some c) (failure_hooks_launcher env i names pl (Some c))"

fun item_signatures :: "canvas_item \<Rightarrow> signature list" where
  "item_signatures (Single x) = [x]"
| "item_signatures (Group xs q) = xs"

text \<open>
  The runs a message may give rise to.  Of a chain a worker may run any signature, which
  leaves the order to Celery; the tasks of a chain of hooks are the users' own.
\<close>

fun runs_of :: "env \<Rightarrow> message \<Rightarrow> unit io list" where
  "runs_of env (ExecuteWorkflowV2 i c) = [run_plain env (Some c) (execute_workflow_v2 env i (Some c))]"
| "runs_of env (ProcessNextNode cur i ns adj c conns) =
     [run_plain env (Some c) (process_next_node env (run_signature env) cur i ns (Some c) conns)]"
| "runs_of env (Execute code pl man c cron sid) =
     [run_plain env (Some c) (seq (execute env code pl (Some c) cron sid) (ret ()))]"
| "runs_of env (MarkAsCanceledInitTasks i ctx) = [run_plain env ctx (mark_as_canceled_init_tasks i ctx)]"
| "runs_of env (HookChain hooks i pl c) = []"
| "runs_of env (Chain items success failure) =
     map (run_signature env) (concat (map item_signatures (items @ success)) @ failure)"

text \<open>
  A request: the middleware around a view, whose result or exception the framework renders
  (the parameter \<open>render\<close>).
\<close>

definition serve :: "env \<Rightarrow> (exc + http_response \<Rightarrow> page) \<Rightarrow> view \<Rightarrow> string \<Rightarrow> page io" where
  "serve env render v p =
     realm_and_space (\<lambda>_ _. catch (bind (run_view env v) (\<lambda>r. ret (render (Inr r)))) (\<lambda>e. ret (render (Inl e)))) p"

inductive step :: "env \<Rightarrow> (exc + http_response \<Rightarrow> page) \<Rightarrow> world \<Rightarrow> world \<Rightarrow> bool" for env render where
  work: "m \<in> set (queue s) \<Longrightarrow> run \<in> set (runs_of env m) \<Longrightarrow> step env render s (snd (run s))"
| acknowledge: "m \<in> set (queue s) \<Longrightarrow> step env render s (s\<lparr>queue := remove1 m (queue s)\<rparr>)"
| beat: "beat_message r = Some m \<Longrightarrow> step env render s (s\<lparr>queue := queue s @ [m]\<rparr>)"
| view: "step env render s (snd (serve env render v p s))"
| restart: "step env render s (snd (cancel_existing_tasks env name s))"
| time: "step env render s (s\<lparr>clock := clock s + n\<rparr>)"

inductive_cases stepE: "step env render s t"

section \<open>Every step keeps the invariant\<close>

lemma ok_uuid: "within keeps_ok uuid"
  by (rule ok_finish, rule finish_keep [where b = False, OF keep_uuid])

lemma run_plain_ok: "within keeps_ok m \<Longrightarrow> within keeps_ok (run_plain env ctx m)"
  unfolding run_plain_def cleanup_def
  by (intro ok_frame.bind ok_uuid ok_life_cycle ok_frame.seq ok_frame.ret on_failure_ok ok_path)

lemma keep_launch_hook: "keep b c K (launch_hook env i v) anything"
proof (cases v)
  case (JStr name)
  have "insert_task ((new_task_row i)\<lparr>celery_task_id := Some u, task_name := Some name, is_hook := True\<rparr>) = throw DatabaseError" for u
    by (simp add: insert_task_def new_task_row_def)
  then have "keep b c L (bind (insert_task ((new_task_row i)\<lparr>celery_task_id := Some u, task_name := Some name, is_hook := True\<rparr>))
      (\<lambda>_. ret (name, u))) anything" for L u
    by (simp only:) (rule kept)+
  then show ?thesis unfolding launch_hook_def JStr json.case
    by (intro keep_bind [OF keep_uuid] keep_branches(1) keep_pure)
qed (simp_all add: launch_hook_def keep_bind [OF keep_uuid] keep_pure)

lemma failure_hooks_launcher_ok: "world_ok s \<Longrightarrow> world_ok (snd (failure_hooks_launcher env i names pl ctx s))"
  unfolding failure_hooks_launcher_def
  by (rule entered_ok, rule finish_keep [where b = False and Q = anything]) (rule kept keep_launch_hook | assumption)+

lemma run_signature_ok: "within keeps_ok (run_signature env x)"
  by (cases x) (simp_all add: run_plain_ok run_step_ok ok_within start_ok end_workflow_ok failure_hooks_launcher_ok)

lemma celery_applies_run_signature: "celery_applies env (run_signature env)"
  by (simp add: celery_applies_def)

lemma runs_of_ok: "run \<in> set (runs_of env m) \<Longrightarrow> within keeps_ok run"
  by (cases m) (auto simp: run_plain_ok run_signature_ok ok_frame.seq ok_frame.ret ok_within execute_workflow_v2_ok
      process_next_node_ok [OF celery_applies_run_signature] execute_ok mark_as_canceled_ok)

lemma run_view_ok: "within keeps_ok (run_view env v)"
  by (cases v) (simp_all add: ok_finish finish_run_workflow finish_relaunch finish_cancel_view finish_bulk_cancel
      finish_bulk_delete finish_pause finish_resume finish_run_manual ok_within [OF refresh_storage_ok])

lemma ok_enter_request: "within keeps_ok (enter_request realm space)"
  by (rule ok_within) (simp add: enter_request_run)

lemma serve_ok: "within keeps_ok (serve env render v p)"
proof -
  have pair: "within keeps_ok (case x of (realm, space) \<Rightarrow> f realm space)" if "\<And>realm space. within keeps_ok (f realm space)"
    for x and f :: "string option \<Rightarrow> string \<Rightarrow> page io" using that by (cases x) simp
  show ?thesis unfolding serve_def realm_and_space_def
    by (intro pair ok_frame.bind ok_frame.lift ok_frame.seq ok_enter_request ok_frame.catch ok_frame.ret run_view_ok ok_path)
qed

lemma cancel_existing_tasks_ok: "within keeps_ok (cancel_existing_tasks env name)"
proof -
  have left: "keep b c K (cancel_left_task t) anything" if "task_known K t" for b c K t
    unfolding cancel_left_task_def using that by - (rule kept | (simp, blast intro: known_grows) | simp)+
  have "keep b c K (cancel_all_existing_tasks env name) anything" for b c K
    unfolding cancel_all_existing_tasks_def
    by (rule keep_bind [OF keep_query], rule keep_bind [OF keep_workflow_rows [where W = set]], fastforce,
        rule keep_seq [OF keep_for_each [OF keep_cancel]], blast intro: known_grows,
        rule keep_bind [OF keep_task_rows [where T = set]], fastforce, rule keep_for_each [OF left], blast intro: known_grows)
  then have "within keeps_ok (cancel_all_existing_tasks env name)" by (intro ok_finish finish_keep [where b = False and Q = anything])
  then show ?thesis unfolding cancel_existing_tasks_def get_all_tenant_schemas_def
    by (intro ok_frame.catch ok_frame.bind ok_frame.query ok_frame.seq ok_frame.for_each ok_path ok_frame.ret)
qed

lemma step_ok: "step env render s t \<Longrightarrow> world_ok s \<Longrightarrow> world_ok t"
proof (induction rule: step.induct)
  case (work m s run)
  then show ?case using withinD [OF runs_of_ok [OF work(2)], of s] by (simp add: keeps_ok_def)
next
  case (view s v p)
  then show ?case using withinD [OF serve_ok, of s env render v p] by (simp add: keeps_ok_def)
next
  case (restart s name)
  then show ?case using withinD [OF cancel_existing_tasks_ok, of s env name] by (simp add: keeps_ok_def)
qed simp_all

lemma reachable_ok: "(step env render)\<^sup>*\<^sup>* s t \<Longrightarrow> world_ok s \<Longrightarrow> world_ok t"
  by (induction rule: rtranclp_induct) (auto intro: step_ok)

section \<open>What holds in every reachable state\<close>

definition running_world :: world where
  "running_world = sample_world\<lparr>schemas := [''space0'' \<mapsto> sample_db]\<rparr>"

lemma running_world_ok: "world_ok running_world"
proof -
  have "ascii_lower ''space0'' = ''space0''" by code_simp
  then show ?thesis
    by (simp add: world_ok_def running_world_def sample_world_def sample_db_def db_ok_def older_parent_def
        sample_workflow_def sample_task_def celery_ids_def home_def names_schema_def sample_space_def)
qed


definition sample_render :: "exc + http_response \<Rightarrow> page" where
  "sample_render r = \<lparr>page_streaming = False, page_content = (case r of Inl e \<Rightarrow> ''error'' | Inr x \<Rightarrow> ''ok''), page_location = None\<rparr>"

text \<open>A request on the running tenant: it launches a workflow of version 1.\<close>

definition sample_served :: world where
  "sample_served = snd (serve sample_env sample_render
     (RunWorkflow \<lparr>req_username = ''finmars_bot'', req_realm = Some ''realm0'', req_space = ''space0'',
        req_data = JObj [(''user_code'', JStr ''com.v1''), (''payload'', JObj [])]\<rparr>)
     ''/realm0/space0/api/'' running_world)"

lemma sample_served_reached: "(step sample_env sample_render)\<^sup>*\<^sup>* running_world sample_served"
  unfolding sample_served_def by (intro r_into_rtranclp step.view)

lemma sample_served_tasks:
  "map_option (\<lambda>d. (map wf_id (workflows d), map celery_task_id (tasks d))) (schemas sample_served ''space0'') =
     Some ([1, 2], [Some 0, Some 1, Some 2, Some 3, Some 5, Some 6])"
  by code_simp




end
