(* ===== verification/Traversal.thy ===== *)
theory Traversal
  imports Graph
begin

text \<open>
  The traversal of a graph as a machine on the names of its nodes: which nodes have run, in
  order, and which wait in the queue.  A waiting node is taken in any order; it runs when each
  of its inputs has run exactly once, and then what follows it is queued; otherwise it is
  dropped.  The workers of the program refine this machine (theory \<open>Runs\<close>); here it is shown
  that a graph without joins is run completely, and what goes wrong at a join.
\<close>

section \<open>The machine\<close>

record traversal =
  nodes_run :: "string list"
  waiting :: "string list"

definition inputs_done :: "connection list \<Rightarrow> string list \<Rightarrow> string \<Rightarrow> bool" where
  "inputs_done conns r n \<longleftrightarrow> list_all (\<lambda>m. count_list r m = 1) (input_nodes n conns)"

definition visit :: "connection list \<Rightarrow> string \<Rightarrow> traversal \<Rightarrow> traversal" where
  "visit conns n tr =
     (if inputs_done conns (nodes_run tr) n
      then \<lparr>nodes_run = nodes_run tr @ [n], waiting = remove1 n (waiting tr) @ targets_of conns n\<rparr>
      else tr\<lparr>waiting := remove1 n (waiting tr)\<rparr>)"

inductive visits :: "connection list \<Rightarrow> traversal \<Rightarrow> traversal \<Rightarrow> bool" for conns where
  take_node: "n \<in> set (waiting tr) \<Longrightarrow> visits conns tr (visit conns n tr)"

inductive_cases visitsE: "visits conns tr tr'"

definition initial :: "nodes \<Rightarrow> connection list \<Rightarrow> traversal" where
  "initial ns conns = \<lparr>nodes_run = [], waiting = start_nodes ns conns\<rparr>"

section \<open>Graphs without joins\<close>

definition forest :: "nodes \<Rightarrow> connection list \<Rightarrow> bool" where
  "forest ns conns \<longleftrightarrow>
     distinct (keys ns) \<and> distinct (map target conns) \<and> acyclic (edges conns) \<and>
     (\<forall>c \<in> set conns. source c \<in> set (keys ns) \<and> target c \<in> set (keys ns))"

lemma targets_of_iff: "x \<in> set (targets_of conns n) \<longleftrightarrow> (\<exists>c \<in> set conns. source c = n \<and> target c = x)"
  by (auto simp: targets_of_def)

lemma one_source:
  assumes "distinct (map target conns)" and "x \<in> set (targets_of conns n)" and "x \<in> set (targets_of conns m)"
  shows "n = m"
  using assms by (auto simp: targets_of_iff distinct_map dest: inj_onD)

lemma one_input:
  assumes "distinct (map target conns)" and "n \<in> set (targets_of conns m)"
  shows "input_nodes n conns = [m]"
  using assms
proof (induction conns)
  case (Cons c cs)
  show ?case
  proof (cases "target c = n")
    case True
    with Cons.prems(1) have none: "filter (\<lambda>c. target c = n) cs = []" by (auto simp: filter_empty_conv image_iff)
    with True Cons.prems(2) have "source c = m" by (auto simp: targets_of_iff filter_empty_conv)
    with True none show ?thesis by (simp add: input_nodes_def)
  next
    case False
    with Cons.prems have "n \<in> set (targets_of cs m)" by (auto simp: targets_of_iff)
    with Cons False show ?thesis by (simp add: input_nodes_def)
  qed
qed (simp add: targets_of_def)

lemma start_no_input: "n \<in> set (start_nodes ns conns) \<Longrightarrow> input_nodes n conns = []"
  by (auto simp: start_nodes_iff input_nodes_def filter_empty_conv)

text \<open>What is kept: every node is seen once, as a start node or after the one node before it.\<close>

definition explored :: "nodes \<Rightarrow> connection list \<Rightarrow> traversal \<Rightarrow> bool" where
  "explored ns conns tr \<longleftrightarrow>
     distinct (nodes_run tr @ waiting tr) \<and>
     set (nodes_run tr @ waiting tr) = set (start_nodes ns conns) \<union> (\<Union>m \<in> set (nodes_run tr). set (targets_of conns m))"

lemma explored_initial: "forest ns conns \<Longrightarrow> explored ns conns (initial ns conns)"
  by (simp add: explored_def initial_def forest_def start_nodes_def)

lemma count_distinct: "distinct xs \<Longrightarrow> x \<in> set xs \<Longrightarrow> count_list xs x = 1"
  by (induction xs) (auto simp: count_list_0_iff)

lemma explored_ready:
  assumes "forest ns conns" and "explored ns conns tr" and "n \<in> set (waiting tr)"
  shows "inputs_done conns (nodes_run tr) n"
proof (cases "n \<in> set (start_nodes ns conns)")
  case True
  then show ?thesis by (simp add: inputs_done_def start_no_input)
next
  case False
  with assms(2,3) obtain m where m: "m \<in> set (nodes_run tr)" "n \<in> set (targets_of conns m)"
    unfolding explored_def by (metis UN_E UnE Un_iff set_append)
  then have "input_nodes n conns = [m]" using assms(1) by (auto simp: forest_def intro: one_input)
  moreover have "count_list (nodes_run tr) m = 1" using m(1) assms(2) by (intro count_distinct) (simp_all add: explored_def)
  ultimately show ?thesis by (simp add: inputs_done_def)
qed

lemma explored_visit:
  assumes "forest ns conns" and "explored ns conns tr" and "n \<in> set (waiting tr)"
  shows "explored ns conns (visit conns n tr)" and "nodes_run (visit conns n tr) = nodes_run tr @ [n]"
proof -
  have ready: "inputs_done conns (nodes_run tr) n" using assms by (rule explored_ready)
  then show "nodes_run (visit conns n tr) = nodes_run tr @ [n]" by (simp add: visit_def)
  let ?seen = "set (nodes_run tr @ waiting tr)"
  have dist: "distinct (nodes_run tr @ waiting tr)" and seen: "?seen = set (start_nodes ns conns) \<union> (\<Union>m \<in> set (nodes_run tr). set (targets_of conns m))"
    using assms(2) by (simp_all add: explored_def)
  have new: "x \<notin> ?seen" if x: "x \<in> set (targets_of conns n)" for x
  proof
    assume "x \<in> ?seen"
    then consider "x \<in> set (start_nodes ns conns)" | m where "m \<in> set (nodes_run tr)" "x \<in> set (targets_of conns m)"
      unfolding seen by blast
    then show False
    proof cases
      case 1
      then show False using x by (auto simp: start_nodes_iff targets_of_iff)
    next
      case 2
      then have "n = m" using x assms(1) one_source by (auto simp: forest_def)
      with 2 assms(3) dist show False by auto
    qed
  qed
  have "distinct (targets_of conns n)"
    using assms(1) by (auto simp: targets_of_def forest_def distinct_map intro: inj_on_subset)
  with dist new assms(3) have "distinct (nodes_run tr @ [n] @ remove1 n (waiting tr) @ targets_of conns n)" by auto
  moreover have "set (nodes_run tr @ [n] @ remove1 n (waiting tr) @ targets_of conns n) = ?seen \<union> set (targets_of conns n)"
    using assms(3) dist by auto
  ultimately show "explored ns conns (visit conns n tr)"
    using ready seen unfolding explored_def visit_def by (simp add: Un_assoc) blast
qed

lemma explored_run:
  assumes "forest ns conns" and "(visits conns ^^ k) (initial ns conns) tr"
  shows "explored ns conns tr \<and> length (nodes_run tr) = k"
  using assms(2)
proof (induction k arbitrary: tr)
  case 0
  then show ?case using explored_initial [OF assms(1)] by (auto simp: initial_def)
next
  case (Suc k)
  then obtain tr1 where tr1: "(visits conns ^^ k) (initial ns conns) tr1" "visits conns tr1 tr" by auto
  from tr1(2) Suc.IH [OF tr1(1)] show ?case
    by (auto elim!: visitsE intro: explored_visit [OF assms(1)] simp: explored_visit(2) [OF assms(1)])
qed

lemma explored_nodes:
  assumes "forest ns conns" and "explored ns conns tr"
  shows "set (nodes_run tr) \<subseteq> set (keys ns)"
proof -
  have "set (nodes_run tr) \<subseteq> set (start_nodes ns conns) \<union> (\<Union>m \<in> set (nodes_run tr). set (targets_of conns m))"
    using assms(2) unfolding explored_def by (metis Un_upper1 set_append)
  then show ?thesis using assms(1) by (fastforce simp: start_nodes_iff targets_of_iff forest_def)
qed

lemma explored_all:
  assumes "forest ns conns" and "explored ns conns tr" and "waiting tr = []"
  shows "set (nodes_run tr) = set (keys ns)"
proof (rule subset_antisym [OF explored_nodes [OF assms(1,2)]], rule subsetI)
  fix n assume n: "n \<in> set (keys ns)"
  have seen: "set (nodes_run tr) = set (start_nodes ns conns) \<union> (\<Union>m \<in> set (nodes_run tr). set (targets_of conns m))"
    using assms(2,3) by (simp add: explored_def)
  obtain r where r: "r \<in> set (start_nodes ns conns)" "(r, n) \<in> (edges conns)\<^sup>*"
    using reaches_from_start [of conns ns n] assms(1) n by (auto simp: forest_def)
  from r(2) show "n \<in> set (nodes_run tr)"
  proof (induction rule: rtrancl_induct)
    case base
    then show ?case using r(1) seen by blast
  next
    case (step y z)
    then have "z \<in> set (targets_of conns y)" by (auto simp: edges_def targets_of_iff)
    with step.IH seen show ?case by blast
  qed
qed

lemma forest_run:
  assumes "forest ns conns" and "(visits conns ^^ k) (initial ns conns) tr"
  shows "k \<le> length ns" and "distinct (nodes_run tr)" and "set (nodes_run tr) \<subseteq> set (keys ns)"
    and "waiting tr = [] \<Longrightarrow> set (nodes_run tr) = set (keys ns)"
proof -
  have ex: "explored ns conns tr" "length (nodes_run tr) = k" using explored_run [OF assms] by simp_all
  show d: "distinct (nodes_run tr)" using ex(1) by (simp add: explored_def)
  show sub: "set (nodes_run tr) \<subseteq> set (keys ns)" using assms(1) ex(1) by (rule explored_nodes)
  then have "card (set (nodes_run tr)) \<le> card (set (keys ns))" by (simp add: card_mono)
  with d ex(2) show "k \<le> length ns" by (metis card_length distinct_card keys_def length_map order_trans)
  show "waiting tr = [] \<Longrightarrow> set (nodes_run tr) = set (keys ns)" using assms(1) ex(1) by (rule explored_all)
qed

lemma forest_leaf:
  assumes "forest ns conns" and "keys ns \<noteq> []"
  shows "\<exists>n \<in> set (keys ns). targets_of conns n = []"
proof -
  have "wf ((edges conns)\<inverse>)" using assms(1) by (intro finite_acyclic_wf_converse) (simp_all add: forest_def)
  moreover have "hd (keys ns) \<in> set (keys ns)" using assms(2) by simp
  ultimately obtain z where z: "z \<in> set (keys ns)" "\<And>y. (y, z) \<in> (edges conns)\<inverse> \<Longrightarrow> y \<notin> set (keys ns)"
    using wfE_min by metis
  have "x \<notin> set (targets_of conns z)" for x
    using z(2) [of x] assms(1) by (auto simp: edges_def targets_of_iff forest_def)
  then have "targets_of conns z = []" by (metis last_in_set)
  with z(1) show ?thesis by blast
qed

section \<open>Runs to evaluate\<close>

fun takes :: "connection list \<Rightarrow> string list \<Rightarrow> traversal \<Rightarrow> bool" where
  "takes conns [] tr = True"
| "takes conns (n # ns) tr = (n \<in> set (waiting tr) \<and> takes conns ns (visit conns n tr))"

lemma takes_visits: "takes conns ns tr \<Longrightarrow> (visits conns ^^ length ns) tr (fold (visit conns) ns tr)"
proof (induction ns arbitrary: tr)
  case (Cons n ns)
  then have "visits conns tr (visit conns n tr)" by (simp add: visits.take_node)
  moreover have "(visits conns ^^ length ns) (visit conns n tr) (fold (visit conns) ns (visit conns n tr))" using Cons by simp
  ultimately show ?case using relpowp_Suc_I2 [of "visits conns" tr "visit conns n tr" "length ns"] by simp
qed simp

lemma takes_run:
  assumes "takes conns ns tr" and "fold (visit conns) ns tr = tr'" and "length ns = k"
  shows "(visits conns ^^ k) tr tr'"
  using takes_visits [OF assms(1)] assms(2,3) by blast

section \<open>Joins\<close>

text \<open>A node that waits twice, its inputs done, runs twice.\<close>

lemma waiting_twice_runs_twice:
  assumes "2 \<le> count_list (waiting tr) n" and "inputs_done conns (nodes_run tr) n" and "n \<notin> set (input_nodes n conns)"
  shows "\<exists>tr'. (visits conns ^^ 2) tr tr' \<and> count_list (nodes_run tr') n = count_list (nodes_run tr) n + 2"
proof -
  have n: "n \<in> set (waiting tr)" using assms(1) by (metis count_list_0_iff not_numeral_le_zero)
  let ?tr = "visit conns n tr"
  have tr: "nodes_run ?tr = nodes_run tr @ [n]" "waiting ?tr = remove1 n (waiting tr) @ targets_of conns n"
    using assms(2) by (simp_all add: visit_def)
  have "count_list (remove1 n (waiting tr)) n = count_list (waiting tr) n - 1" using n by (induction "waiting tr") auto
  then have "n \<in> set (remove1 n (waiting tr))" using assms(1) by (metis Suc_1 Suc_leD count_list_0_iff diff_is_0_eq not_less_eq_eq)
  then have n2: "n \<in> set (waiting ?tr)" using tr(2) by simp
  have "inputs_done conns (nodes_run ?tr) n" using assms(2,3) tr(1) by (auto simp: inputs_done_def list_all_iff)
  then have "nodes_run (visit conns n ?tr) = nodes_run tr @ [n, n]" using tr(1) by (simp add: visit_def)
  moreover have "(visits conns ^^ 2) tr (visit conns n ?tr)"
    using visits.take_node [OF n] visits.take_node [OF n2] by (auto simp: numeral_2_eq_2)
  ultimately show ?thesis by (intro exI [of _ "visit conns n ?tr"]) simp
qed

text \<open>After that nothing that follows the node ever runs again, in whatever order nodes are taken.\<close>

lemma visits_grows: "visits conns tr tr' \<Longrightarrow> count_list (nodes_run tr) m \<le> count_list (nodes_run tr') m"
  by (auto elim!: visitsE simp: visit_def)

lemma repeated_input_blocks:
  assumes "(visits conns)\<^sup>*\<^sup>* tr tr'" and "2 \<le> count_list (nodes_run tr) m" and "m \<in> set (input_nodes n conns)"
  shows "2 \<le> count_list (nodes_run tr') m \<and> count_list (nodes_run tr') n = count_list (nodes_run tr) n"
  using assms(1)
proof (induction rule: rtranclp_induct)
  case (step tr1 tr2)
  then have two: "2 \<le> count_list (nodes_run tr1) m" by blast
  with assms(3) have "\<not> inputs_done conns (nodes_run tr1) n" by (force simp: inputs_done_def list_all_iff)
  with step(2,3) have "count_list (nodes_run tr2) n = count_list (nodes_run tr1) n" by (auto elim!: visitsE simp: visit_def)
  with step.IH visits_grows [OF step(2), of m] two show ?case by simp
qed (use assms in simp)

end
