(* ===== verification/Runs.thy ===== *)
theory Runs
  imports System Traversal
begin

text \<open>
  Whole runs of a version 2 workflow.  A worker that takes the message of a node, in the life
  cycle of Celery and with all that the handlers do on the way, refines one visit of the
  abstract traversal; so what holds of the traversal, whatever the order of deliveries, holds
  of the rows and messages of the program.  The nodes run user code that returns.
\<close>

section \<open>One step that returns\<close>

lemma save_row_twice: "pk y = pk x \<Longrightarrow> save_row pk y (save_row pk x xs) = save_row pk y xs"
proof (cases "pk x \<in> pk ` set xs")
  case False
  assume "pk y = pk x"
  moreover have "map (\<lambda>z. if pk z = pk x then y else z) xs = xs" using False by (intro map_idI) (auto simp: image_iff)
  ultimately show ?thesis using False by (simp add: save_row_def)
qed (auto simp: save_row_def)

definition task_begun :: "env \<Rightarrow> task_row \<Rightarrow> task_row" where
  "task_begun env r = r\<lparr>task_status := TProgress, worker_name := Some (hostname env)\<rparr>"

lemma task_begun_simps [simp]:
  "task_id (task_begun env r) = task_id r" "task_workflow (task_begun env r) = task_workflow r"
  "task_node_id (task_begun env r) = task_node_id r" "task_space (task_begun env r) = task_space r"
  "celery_task_id (task_begun env r) = celery_task_id r" "source_code (task_begun env r) = source_code r"
  "task_status (task_begun env r) = TProgress"
  by (simp_all add: task_begun_def)

text \<open>The tables after the step: the row is a success, and after the last node so is the workflow.\<close>

definition finished_db :: "nat \<Rightarrow> json \<Rightarrow> string \<Rightarrow> workflow_row \<Rightarrow> string list \<Rightarrow> task_row \<Rightarrow> schema_db \<Rightarrow> schema_db" where
  "finished_db time v cur w nexts t d =
     (if nexts = [] then stored (done_workflow time v cur w) else id) (task_stored (succeeded time v t) d)"

lemma task_stored_twice: "task_id y = task_id x \<Longrightarrow> task_stored y (task_stored x d) = task_stored y d"
  by (simp add: task_stored_def save_row_twice)

lemma handle_success_finishes:
  assumes "finishing t w cur node ns conns adj sp d" and "cur_db s = Some d" and "nodes_named ns"
    and "next_node_ids cur node v conns adj = Inr nexts" and "parent w = None"
  shows "\<exists>es. handle_task_success env (Suc depth) t v s =
    (Inr (), (in_schema (finished_db (clock s) v cur w nexts t) d s)
       \<lparr>queue := queue s @ node_messages (wf_id w) ns adj (context_of sp) conns nexts, outbox := outbox s @ es\<rparr>)"
proof (cases "nexts = []")
  case True
  from success_completes [OF assms(1,2) _ assms(5)] assms(4) True obtain es where
    "handle_task_success env (Suc depth) t v s =
      (Inr (), (in_schema (stored (done_workflow (clock s) v cur w) \<circ> task_stored (succeeded (clock s) v t)) d s)
         \<lparr>outbox := outbox s @ es\<rparr>)" by blast
  with True show ?thesis by (intro exI [of _ es]) (simp add: finished_db_def node_messages_def in_schema_def)
next
  case False
  from success_dispatches [OF assms(1,2,3,4) False, of env depth] False show ?thesis
    by (intro exI [of _ "[]"]) (simp add: finished_db_def in_schema_def)
qed

lemma filter_save_same:
  assumes "distinct (map pk xs)" and "filter P xs = [x]" and "pk y = pk x" and "P y"
  shows "filter P (save_row pk y xs) = [y]"
proof -
  have x: "x \<in> set xs" "P x" using arg_cong [OF assms(2), of set] by auto
  let ?g = "\<lambda>z. if pk z = pk y then y else z"
  have "P (?g z) = P z" if "z \<in> set xs" for z
    using that x assms(1,3,4) by (auto simp: distinct_map dest: inj_onD)
  then have "filter P (map ?g xs) = map ?g (filter P xs)" by (simp add: filter_map comp_def cong: filter_cong)
  with assms x show ?thesis by (simp add: save_row_def)
qed

text \<open>
  \<^verbatim>\<open>execute_workflow_step\<close> in the life cycle of Celery, for a task whose code returns: the connection
  ends in the public schema, the row and the workflow are stored, what follows is published.
\<close>

lemma run_step_success:
  assumes "space_of (Some (kw_context kw)) = Some code" and "schema_exists code s" and "schemas s (ascii_lower code) = Some d"
    and "filter (\<lambda>t. celery_task_id t = Some u) (tasks d) = [r]" and "distinct (map task_id (tasks d))"
    and "source_code r = Some src" and "src \<noteq> []" and "exec_main env src (task_begun env r) kw = Returns v"
    and "recursion_limit env = Suc k" and "finishing (task_begun env r) w cur node ns conns adj sp d"
    and "nodes_named ns" and "next_node_ids cur node v conns adj = Inr nexts" and "parent w = None"
  shows "\<exists>es. run_step env u kw s =
    (Inr (), s\<lparr>search_path := ''public'',
       schemas := (schemas s)(ascii_lower code \<mapsto> finished_db (clock s) v cur w nexts (task_begun env r) d),
       queue := queue s @ node_messages (wf_id w) ns adj (context_of sp) conns nexts, outbox := outbox s @ es\<rparr>)"
proof -
  let ?ctx = "Some (kw_context kw)" and ?s = "s\<lparr>search_path := ascii_lower code\<rparr>" and ?r = "task_begun env r"
  let ?d = "task_stored ?r d" and ?t = "in_schema (task_stored ?r) d ?s"
  have enter: "set_schema_from_context ?ctx s = (Inr (), ?s)" using assms(1,2) by (simp add: set_schema_ok)
  have again: "set_schema_from_context ?ctx ?t = (Inr (), ?t)"
    using assms(1,2) by (simp add: set_schema_ok in_schema_def schema_exists_def)
  have db: "cur_db ?s = Some d" using assms(3) by (simp add: cur_db_def)
  have find: "get_task_by_celery_id (Some u) ?s = (Inr r, ?s)"
    using assms(4) db by (simp add: get_task_by_celery_id_def db_query_def objects_get_def)
  have space: "task_space ?r \<noteq> None" and wf: "find_row wf_id (task_workflow r) (workflows d) = Some w"
    using assms(10) by (simp_all add: finishing_def)
  have save: "save_task ?r ?s = (Inr (), ?t)" using space db by (rule save_task_run)
  have wf2: "get_workflow (task_workflow r) ?t = (Inr w, ?t)" using wf by (simp add: get_workflow_def db_query_def)
  have before: "before_start env (Some u) ?ctx s = (Inr ?r, ?t)"
    unfolding before_start_def Let_def task_begun_def [symmetric]
    using enter find save wf2 by (simp add: seq_value bind_value)
  have body: "execute_workflow_step env ?r kw ?t = (Inr v, ?t)"
    unfolding execute_workflow_step_def using again wf2 assms(6-8) by (simp add: seq_value bind_value)
  have "celery_task_id r = Some u" using arg_cong [OF assms(4), of set] by auto
  then have "filter (\<lambda>t. celery_task_id t = Some u) (tasks ?d) = [?r]"
    unfolding task_stored_def using filter_save_same [OF assms(5,4), of ?r] by simp
  then have find2: "get_task_by_celery_id (Some u) ?t = (Inr ?r, ?t)"
    by (simp add: get_task_by_celery_id_def db_query_def objects_get_def)
  have "finishing ?r w cur node ns conns adj sp ?d" using assms(10) by (simp add: finishing_def)
  from handle_success_finishes [OF this _ assms(11,12,13), of ?t env k] obtain es where
    "handle_task_success env (Suc k) ?r v ?t =
      (Inr (), (in_schema (finished_db (clock ?t) v cur w nexts ?r) ?d ?t)
         \<lparr>queue := queue ?t @ node_messages (wf_id w) ns adj (context_of sp) conns nexts, outbox := outbox ?t @ es\<rparr>)" by auto
  then have after: "on_success env v (Some u) ?ctx ?t =
      (Inr (), (in_schema (finished_db (clock s) v cur w nexts ?r) ?d ?t)
         \<lparr>queue := queue s @ node_messages (wf_id w) ns adj (context_of sp) conns nexts, outbox := outbox s @ es\<rparr>)"
    unfolding on_success_def using again find2 assms(9) by (simp add: seq_value bind_value)
  have same: "finished_db (clock s) v cur w nexts ?r ?d = finished_db (clock s) v cur w nexts ?r d"
    by (simp add: finished_db_def task_stored_twice)
  have public: "ascii_lower ''public'' = ''public''" by code_simp
  show ?thesis
    unfolding run_step_def life_cycle_def using before body after same public
    by (intro exI [of _ es])
      (simp add: bind_value signal_def catch_value cleanup_def set_search_path_def catch_def in_schema_def)
qed

section \<open>The message of a node\<close>

text \<open>A node that runs: code of its own that returns a value, and ports that can be read.\<close>

definition runnable :: "env \<Rightarrow> json \<Rightarrow> bool" where
  "runnable env node \<longleftrightarrow>
     truthy node \<and> node_type node = Inr (JStr ''source_code'') \<and>
     (\<exists>src. path node [''data'', ''source_code''] = Inr (JStr src) \<and> src \<noteq> [] \<and>
        (\<forall>t kw. \<exists>v. exec_main env src t kw = Returns v \<and> jwf v)) \<and>
     (\<forall>port. \<not> isl (rbind (subscript node ''inputs'') (is_in port)))"

definition runnable_graph :: "env \<Rightarrow> nodes \<Rightarrow> connection list \<Rightarrow> bool" where
  "runnable_graph env ns conns \<longleftrightarrow>
     nodes_named ns \<and> (\<forall>n node. map_of ns n = Some node \<longrightarrow> runnable env node) \<and>
     (\<forall>c \<in> set conns. target_input c \<noteq> None \<and> target c \<in> set (keys ns))"

definition tasks_in :: "nat \<Rightarrow> schema_db \<Rightarrow> task_row list" where
  "tasks_in i d = filter (\<lambda>t. task_workflow t = i) (tasks d)"

lemma connected_to_read:
  assumes "\<forall>c \<in> set conns. target_input c \<noteq> None"
  shows "\<exists>x. connected_to n port conns = Inr x"
  using assms by (induction conns) auto

lemma port_value_read:
  assumes "cur_db s = Some d" and "\<forall>t \<in> set (tasks_in i d). \<not> isl (result t)"
    and "\<forall>c \<in> set conns. target_input c \<noteq> None" and "\<not> isl (rbind (subscript node ''inputs'') (is_in port))"
  shows "\<exists>x. port_value i n node conns port dflt s = (Inr x, s)"
proof -
  obtain b where b: "rbind (subscript node ''inputs'') (is_in port) = Inr b"
    using assms(4) by (cases "rbind (subscript node ''inputs'') (is_in port)") auto
  obtain src where src: "connected_to n port conns = Inr src" using connected_to_read [OF assms(3)] by blast
  have "\<exists>x. result t = Inr x" if "latest_task i m d = Some t" for m t
  proof -
    have "\<exists>xs. filter (\<lambda>t. task_workflow t = i \<and> task_node_id t = Some m) (tasks d) = xs \<and> xs \<noteq> [] \<and> t = last xs"
      using that by (auto simp: latest_task_def split: list.splits)
    then have "t \<in> set (filter (\<lambda>t. task_workflow t = i \<and> task_node_id t = Some m) (tasks d))" using last_in_set by blast
    then have "t \<in> set (tasks_in i d)" by (simp add: tasks_in_def)
    with assms(2) show ?thesis by (cases "result t") auto
  qed
  then show ?thesis using b src assms(1)
    by (auto simp: port_value_def bind_value db_query_def lift_def bind_def split: option.splits)
qed

lemma count_nodes:
  "length (filter (\<lambda>t. task_workflow t = i \<and> task_node_id t = Some n) ts) =
    count_list (map task_node_id (filter (\<lambda>t. task_workflow t = i) ts)) (Some n)"
  by (induction ts) auto

lemma count_list_Some: "count_list (map Some xs) (Some x) = count_list xs x"
  by (induction xs) auto

text \<open>Readiness of the inputs, as the traversal counts it.\<close>

lemma inputs_ready_count:
  assumes "cur_db s = Some d" and "map task_node_id (tasks_in i d) = map Some done_nodes"
    and "\<forall>t \<in> set (tasks_in i d). task_status t = TSuccess"
  shows "are_inputs_ready i n conns s = (Inr (inputs_done conns done_nodes n), s)"
proof -
  have "input_ready i m d \<longleftrightarrow> count_list done_nodes m = 1" for m
  proof -
    let ?ts = "filter (\<lambda>t. task_workflow t = i \<and> task_node_id t = Some m) (tasks d)"
    have len: "length ?ts = count_list done_nodes m"
      using count_nodes [of i m "tasks d"] assms(2) by (simp add: tasks_in_def count_list_Some)
    have "task_status t = TSuccess" if "?ts = [t]" for t
    proof -
      have "t \<in> set ?ts" using that by simp
      with assms(3) show ?thesis by (simp add: tasks_in_def)
    qed
    then have "input_ready i m d \<longleftrightarrow> (\<exists>t. ?ts = [t])" unfolding input_ready_iff by blast
    also have "\<dots> \<longleftrightarrow> length ?ts = 1" by (simp add: length_Suc_conv)
    finally show ?thesis using len by simp
  qed
  then show ?thesis using assms(1)
    by (auto simp: are_inputs_ready_def inputs_done_def list_all_iff catch_def db_query_def)
qed

section \<open>The refinement relation\<close>

definition node_message :: "nat \<Rightarrow> nodes \<Rightarrow> adjacency \<Rightarrow> space_row \<Rightarrow> connection list \<Rightarrow> string \<Rightarrow> message" where
  "node_message i ns adj sp conns n = ProcessNextNode n i ns adj (context_of sp) conns"

text \<open>The first node without a successor that runs completes the workflow.\<close>

definition status_after :: "connection list \<Rightarrow> string list \<Rightarrow> wf_status" where
  "status_after conns done_nodes = (if list_ex (\<lambda>n. targets_of conns n = []) done_nodes then WSuccess else WProgress)"

definition run_db :: "nat \<Rightarrow> nodes \<Rightarrow> connection list \<Rightarrow> adjacency \<Rightarrow> space_row \<Rightarrow> string list \<Rightarrow> schema_db \<Rightarrow> bool" where
  "run_db i ns conns adj sp done_nodes d \<longleftrightarrow>
     (\<exists>w. find_row wf_id i (workflows d) = Some w \<and> on_graph w d ns conns adj sp \<and> parent w = None \<and>
        wf_status w = status_after conns done_nodes) \<and>
     map task_node_id (tasks_in i d) = map Some done_nodes \<and>
     (\<forall>t \<in> set (tasks_in i d). task_status t = TSuccess \<and> \<not> isl (result t))"

text \<open>
  The tables hold one successful row for each node that ran, in order, and the queue one message
  for each node that waits.
\<close>

definition represents :: "nat \<Rightarrow> nodes \<Rightarrow> connection list \<Rightarrow> adjacency \<Rightarrow> space_row \<Rightarrow> traversal \<Rightarrow> world \<Rightarrow> bool" where
  "represents i ns conns adj sp tr s \<longleftrightarrow>
     world_ok s \<and> space_code sp \<noteq> [] \<and> schema_exists (space_code sp) s \<and>
     (\<exists>d. schemas s (ascii_lower (space_code sp)) = Some d \<and> run_db i ns conns adj sp (nodes_run tr) d) \<and>
     set (waiting tr) \<subseteq> set (keys ns) \<and> queue s = map (node_message i ns adj sp conns) (waiting tr)"

lemma on_graph_adjacency: "on_graph w d ns conns adj sp \<Longrightarrow> build_adjacency ns conns = Inr adj"
  by (auto simp: on_graph_def read_graph_def rbind_Inr split: option.splits)

lemma on_graph_done [simp]: "on_graph (done_workflow time v cur w) d ns conns adj sp = on_graph w d ns conns adj sp"
  by (simp add: on_graph_def done_workflow_def)

lemma on_graph_of_rows [simp]: "on_graph w (stored w' d) ns conns adj sp = on_graph w d ns conns adj sp"
  by (simp add: on_graph_def cong: option.case_cong)

lemma jwf_no_result: "jwf no_result"
  by (simp add: no_result_def)

lemma result_succeeded: "jwf v \<Longrightarrow> \<not> isl (result (succeeded time v t))"
  using task_accessors(2) [of "if truthy v then v else no_result" "t\<lparr>task_status := TSuccess\<rparr>"]
  by (simp add: succeeded_def mark_task_as_finished_def result_def jwf_no_result split: if_splits)

lemma save_row_last: "pk y = pk x \<Longrightarrow> pk x \<notin> pk ` set xs \<Longrightarrow> save_row pk y (xs @ [x]) = xs @ [y]"
proof -
  assume "pk y = pk x" "pk x \<notin> pk ` set xs"
  moreover from this have "map (\<lambda>z. if pk z = pk x then y else z) xs = xs" by (intro map_idI) (auto simp: image_iff)
  ultimately show ?thesis by (simp add: save_row_def)
qed

text \<open>What the tables are after one more node.\<close>

lemma run_db_finished:
  assumes "run_db i ns conns adj sp done_nodes d" and "find_row wf_id i (workflows d) = Some w"
    and "task_id r \<notin> task_id ` set (tasks d)" and "task_workflow r = i" and "task_node_id r = Some n" and "jwf v"
  shows "run_db i ns conns adj sp (done_nodes @ [n])
    (finished_db time v n w (targets_of conns n) (task_begun env r) (d\<lparr>tasks := tasks d @ [r], task_seq := q\<rparr>))"
    (is "run_db _ _ _ _ _ _ ?d")
proof -
  let ?r = "succeeded time v (task_begun env r)"
  have w: "on_graph w d ns conns adj sp" "parent w = None" "wf_status w = status_after conns done_nodes" "wf_id w = i"
    using assms(1,2) by (auto simp: run_db_def dest: find_row_Some)
  have "tasks ?d = tasks d @ [?r]"
    using assms(3) save_row_last [of task_id ?r r "tasks d"] by (simp add: finished_db_def task_stored_def)
  then have ts: "tasks_in i ?d = tasks_in i d @ [?r]" using assms(4) by (simp add: tasks_in_def)
  let ?w = "if targets_of conns n = [] then done_workflow time v n w else w"
  have "find_row wf_id i (workflows ?d) = Some ?w"
    using assms(2) w(4) by (simp add: finished_db_def done_workflow_def)
  moreover have "on_graph ?w ?d ns conns adj sp"
    using w(1) by (simp add: finished_db_def) (simp add: on_graph_def cong: option.case_cong)
  moreover have "parent ?w = None \<and> wf_status ?w = status_after conns (done_nodes @ [n])"
    using w(2,3) by (simp add: done_workflow_def status_after_def)
  ultimately show ?thesis
    using assms(1,5,6) ts by (auto simp: run_db_def result_succeeded)
qed

lemma known_targets:
  assumes "runnable_graph env ns conns"
  shows "node_messages i ns adj (context_of sp) conns (targets_of conns n) = map (node_message i ns adj sp conns) (targets_of conns n)"
proof -
  have "known_node ns m" if "m \<in> set (targets_of conns n)" for m
  proof -
    have "m \<in> set (keys ns)" using that assms by (auto simp: runnable_graph_def targets_of_def)
    then obtain node where "map_of ns m = Some node"
      by (metis keys_def list.set_map map_of_eq_None_iff not_None_eq)
    with assms show ?thesis by (auto simp: known_node_def runnable_graph_def runnable_def)
  qed
  then show ?thesis by (simp add: node_messages_def node_message_def)
qed

lemma run_node_success:
  assumes "cur_db s = Some d" and "search_path s = ascii_lower (space_code sp)" and "space_code sp \<noteq> []"
    and "schema_exists (space_code sp) s" and "run_db i ns conns adj sp done_nodes d"
    and "find_row wf_id i (workflows d) = Some w" and "runnable_graph env ns conns" and "map_of ns n = Some node"
    and "db_ok (uuid_supply s) d" and "recursion_limit env = Suc k"
  shows "\<exists>d' es. run_node env (run_signature env) n w node conns s =
    (Inr (), s\<lparr>search_path := ''public'', schemas := (schemas s)(search_path s \<mapsto> d'),
       queue := queue s @ map (node_message i ns adj sp conns) (targets_of conns n), outbox := outbox s @ es,
       uuid_supply := Suc (uuid_supply s)\<rparr>) \<and> run_db i ns conns adj sp (done_nodes @ [n]) d'"
proof -
  have w: "on_graph w d ns conns adj sp" "parent w = None" "wf_id w = i" and readable: "\<forall>t \<in> set (tasks_in i d). \<not> isl (result t)"
    using assms(5,6) by (auto simp: run_db_def dest: find_row_Some)
  have node: "runnable env node" and ports: "\<forall>c \<in> set conns. target_input c \<noteq> None" and named: "nodes_named ns"
    using assms(7,8) by (auto simp: runnable_graph_def)
  from node obtain src where src: "path node [''data'', ''source_code''] = Inr (JStr src)" "src \<noteq> []"
      "\<And>t kw. \<exists>v. exec_main env src t kw = Returns v \<and> jwf v"
    by (auto simp: runnable_def)
  have ty: "node_type node = Inr (JStr ''source_code'')" and inp: "\<And>port. \<not> isl (rbind (subscript node ''inputs'') (is_in port))"
    using node by (auto simp: runnable_def)
  obtain prev where prev: "port_value i n node conns ''in'' JNull s = (Inr prev, s)"
    using port_value_read [OF assms(1) readable ports inp] by blast
  obtain pl where pl: "port_value i n node conns ''payload_input'' (payload w) s = (Inr pl, s)"
    using port_value_read [OF assms(1) readable ports inp] by blast
  let ?u = "uuid_supply s" and ?ctx = "context_of sp"
  let ?r0 = "set_task_payload pl ((new_task_row i)\<lparr>celery_task_id := Some ?u, task_name := Some ''custom_code'', task_node_id := Some n,
    task_space := Some (wf_space w), source_code := Some src\<rparr>)"
  let ?r = "?r0\<lparr>task_id := Suc (task_seq d)\<rparr>" and ?kw = "\<lparr>kw_workflow_id = i, kw_payload = pl, kw_context = ?ctx, kw_imports = JNull, kw_previous_output = prev\<rparr>"
  let ?d = "d\<lparr>tasks := tasks d @ [?r], task_seq := Suc (task_seq d)\<rparr>"
  let ?s = "s\<lparr>uuid_supply := Suc ?u, schemas := (schemas s)(search_path s \<mapsto> ?d)\<rparr>"
  have r: "task_id ?r \<notin> task_id ` set (tasks d)" "task_workflow ?r = i" "task_node_id ?r = Some n" "celery_task_id ?r = Some ?u"
      "task_space ?r = Some (wf_space w)" "source_code ?r = Some src"
    using assms(9) by (auto simp: db_ok_def list_all_iff set_task_payload_def new_task_row_def)
  have fresh: "filter (\<lambda>t. celery_task_id t = Some ?u) (tasks d) = []"
    using assms(9) by (force simp: filter_empty_conv db_ok_def list_all_iff celery_ids_def)
  obtain v where v: "exec_main env src (task_begun env ?r) ?kw = Returns v" "jwf v" using src(3) by blast
  have succs: "next_node_ids n node v conns adj = Inr (targets_of conns n)"
    using ty successors_build [OF on_graph_adjacency [OF w(1)]] by (simp add: next_node_ids_def)
  have "on_graph w ?d ns conns adj sp" using w(1) by (simp add: on_graph_def cong: option.case_cong)
  then have fin: "finishing (task_begun env ?r) w n node ns conns adj sp ?d"
    using r assms(6,8) by (simp add: finishing_def)
  have "distinct (map task_id (tasks ?d))" using assms(9) r(1) by (simp add: db_ok_def)
  moreover have "filter (\<lambda>t. celery_task_id t = Some ?u) (tasks ?d) = [?r]" using fresh r(4) by simp
  moreover have "schemas ?s (ascii_lower (space_code sp)) = Some ?d" using assms(2) by simp
  moreover have "space_of (Some (kw_context ?kw)) = Some (space_code sp)" using assms(3) by (simp add: space_of_def context_of_def)
  moreover have "schema_exists (space_code sp) ?s" using assms(4) by (simp add: schema_exists_def)
  ultimately obtain es where step: "run_step env ?u ?kw ?s =
      (Inr (), ?s\<lparr>search_path := ''public'',
         schemas := (schemas ?s)(ascii_lower (space_code sp) \<mapsto> finished_db (clock ?s) v n w (targets_of conns n) (task_begun env ?r) ?d),
         queue := queue ?s @ node_messages (wf_id w) ns adj ?ctx conns (targets_of conns n), outbox := outbox ?s @ es\<rparr>)"
    using run_step_success [of ?kw "space_code sp" ?s ?d ?u ?r src env v k w n node ns conns adj sp "targets_of conns n"]
      r(6) src(2) v(1) assms(10) fin named succs w(2) by blast
  have space: "find_row space_id (wf_space w) (spaces d) = Some sp" using w(1) by (simp add: on_graph_def)
  have "run_node env (run_signature env) n w node conns s = run_step env ?u ?kw ?s"
    unfolding run_node_def using ty src(1) prev pl assms(1) w(3) space
    by (simp add: node_task_name_def node_source_code_def as_str_def bind_value lift_def uuid_def bind_def seq_def
        get_space_row_def db_query_def insert_task_def db_update_def cur_db_def Let_def new_task_row_def set_task_payload_def)
  with step known_targets [OF assms(7)] w(3) assms(2) run_db_finished [OF assms(5,6) r(1-3) v(2)]
  show ?thesis by (intro exI [of _ "finished_db (clock s) v n w (targets_of conns n) (task_begun env ?r) ?d"] exI [of _ es]) simp
qed

lemma run_plain_returns:
  assumes "m (s\<lparr>uuid_supply := Suc (uuid_supply s)\<rparr>) = (Inr (), t)"
  shows "run_plain env ctx m s = (Inr (), t\<lparr>search_path := ''public''\<rparr>)"
proof -
  have "ascii_lower ''public'' = ''public''" by code_simp
  with assms show ?thesis
    by (simp add: run_plain_def uuid_def bind_def seq_def life_cycle_def signal_def catch_def cleanup_def set_search_path_def)
qed

lemma node_taken:
  assumes "represents i ns conns adj sp tr s" and "runnable_graph env ns conns" and "recursion_limit env = Suc k"
    and "n \<in> set (keys ns)"
  shows "\<exists>d' es u. run_plain env (Some (context_of sp)) (process_next_node env (run_signature env) n i ns (Some (context_of sp)) conns) s =
      (Inr (), s\<lparr>search_path := ''public'', schemas := (schemas s)(ascii_lower (space_code sp) \<mapsto> d'),
         queue := queue s @ (if inputs_done conns (nodes_run tr) n then map (node_message i ns adj sp conns) (targets_of conns n) else []),
         outbox := outbox s @ es, uuid_supply := u\<rparr>) \<and>
    run_db i ns conns adj sp (nodes_run tr @ (if inputs_done conns (nodes_run tr) n then [n] else [])) d'"
proof -
  let ?c = "ascii_lower (space_code sp)" and ?ctx = "Some (context_of sp)"
  let ?s = "s\<lparr>uuid_supply := Suc (uuid_supply s), search_path := ?c\<rparr>"
  from assms(1) obtain d where d: "schemas s ?c = Some d" "run_db i ns conns adj sp (nodes_run tr) d"
    and sp: "space_code sp \<noteq> []" "schema_exists (space_code sp) s" and ok: "world_ok s"
    by (auto simp: represents_def)
  from d(2) obtain w where w: "find_row wf_id i (workflows d) = Some w" "wf_status w = status_after conns (nodes_run tr)"
    by (auto simp: run_db_def)
  have wait: "wf_status w \<noteq> WWait" using w(2) by (simp add: status_after_def)
  obtain node where node: "map_of ns n = Some node" using assms(4) by (metis keys_def list.set_map map_of_eq_None_iff not_None_eq)
  have db: "cur_db ?s = Some d" using d(1) by (simp add: cur_db_def)
  have "space_of ?ctx = Some (space_code sp)" using sp(1) by (simp add: space_of_def context_of_def)
  then have enter: "set_schema_from_context ?ctx (s\<lparr>uuid_supply := Suc (uuid_supply s)\<rparr>) = (Inr (), ?s)"
    using sp(2) by (simp add: set_schema_ok schema_exists_def)
  have find: "get_workflow i ?s = (Inr w, ?s)" using db w(1) by (simp add: get_workflow_def db_query_def)
  have ready: "are_inputs_ready i n conns ?s = (Inr (inputs_done conns (nodes_run tr) n), ?s)"
    using d(2) by (intro inputs_ready_count [OF db]) (simp_all add: run_db_def)
  have body: "process_next_node env (run_signature env) n i ns ?ctx conns (s\<lparr>uuid_supply := Suc (uuid_supply s)\<rparr>) =
      catch (if inputs_done conns (nodes_run tr) n then run_node env (run_signature env) n w node conns else ret ()) (\<lambda>_. ret ()) ?s"
    unfolding process_next_node_def using enter find ready node wait by (simp add: seq_value catch_def bind_value)
  show ?thesis
  proof (cases "inputs_done conns (nodes_run tr) n")
    case True
    have "db_ok (uuid_supply ?s) d" using ok d(1) db_ok_mono [of "uuid_supply s" d "Suc (uuid_supply s)"] by (auto simp: world_ok_def)
    moreover have "schema_exists (space_code sp) ?s" using sp(2) by (simp add: schema_exists_def)
    ultimately obtain d' es where
      "run_node env (run_signature env) n w node conns ?s =
        (Inr (), ?s\<lparr>search_path := ''public'', schemas := (schemas ?s)(search_path ?s \<mapsto> d'),
           queue := queue ?s @ map (node_message i ns adj sp conns) (targets_of conns n), outbox := outbox ?s @ es,
           uuid_supply := Suc (uuid_supply ?s)\<rparr>) \<and> run_db i ns conns adj sp (nodes_run tr @ [n]) d'"
      using run_node_success [OF db _ sp(1) _ d(2) w(1) assms(2) node _ assms(3)] by auto
    with True body show ?thesis
      by (intro exI [of _ d'] exI [of _ es] exI [of _ "Suc (Suc (uuid_supply s))"])
        (simp add: catch_value run_plain_returns)
  next
    case False
    have "s = s\<lparr>schemas := (schemas s)(?c \<mapsto> d)\<rparr>" using d(1) by (simp add: fun_upd_idem)
    then have "?s\<lparr>search_path := ''public''\<rparr> = s\<lparr>search_path := ''public'', schemas := (schemas s)(?c \<mapsto> d),
        queue := queue s @ [], outbox := outbox s @ [], uuid_supply := Suc (uuid_supply s)\<rparr>"
      using d(1) by (simp add: fun_upd_idem)
    moreover have "process_next_node env (run_signature env) n i ns ?ctx conns (s\<lparr>uuid_supply := Suc (uuid_supply s)\<rparr>) = (Inr (), ?s)"
      using False body by (simp add: catch_def)
    ultimately show ?thesis using False d(2) run_plain_returns
      by (intro exI [of _ d] exI [of _ "[]"] exI [of _ "Suc (uuid_supply s)"]) simp
  qed
qed

section \<open>The refinement\<close>

text \<open>One delivery: a worker handles any message of the queue, then the message is acknowledged.\<close>

inductive delivers :: "env \<Rightarrow> world \<Rightarrow> world \<Rightarrow> bool" for env where
  deliver: "m \<in> set (queue s) \<Longrightarrow> run \<in> set (runs_of env m) \<Longrightarrow>
    delivers env s ((snd (run s))\<lparr>queue := remove1 m (queue (snd (run s)))\<rparr>)"

inductive_cases deliversE: "delivers env s t"

lemma node_message_inj: "node_message i ns adj sp conns m = node_message i ns adj sp conns n \<longleftrightarrow> m = n"
  by (simp add: node_message_def)

lemma remove1_map_inj: "inj f \<Longrightarrow> remove1 (f x) (map f xs) = map f (remove1 x xs)"
  by (induction xs) (auto dest: injD)

lemma delivery_visits:
  assumes "represents i ns conns adj sp tr s" and "runnable_graph env ns conns" and "recursion_limit env = Suc k"
    and "n \<in> set (waiting tr)" and "run \<in> set (runs_of env (node_message i ns adj sp conns n))"
  shows "represents i ns conns adj sp (visit conns n tr)
    ((snd (run s))\<lparr>queue := remove1 (node_message i ns adj sp conns n) (queue (snd (run s)))\<rparr>)" (is "represents _ _ _ _ _ _ ?t")
proof -
  have n: "n \<in> set (keys ns)" and q: "queue s = map (node_message i ns adj sp conns) (waiting tr)"
    and sp: "space_code sp \<noteq> []" "schema_exists (space_code sp) s" and ok: "world_ok s"
    using assms(1,4) by (auto simp: represents_def)
  let ?msg = "node_message i ns adj sp conns"
  have run: "run = run_plain env (Some (context_of sp)) (process_next_node env (run_signature env) n i ns (Some (context_of sp)) conns)"
    using assms(5) by (simp add: node_message_def)
  from node_taken [OF assms(1-3) n, folded run] obtain d' es u where
    t: "run s = (Inr (), s\<lparr>search_path := ''public'', schemas := (schemas s)(ascii_lower (space_code sp) \<mapsto> d'),
         queue := queue s @ (if inputs_done conns (nodes_run tr) n then map ?msg (targets_of conns n) else []),
         outbox := outbox s @ es, uuid_supply := u\<rparr>)"
    and d': "run_db i ns conns adj sp (nodes_run tr @ (if inputs_done conns (nodes_run tr) n then [n] else [])) d'" by blast
  have "world_ok (snd (run s))" using withinD [OF runs_of_ok [OF assms(5)], of s] ok by (simp add: keeps_ok_def)
  then have "world_ok ?t" by (simp add: world_ok_def)
  moreover have "inj ?msg" by (simp add: inj_def node_message_inj)
  then have "queue ?t = map ?msg (waiting (visit conns n tr))"
    using t q assms(4) remove1_map_inj [of ?msg n "waiting tr"] by (simp add: remove1_append visit_def)
  moreover have "set (waiting (visit conns n tr)) \<subseteq> set (keys ns)"
    using assms(1,2) by (auto simp: visit_def represents_def runnable_graph_def targets_of_def dest: notin_set_remove1 [THEN contrapos_nn] split: if_splits)
  moreover have "nodes_run (visit conns n tr) = nodes_run tr @ (if inputs_done conns (nodes_run tr) n then [n] else [])"
    by (simp add: visit_def)
  ultimately show ?thesis using t d' sp by (simp add: represents_def schema_exists_def)
qed

lemma delivers_visits:
  assumes "represents i ns conns adj sp tr s" and "runnable_graph env ns conns" and "recursion_limit env \<noteq> 0" and "delivers env s t"
  shows "\<exists>tr'. visits conns tr tr' \<and> represents i ns conns adj sp tr' t"
proof -
  obtain k where k: "recursion_limit env = Suc k" using assms(3) by (cases "recursion_limit env") auto
  from assms(4) obtain m run where m: "m \<in> set (queue s)" "run \<in> set (runs_of env m)"
      "t = (snd (run s))\<lparr>queue := remove1 m (queue (snd (run s)))\<rparr>"
    by (auto elim: deliversE)
  with assms(1) obtain n where "n \<in> set (waiting tr)" "m = node_message i ns adj sp conns n" by (auto simp: represents_def)
  with m delivery_visits [OF assms(1,2) k] show ?thesis by (blast intro: visits.take_node)
qed

lemma visits_delivers:
  assumes "represents i ns conns adj sp tr s" and "runnable_graph env ns conns" and "recursion_limit env \<noteq> 0" and "visits conns tr tr'"
  shows "\<exists>t. delivers env s t \<and> represents i ns conns adj sp tr' t"
proof -
  obtain k where k: "recursion_limit env = Suc k" using assms(3) by (cases "recursion_limit env") auto
  from assms(4) obtain n where n: "n \<in> set (waiting tr)" "tr' = visit conns n tr" by (auto elim: visitsE)
  obtain run where run: "run \<in> set (runs_of env (node_message i ns adj sp conns n))" by (simp add: node_message_def)
  have "node_message i ns adj sp conns n \<in> set (queue s)" using n(1) assms(1) by (simp add: represents_def)
  with run n delivery_visits [OF assms(1,2) k n(1) run] show ?thesis by (blast intro: delivers.deliver)
qed

lemma simulates:
  assumes "represents i ns conns adj sp tr s" and "runnable_graph env ns conns" and "recursion_limit env \<noteq> 0"
  shows "(delivers env ^^ k) s t \<Longrightarrow> \<exists>tr'. (visits conns ^^ k) tr tr' \<and> represents i ns conns adj sp tr' t"
    and "(visits conns ^^ k) tr tr' \<Longrightarrow> \<exists>t. (delivers env ^^ k) s t \<and> represents i ns conns adj sp tr' t"
proof (induction k arbitrary: t tr')
  case (Suc k)
  case 1
  then obtain u where "(delivers env ^^ k) s u" "delivers env u t" by auto
  with Suc(1) delivers_visits [OF _ assms(2,3)] show ?case by (metis relcompp.relcompI relpowp.simps(2))
next
  case (Suc k)
  case 2
  then obtain tr1 where "(visits conns ^^ k) tr tr1" "visits conns tr1 tr'" by auto
  with Suc(2) visits_delivers [OF _ assms(2,3)] show ?case by (metis relcompp.relcompI relpowp.simps(2))
qed (use assms(1) in auto)

text \<open>Deliveries are steps of the whole system.\<close>

lemma delivers_steps:
  assumes "delivers env s t"
  shows "(step env render)\<^sup>*\<^sup>* s t"
proof -
  from assms obtain m run where m: "m \<in> set (queue s)" "run \<in> set (runs_of env m)"
      "t = (snd (run s))\<lparr>queue := remove1 m (queue (snd (run s)))\<rparr>"
    by (auto elim: deliversE)
  have "step env render s (snd (run s))" using m(1,2) by (rule step.work)
  moreover have "(step env render)\<^sup>*\<^sup>* (snd (run s)) t"
  proof (cases "m \<in> set (queue (snd (run s)))")
    case True
    then show ?thesis unfolding m(3) by (intro r_into_rtranclp step.acknowledge)
  next
    case False
    then show ?thesis unfolding m(3) by (simp add: remove1_idem)
  qed
  ultimately show ?thesis by (rule converse_rtranclp_into_rtranclp)
qed


section \<open>Graphs without joins are completed\<close>

definition node_tasks :: "space_row \<Rightarrow> nat \<Rightarrow> string \<Rightarrow> world \<Rightarrow> task_row list" where
  "node_tasks sp i n s =
     (case schemas s (ascii_lower (space_code sp)) of
        None \<Rightarrow> []
      | Some d \<Rightarrow> filter (\<lambda>t. task_workflow t = i \<and> task_node_id t = Some n) (tasks d))"

definition workflow_status :: "space_row \<Rightarrow> nat \<Rightarrow> world \<Rightarrow> wf_status option" where
  "workflow_status sp i s =
     Option.bind (schemas s (ascii_lower (space_code sp))) (\<lambda>d. map_option wf_status (find_row wf_id i (workflows d)))"

lemma represents_status: "represents i ns conns adj sp tr s \<Longrightarrow> workflow_status sp i s = Some (status_after conns (nodes_run tr))"
  by (auto simp: represents_def run_db_def workflow_status_def)

lemma represents_tasks:
  assumes "represents i ns conns adj sp tr s"
  shows "length (node_tasks sp i n s) = count_list (nodes_run tr) n" and "\<forall>x \<in> set (node_tasks sp i n s). task_status x = TSuccess"
proof -
  from assms obtain d where d: "schemas s (ascii_lower (space_code sp)) = Some d" "run_db i ns conns adj sp (nodes_run tr) d"
    by (auto simp: represents_def)
  then have "map task_node_id (tasks_in i d) = map Some (nodes_run tr)" by (simp add: run_db_def)
  with d(1) count_nodes [of i n "tasks d"] show "length (node_tasks sp i n s) = count_list (nodes_run tr) n"
    by (simp add: node_tasks_def tasks_in_def count_list_Some)
  show "\<forall>x \<in> set (node_tasks sp i n s). task_status x = TSuccess"
    using d by (auto simp: node_tasks_def run_db_def tasks_in_def)
qed


section \<open>Joins\<close>

text \<open>
  C17: when two messages for the same node are delivered after its inputs are done, as happens when
  both branches before a join end before the join is processed, the node runs twice; and
  then no node that follows it is ever run, whatever is delivered afterwards.
\<close>

theorem join_starves_followers:
  assumes "represents i ns conns adj sp tr s" and "runnable_graph env ns conns" and "recursion_limit env \<noteq> 0"
    and "2 \<le> count_list (waiting tr) n" and "inputs_done conns (nodes_run tr) n" and "n \<notin> set (input_nodes n conns)"
    and "n \<in> set (input_nodes f conns)"
  shows "\<exists>t. (delivers env ^^ 2) s t \<and> length (node_tasks sp i n t) = length (node_tasks sp i n s) + 2 \<and>
    (\<forall>u. (delivers env)\<^sup>*\<^sup>* t u \<longrightarrow> length (node_tasks sp i f u) = length (node_tasks sp i f t))"
proof -
  from waiting_twice_runs_twice [OF assms(4,5,6)] obtain tr1 where
    tr1: "(visits conns ^^ 2) tr tr1" "count_list (nodes_run tr1) n = count_list (nodes_run tr) n + 2" by blast
  from simulates(2) [OF assms(1,2,3) tr1(1)] obtain t where t: "(delivers env ^^ 2) s t" "represents i ns conns adj sp tr1 t" by blast
  have "length (node_tasks sp i f u) = length (node_tasks sp i f t)" if u: "(delivers env)\<^sup>*\<^sup>* t u" for u
  proof -
    from u obtain k where "(delivers env ^^ k) t u" by (auto simp: rtranclp_power)
    from simulates(1) [OF t(2) assms(2,3) this] obtain tr2 where
      tr2: "(visits conns)\<^sup>*\<^sup>* tr1 tr2" "represents i ns conns adj sp tr2 u" by (auto simp: rtranclp_power)
    have "2 \<le> count_list (nodes_run tr1) n" using tr1(2) by simp
    from repeated_input_blocks [OF tr2(1) this assms(7)] show ?thesis
      using represents_tasks(1) [OF t(2)] represents_tasks(1) [OF tr2(2)] by simp
  qed
  moreover have "length (node_tasks sp i n t) = length (node_tasks sp i n s) + 2"
    using tr1(2) represents_tasks(1) [OF t(2)] represents_tasks(1) [OF assms(1)] by simp
  ultimately show ?thesis using t(1) by blast
qed

section \<open>Two graphs\<close>

definition flow_nodes :: "string list \<Rightarrow> nodes" where
  "flow_nodes names = map (\<lambda>n. (n, sample_node n ''source_code'')) names"

definition flow_connections :: "(string \<times> string) list \<Rightarrow> connection list" where
  "flow_connections links =
     map (\<lambda>(a, b). \<lparr>source = a, target = b, source_output = Some ''out'', target_input = Some ''in''\<rparr>) links"

definition flow_adjacency :: "string list \<Rightarrow> (string \<times> string) list \<Rightarrow> adjacency" where
  "flow_adjacency names links = (case build_adjacency (flow_nodes names) (flow_connections links) of Inl _ \<Rightarrow> [] | Inr adj \<Rightarrow> adj)"

definition flow_json :: "string list \<Rightarrow> (string \<times> string) list \<Rightarrow> json" where
  "flow_json names links =
     JObj [(''workflow'', JObj [(''nodes'', JList (map (\<lambda>n. sample_node n ''source_code'') names)),
       (''connections'', JList (map (\<lambda>(a, b). sample_link a ''out'' b) links))])]"

definition flow_db :: "string list \<Rightarrow> (string \<times> string) list \<Rightarrow> schema_db" where
  "flow_db names links = sample_db\<lparr>templates := [sample_template\<lparr>tp_data := flow_json names links\<rparr>], tasks := []\<rparr>"

text \<open>A workflow on the graph just after its start: the messages of the start nodes are out.\<close>

definition flow_world :: "string list \<Rightarrow> (string \<times> string) list \<Rightarrow> world" where
  "flow_world names links = sample_world\<lparr>schemas := [''space0'' \<mapsto> flow_db names links],
     queue := map (node_message 1 (flow_nodes names) (flow_adjacency names links) sample_space (flow_connections links))
       (start_nodes (flow_nodes names) (flow_connections links))\<rparr>"

lemma flow_runnable:
  assumes "snd ` set links \<subseteq> set names"
  shows "runnable_graph sample_env (flow_nodes names) (flow_connections links)"
proof -
  have "runnable sample_env (sample_node n ''source_code'')" for n
    by (simp add: runnable_def sample_node_def node_type_def sample_env_def)
  then have nodes: "runnable sample_env node" if "map_of (flow_nodes names) n = Some node" for n node
    using map_of_SomeD [OF that] by (auto simp: flow_nodes_def)
  have "set (keys (flow_nodes names)) = set names" by (simp add: flow_nodes_def keys_def comp_def)
  then have links: "target_input c \<noteq> None \<and> target c \<in> set (keys (flow_nodes names))" if "c \<in> set (flow_connections links)" for c
    using that assms by (auto simp: flow_connections_def)
  have "nodes_named (flow_nodes names)" by (simp add: nodes_named_def flow_nodes_def list_all_iff sample_node_def)
  with nodes links show ?thesis unfolding runnable_graph_def by blast
qed

lemma flow_starts:
  assumes "read_graph (flow_json names links) = Inr (flow_nodes names, flow_connections links, flow_adjacency names links)"
  shows "represents 1 (flow_nodes names) (flow_connections links) (flow_adjacency names links) sample_space
    (initial (flow_nodes names) (flow_connections links)) (flow_world names links)"
proof -
  have lower: "ascii_lower ''space0'' = ''space0''" by code_simp
  then have ok: "world_ok (flow_world names links)"
    by (simp add: world_ok_def flow_world_def flow_db_def sample_world_def sample_db_def db_ok_def older_parent_def
        sample_workflow_def celery_ids_def home_def names_schema_def sample_space_def)
  have "run_db 1 (flow_nodes names) (flow_connections links) (flow_adjacency names links) sample_space [] (flow_db names links)"
    using assms by (simp add: run_db_def flow_db_def sample_db_def sample_workflow_def on_graph_def sample_template_def
        sample_space_def status_after_def tasks_in_def)
  with ok lower show ?thesis
    by (auto simp: represents_def flow_world_def initial_def sample_space_def sample_world_def schema_exists_def start_nodes_iff)
qed

abbreviation tree_names :: "string list" where
  "tree_names \<equiv> [''a'', ''b'', ''c'']"

abbreviation tree_links :: "(string \<times> string) list" where
  "tree_links \<equiv> [(''a'', ''b''), (''a'', ''c'')]"

abbreviation join_names :: "string list" where
  "join_names \<equiv> [''a'', ''b'', ''c'', ''d'', ''e'']"

abbreviation join_links :: "(string \<times> string) list" where
  "join_links \<equiv> [(''a'', ''b''), (''a'', ''c''), (''b'', ''d''), (''c'', ''d''), (''d'', ''e'')]"

lemma tree_graph: "read_graph (flow_json tree_names tree_links) =
    Inr (flow_nodes tree_names, flow_connections tree_links, flow_adjacency tree_names tree_links)"
  by code_simp

lemma join_graph: "read_graph (flow_json join_names join_links) =
    Inr (flow_nodes join_names, flow_connections join_links, flow_adjacency join_names join_links)"
  by code_simp

lemmas tree_starts = flow_starts [OF tree_graph]
lemmas join_starts = flow_starts [OF join_graph]

lemma sample_limit: "recursion_limit sample_env \<noteq> 0"
  by (simp add: sample_env_def)

lemma tree_runnable: "runnable_graph sample_env (flow_nodes tree_names) (flow_connections tree_links)"
  by (rule flow_runnable) simp

lemma join_runnable: "runnable_graph sample_env (flow_nodes join_names) (flow_connections join_links)"
  by (rule flow_runnable) simp

lemma tree_forest: "forest (flow_nodes tree_names) (flow_connections tree_links)"
proof -
  have "edges (flow_connections tree_links) \<subseteq> measure (\<lambda>n. if n = ''a'' then 0 else 1)"
    by (auto simp: edges_def flow_connections_def)
  then have "acyclic (edges (flow_connections tree_links))"
    using acyclic_subset [OF wf_acyclic [OF wf_measure [of "\<lambda>n. if n = ''a'' then 0 else 1"]]] by simp
  then show ?thesis by (simp add: forest_def flow_nodes_def flow_connections_def keys_def)
qed



text \<open>Two branches that join before a last node: taken first in, first out, the join runs twice.\<close>

lemma join_waits_twice:
  "\<exists>t. (delivers sample_env ^^ 3) (flow_world join_names join_links) t \<and>
    represents 1 (flow_nodes join_names) (flow_connections join_links) (flow_adjacency join_names join_links) sample_space
      \<lparr>nodes_run = [''a'', ''b'', ''c''], waiting = [''d'', ''d'']\<rparr> t"
proof -
  let ?conns = "flow_connections join_links" and ?tr = "initial (flow_nodes join_names) (flow_connections join_links)"
  have "takes ?conns [''a'', ''b'', ''c''] ?tr" by code_simp
  moreover have "fold (visit ?conns) [''a'', ''b'', ''c''] ?tr = \<lparr>nodes_run = [''a'', ''b'', ''c''], waiting = [''d'', ''d'']\<rparr>" by code_simp
  ultimately have "(visits ?conns ^^ 3) ?tr \<lparr>nodes_run = [''a'', ''b'', ''c''], waiting = [''d'', ''d'']\<rparr>"
    by (intro takes_run [of ?conns "[''a'', ''b'', ''c'']"]) simp_all
  then show ?thesis using simulates(2) [OF join_starts join_runnable sample_limit] by blast
qed

theorem join_starves_followers_witness:
  "\<exists>s t. (delivers sample_env ^^ 3) (flow_world join_names join_links) s \<and> (delivers sample_env ^^ 2) s t \<and>
    length (node_tasks sample_space 1 ''d'' t) = 2 \<and>
    (\<forall>u. (delivers sample_env)\<^sup>*\<^sup>* t u \<longrightarrow> length (node_tasks sample_space 1 ''e'' u) = length (node_tasks sample_space 1 ''e'' t))"
proof -
  let ?conns = "flow_connections join_links" and ?tr = "\<lparr>nodes_run = [''a'', ''b'', ''c''], waiting = [''d'', ''d'']\<rparr>"
  from join_waits_twice obtain s where s: "(delivers sample_env ^^ 3) (flow_world join_names join_links) s"
      "represents 1 (flow_nodes join_names) ?conns (flow_adjacency join_names join_links) sample_space ?tr s" by blast
  have "inputs_done ?conns (nodes_run ?tr) ''d''" "''d'' \<notin> set (input_nodes ''d'' ?conns)" "''d'' \<in> set (input_nodes ''e'' ?conns)"
    by code_simp+
  moreover have "2 \<le> count_list (waiting ?tr) ''d''" by simp
  ultimately obtain t where t: "(delivers sample_env ^^ 2) s t"
    "length (node_tasks sample_space 1 ''d'' t) = length (node_tasks sample_space 1 ''d'' s) + 2"
    "\<forall>u. (delivers sample_env)\<^sup>*\<^sup>* t u \<longrightarrow> length (node_tasks sample_space 1 ''e'' u) = length (node_tasks sample_space 1 ''e'' t)"
    using join_starves_followers [OF s(2) join_runnable sample_limit] by blast
  have "length (node_tasks sample_space 1 ''d'' t) = 2" using t(2) represents_tasks(1) [OF s(2), of "''d''"] by simp
  with s(1) t(1,3) show ?thesis by blast
qed

text \<open>Delivered first in, first out, that workflow is left in progress for ever with nothing to deliver.\<close>

lemma join_workflow_hangs:
  "\<exists>t. (delivers sample_env ^^ 7) (flow_world join_names join_links) t \<and> queue t = [] \<and>
    workflow_status sample_space 1 t = Some WProgress \<and> node_tasks sample_space 1 ''e'' t = []"
proof -
  let ?conns = "flow_connections join_links" and ?tr = "initial (flow_nodes join_names) (flow_connections join_links)"
  let ?order = "[''a'', ''b'', ''c'', ''d'', ''d'', ''e'', ''e'']"
  have "takes ?conns ?order ?tr" by code_simp
  moreover have last: "fold (visit ?conns) ?order ?tr = \<lparr>nodes_run = [''a'', ''b'', ''c'', ''d'', ''d''], waiting = []\<rparr>" by code_simp
  ultimately have "(visits ?conns ^^ 7) ?tr \<lparr>nodes_run = [''a'', ''b'', ''c'', ''d'', ''d''], waiting = []\<rparr>"
    by (intro takes_run [of ?conns ?order]) simp_all
  from simulates(2) [OF join_starts join_runnable sample_limit this] obtain t where
    t: "(delivers sample_env ^^ 7) (flow_world join_names join_links) t"
      "represents 1 (flow_nodes join_names) ?conns (flow_adjacency join_names join_links) sample_space
         \<lparr>nodes_run = [''a'', ''b'', ''c'', ''d'', ''d''], waiting = []\<rparr> t" by blast
  have "status_after ?conns [''a'', ''b'', ''c'', ''d'', ''d''] = WProgress" by code_simp
  then have "workflow_status sample_space 1 t = Some WProgress" using represents_status [OF t(2)] by simp
  moreover have "queue t = []" using t(2) by (simp add: represents_def)
  moreover have "length (node_tasks sample_space 1 ''e'' t) = 0" using represents_tasks(1) [OF t(2), of "''e''"] by simp
  ultimately show ?thesis using t(1) by auto
qed

end
