(* ===== verification/Waiting.thy ===== *)
theory Waiting
  imports Platform Sample
begin

text \<open>
  How long the waiting functions of \<^verbatim>\<open>workflow/finmars.py\<close> wait: the recursion that asks the
  platform for a task ends within the number of retries it is given, provided the
  interpreter allows that depth.
\<close>

section \<open>One question\<close>

text \<open>A call to the platform sends at most one request and takes no time of the clock.\<close>

definition asks :: "nat \<Rightarrow> world \<Rightarrow> world \<Rightarrow> bool" where
  "asks n s t \<longleftrightarrow> clock t = clock s \<and> length (outbox t) \<le> length (outbox s) + n"

lemma asks_bind:
  assumes "within (asks a) m" and "\<And>x. within (asks b) (f x)"
  shows "within (asks (a + b)) (bind m f)"
proof (rule withinI)
  fix s
  obtain r t where m: "m s = (r, t)" by force
  with assms(1) have st: "asks a s t" by (rule within_run)
  show "asks (a + b) s (snd (bind m f s))"
  proof (cases r)
    case (Inl e)
    with m st show ?thesis by (auto simp: bind_raise asks_def)
  next
    case (Inr x)
    with m st withinD [OF assms(2), of t x] show ?thesis by (auto simp: bind_value asks_def)
  qed
qed

lemma asks_read: "within (=) m \<Longrightarrow> within (asks 0) m"
  by (simp add: within_def asks_def)

lemma asks_request: "within (asks 1) (request env m url body tok)"
  by (auto simp: within_def asks_def request_def bind_def seq_def emit_def)

lemma asks_catch: "within (asks n) m \<Longrightarrow> within (asks n) (catch m (\<lambda>_. ret x))"
  by (auto simp: within_def catch_def split: prod.splits sum.splits) (metis snd_conv)+

lemma call_platform_asks: "within (asks 1) (call_platform env m p body)"
proof -
  have "within (=) (get_refresh_token n)" for n
    unfolding get_refresh_token_def by (intro reading.bind reading.queries reading.ret)
  then have token: "within (asks 0) (get_refresh_token n)" for n by (rule asks_read)
  have space: "within (asks 0) first_space" by (intro asks_read reading.queries)
  have answer: "within (asks 0) (if status_code r \<noteq> 200 then throw (Raised ''Exception'' (response_text r)) else lift (json_loads (response_text r)))"
    for r :: response by (intro asks_read reading.if_branch reading.throw reading.lift)
  have "within (asks (1 + 0)) (bind (request env m (space_url env sp p) body (Some tok)) (\<lambda>r.
      if status_code r \<noteq> 200 then throw (Raised ''Exception'' (response_text r)) else lift (json_loads (response_text r))))" for sp tok
    by (intro asks_bind asks_request answer)
  from asks_bind [OF token asks_bind [OF space this]] show ?thesis by (simp add: call_platform_def)
qed

section \<open>The loop\<close>

text \<open>One round: the answer when the task is done, nothing when it runs on or cannot be read.\<close>

definition ask_once :: "env \<Rightarrow> string \<Rightarrow> json option io" where
  "ask_once env i =
     catch (bind (get_task env i) (\<lambda>res. bind (lift (subscript res ''status'')) (\<lambda>st.
             ret (if still_running st then None else Some res))))
       (\<lambda>_. ret None)"

definition finished :: "json \<Rightarrow> bool" where
  "finished res \<longleftrightarrow> (\<exists>st. subscript res ''status'' = Inr st \<and> \<not> still_running st)"

lemma ask_once_run: "\<exists>x t. ask_once env i s = (Inr x, t) \<and> asks 1 s t \<and> (\<forall>res. x = Some res \<longrightarrow> finished res)"
proof -
  have "within (asks (1 + 0)) (bind (get_task env i) (\<lambda>res. bind (lift (subscript res ''status'')) (\<lambda>st.
      ret (if still_running st then None else Some res))))"
    unfolding get_task_def by (intro asks_bind call_platform_asks asks_read reading.bind reading.lift reading.ret)
  then have "within (asks 1) (ask_once env i)" unfolding ask_once_def by (intro asks_catch) simp
  then have "asks 1 s (snd (ask_once env i s))" by (rule withinD)
  then show ?thesis
    by (auto simp: ask_once_def catch_def bind_def finished_def split: prod.splits sum.splits)
qed

lemma wait_task_round:
  "wait_task_rec env (Suc depth) i retries interval counter =
     (if counter = retries then throw (Raised ''Exception'' ''Task exceeded retries'')
      else bind (ask_once env i) (\<lambda>found. case found of Some res \<Rightarrow> ret res
        | None \<Rightarrow> seq (sleep (interval * 1000)) (wait_task_rec env depth i retries interval (counter + 1))))"
  by (simp add: ask_once_def)

definition waited :: "nat \<Rightarrow> nat \<Rightarrow> world \<Rightarrow> world \<Rightarrow> bool" where
  "waited n ms s t \<longleftrightarrow> clock t \<le> clock s + n * ms \<and> length (outbox t) \<le> length (outbox s) + n"

definition wait_outcome :: "exc + json \<Rightarrow> bool" where
  "wait_outcome r \<longleftrightarrow> r = Inl (Raised ''Exception'' ''Task exceeded retries'') \<or> (\<exists>res. r = Inr res \<and> finished res)"

declare wait_task_rec.simps [simp del]

lemma wait_task_rec_bounded:
  "retries = counter + int n \<Longrightarrow> n < depth \<Longrightarrow>
    \<exists>r t. wait_task_rec env depth i retries interval counter s = (r, t) \<and> wait_outcome r \<and> waited n (interval * 1000) s t"
proof (induction n arbitrary: counter depth s)
  case 0
  then obtain k where "depth = Suc k" by (cases depth) auto
  with 0 show ?case by (auto simp: wait_task_round wait_outcome_def waited_def)
next
  case (Suc n)
  then obtain k where k: "depth = Suc k" "n < k" by (cases depth) auto
  obtain x t where x: "ask_once env i s = (Inr x, t)" "asks 1 s t" "\<forall>res. x = Some res \<longrightarrow> finished res"
    using ask_once_run by blast
  show ?case
  proof (cases x)
    case (Some res)
    then have "wait_task_rec env depth i retries interval counter s = (Inr res, t)"
      using Suc.prems x(1) by (simp add: k(1) wait_task_round bind_value)
    then show ?thesis using x Some by (auto simp: wait_outcome_def waited_def asks_def)
  next
    case None
    let ?u = "t\<lparr>clock := clock t + interval * 1000\<rparr>"
    have step: "wait_task_rec env depth i retries interval counter s = wait_task_rec env k i retries interval (counter + 1) ?u"
      using Suc.prems x(1) None by (simp add: k(1) wait_task_round bind_value seq_def bind_def sleep_def)
    have "retries = counter + 1 + int n" using Suc.prems(1) by simp
    from Suc.IH [OF this k(2), of ?u] obtain r v where
      "wait_task_rec env k i retries interval (counter + 1) ?u = (r, v)" "wait_outcome r" "waited n (interval * 1000) ?u v" by blast
    with step x(2) show ?thesis by (auto simp: waited_def asks_def)
  qed
qed

text \<open>
  C35: waiting for a task of the platform ends within the given number of retries when the
  interpreter allows more nested calls than that: it returns a task that no longer runs or
  raises that the retries are exceeded, whatever the platform answers or fails to answer,
  after at most that many requests and pauses.
\<close>

theorem wait_task_bounded:
  assumes "retries < depth"
  shows "\<exists>r t. wait_task_to_complete env depth i (int retries) interval s = (r, t) \<and> wait_outcome r \<and>
    clock t \<le> clock s + retries * (interval * 1000) \<and> length (outbox t) \<le> length (outbox s) + retries"
  using wait_task_rec_bounded [of "int retries" 0 retries depth env i interval s] assms
  by (simp add: wait_task_to_complete_def waited_def)

theorem wait_task_bounded_witness:
  "\<exists>r t. wait_task_to_complete sample_env 1000 ''7'' 100 5 sample_world = (r, t) \<and> wait_outcome r \<and>
    clock t \<le> 501000 \<and> length (outbox t) \<le> 100"
  using wait_task_bounded [of 100 1000 sample_env "''7''" 5 sample_world] by (simp add: sample_world_def)

text \<open>A negative number of retries is never reached: the recursion goes on to the limit of the interpreter.\<close>

lemma wait_forever:
  assumes "\<And>s. \<exists>t. ask_once env i s = (Inr None, t)" and "retries < counter"
  shows "fst (wait_task_rec env depth i retries interval counter s) = Inl RecursionError"
  using assms(2)
proof (induction depth arbitrary: counter s)
  case 0
  then show ?case by (simp add: wait_task_rec.simps)
next
  case (Suc depth)
  from assms(1) obtain t where "ask_once env i s = (Inr None, t)" by blast
  then show ?case using Suc by (simp add: wait_task_round bind_value seq_def bind_def sleep_def)
qed

end
