(* ===== verification/Health.thy ===== *)
theory Health
  imports Graph Complex_Main
begin

text \<open>
  The health check: the four plugins of \<^verbatim>\<open>healthcheck/handlers.py\<close>, their exceptions, and the
  view that turns their errors into a status.  What the operating system and the database
  answer is a parameter; a percentage and a duration are rationals.
\<close>

section \<open>Errors of a check\<close>

datatype health_kind = HealthCheckException | ServiceWarning | ServiceUnavailable | ServiceReturnedUnexpectedResult

record health_error =
  he_kind :: health_kind
  he_message :: string

fun message_type :: "health_kind \<Rightarrow> string" where
  "message_type HealthCheckException = ''unknown error''"
| "message_type ServiceWarning = ''warning''"
| "message_type ServiceUnavailable = ''unavailable''"
| "message_type ServiceReturnedUnexpectedResult = ''unexpected result''"

definition health_str :: "health_error \<Rightarrow> string" where
  "health_str e = message_type (he_kind e) @ '': '' @ he_message e"

definition health_error_of :: "health_kind \<Rightarrow> string \<Rightarrow> health_error" where
  "health_error_of k msg = \<lparr>he_kind = k, he_message = msg\<rparr>"

text \<open>\<^verbatim>\<open>BaseHealthCheck.add_error\<close> takes an exception of the package, a text, or anything else.\<close>

datatype reported = IsHealth health_error | IsText string | IsOther

definition add_error :: "reported \<Rightarrow> health_error list \<Rightarrow> health_error list" where
  "add_error r es =
     es @ [case r of IsHealth e \<Rightarrow> e
           | IsText msg \<Rightarrow> health_error_of HealthCheckException msg
           | IsOther \<Rightarrow> health_error_of HealthCheckException ''unknown error'']"

text \<open>How \<^verbatim>\<open>check_status\<close> ends: the errors it added, and what it raised.\<close>

datatype raised = Health health_error | Unexpected exc

type_synonym check = "health_error list \<times> raised option"

definition run_check :: "check \<Rightarrow> exc + health_error list" where
  "run_check c =
     (case snd c of
        None \<Rightarrow> Inr (fst c)
      | Some (Health e) \<Rightarrow> Inr (add_error (IsHealth e) (fst c))
      | Some (Unexpected e) \<Rightarrow> Inl e)"

definition status_flag :: "health_error list \<Rightarrow> int" where
  "status_flag es = (if es = [] then 1 else 0)"

section \<open>The plugins\<close>

record health_conf =
  disk_usage_max :: nat
  memory_min :: nat
  warnings_as_errors :: bool

definition default_conf :: health_conf where
  "default_conf = \<lparr>disk_usage_max = 90, memory_min = 100, warnings_as_errors = True\<rparr>"

text \<open>Readings of the system; \<open>show_float\<close> and \<open>show_locale\<close> print a number.\<close>

record readings =
  host_name :: string
  disk_percent :: "exc + rat"
  memory_available :: "exc + nat"
  memory_used :: nat
  locale_error :: "exc option"
  show_float :: "rat \<Rightarrow> string"
  show_locale :: "nat \<Rightarrow> string"

definition value_error_reported :: "exc \<Rightarrow> check" where
  "value_error_reported e =
     (if e = ValueError then (add_error (IsHealth (health_error_of ServiceReturnedUnexpectedResult ''ValueError'')) [], None)
      else ([], Some (Unexpected e)))"

definition disk_check :: "health_conf \<Rightarrow> readings \<Rightarrow> check" where
  "disk_check conf r =
     (case disk_percent r of
        Inl e \<Rightarrow> value_error_reported e
      | Inr p \<Rightarrow>
          if disk_usage_max conf \<noteq> 0 \<and> of_nat (disk_usage_max conf) \<le> p then
            ([], Some (Health (health_error_of ServiceWarning
               (host_name r @ '' '' @ show_float r p @ ''% disk usage exceeds '' @ show_nat (disk_usage_max conf) @ ''%''))))
          else ([], None))"

definition memory_check :: "health_conf \<Rightarrow> readings \<Rightarrow> check" where
  "memory_check conf r =
     (case memory_available r of
        Inl e \<Rightarrow> value_error_reported e
      | Inr m \<Rightarrow>
          if memory_min conf \<noteq> 0 \<and> m < memory_min conf * 1024 * 1024 then
            (case locale_error r of
               Some e \<Rightarrow> value_error_reported e
             | None \<Rightarrow> ([], Some (Health (health_error_of ServiceWarning
                 (host_name r @ '' '' @ show_locale r (m div 1024 div 1024) @ '' MB available RAM below ''
                  @ show_locale r (memory_min conf) @ '' MB'')))))
          else ([], None))"

text \<open>The database plugin creates a row, renames it and deletes it, each of which may fail.\<close>

datatype db_failure = IntegrityFailure | DatabaseFailure | OtherFailure exc

record test_table =
  test_rows :: "(nat \<times> string) list"
  test_seq :: nat

definition db_raised :: "db_failure \<Rightarrow> raised" where
  "db_raised f =
     (case f of
        IntegrityFailure \<Rightarrow> Health (health_error_of ServiceReturnedUnexpectedResult ''Integrity Error'')
      | DatabaseFailure \<Rightarrow> Health (health_error_of ServiceUnavailable ''Database error'')
      | OtherFailure e \<Rightarrow> Unexpected e)"

definition database_check :: "(nat \<Rightarrow> db_failure option) \<Rightarrow> test_table \<Rightarrow> check \<times> test_table" where
  "database_check fails t =
     (case fails 0 of
        Some f \<Rightarrow> (([], Some (db_raised f)), t)
      | None \<Rightarrow>
          (let i = Suc (test_seq t); t1 = t\<lparr>test_rows := test_rows t @ [(i, ''First'')], test_seq := i\<rparr> in
           case fails 1 of
             Some f \<Rightarrow> (([], Some (db_raised f)), t1)
           | None \<Rightarrow>
               (let t2 = t1\<lparr>test_rows := map (\<lambda>(j, n). if j = i then (j, ''Second'') else (j, n)) (test_rows t1)\<rparr> in
                case fails 2 of
                  Some f \<Rightarrow> (([], Some (db_raised f)), t2)
                | None \<Rightarrow> (([], None), t2\<lparr>test_rows := filter (\<lambda>(j, n). j \<noteq> i) (test_rows t2)\<rparr>))))"

definition uptime_check :: check where
  "uptime_check = ([], None)"

section \<open>What a plugin says of itself\<close>

record health_item =
  component_type :: string
  observed_value :: rat
  observed_unit :: string
  item_time :: string
  item_status :: string
  item_output :: string

definition new_item :: "string \<Rightarrow> rat \<Rightarrow> string \<Rightarrow> string \<Rightarrow> health_item" where
  "new_item ty v unit time =
     \<lparr>component_type = ty, observed_value = v, observed_unit = unit, item_time = time, item_status = ''pass'', item_output = []\<rparr>"

definition disk_info :: "readings \<Rightarrow> string \<Rightarrow> exc + health_item list" where
  "disk_info r time = rbind (disk_percent r) (\<lambda>p. Inr [new_item ''system'' p ''percent'' time])"

definition memory_info :: "readings \<Rightarrow> string \<Rightarrow> health_item list" where
  "memory_info r time = [new_item ''system'' (of_nat (memory_used r div 1024 div 1024)) ''MiB'' time]"

text \<open>\<^verbatim>\<open>round\<close> of Python takes a half to the even neighbour; without a measured time it fails.\<close>

definition py_round :: "rat \<Rightarrow> int" where
  "py_round x =
     (let f = \<lfloor>x\<rfloor>; d = x - of_int f in
      if d < 1 / 2 then f else if d > 1 / 2 then f + 1 else if even f then f else f + 1)"

definition database_info :: "rat option \<Rightarrow> string \<Rightarrow> exc + health_item list" where
  "database_info response_time time =
     (case response_time of
        None \<Rightarrow> Inl TypeError
      | Some s \<Rightarrow> Inr [new_item ''datastore'' (of_int (py_round (s * 1000))) ''ms'' time])"

definition uptime_info :: "rat \<Rightarrow> rat \<Rightarrow> string \<Rightarrow> health_item list" where
  "uptime_info now_seconds boot_time time = [new_item ''system'' (now_seconds - boot_time) ''s'' time]"

definition pretty_status :: "health_error list \<Rightarrow> exc + health_item list \<Rightarrow> exc + (string list + health_item list)" where
  "pretty_status es info = (if es \<noteq> [] then Inr (Inl (map health_str es)) else rbind info (\<lambda>x. Inr (Inr x)))"

definition plugin_identifiers :: "string list" where
  "plugin_identifiers = [''disk:utilization'', ''memory:utilization'', ''database:responseTime'', ''uptime'']"

section \<open>The view\<close>

text \<open>
  The plugins run in threads of their own, all of them to the end; the results are taken in
  order, and the first exception of a plugin is raised again.
\<close>

fun collect_errors :: "check list \<Rightarrow> exc + health_error list" where
  "collect_errors [] = Inr []"
| "collect_errors (c # cs) = rbind (run_check c) (\<lambda>es. rbind (collect_errors cs) (\<lambda>fs. Inr (es @ fs)))"

definition view_check ::
  "health_conf \<Rightarrow> readings \<Rightarrow> (nat \<Rightarrow> db_failure option) \<Rightarrow> test_table \<Rightarrow> (exc + health_error list) \<times> test_table" where
  "view_check conf r fails t =
     (let (db, t') = database_check fails t in
      (collect_errors [disk_check conf r, memory_check conf r, db, uptime_check], t'))"

definition health_get ::
  "health_conf \<Rightarrow> readings \<Rightarrow> (nat \<Rightarrow> db_failure option) \<Rightarrow> test_table \<Rightarrow> (exc + nat \<times> json) \<times> test_table" where
  "health_get conf r fails t =
     (let (errors, t') = view_check conf r fails t in
      (rbind errors (\<lambda>es.
         let st = (if es \<noteq> [] then ''fail'' else ''pass'') in
         Inr (if es \<noteq> [] then 500 else 200,
           JObj [(''version'', JInt 1), (''checks'', JObj []), (''status'', JStr st), (''notes'', JStr []),
                 (''description'', JStr []), (''output'', JStr [])])), t'))"

section \<open>What the status says\<close>

definition low_disk :: "health_conf \<Rightarrow> rat \<Rightarrow> bool" where
  "low_disk conf p \<longleftrightarrow> disk_usage_max conf \<noteq> 0 \<and> of_nat (disk_usage_max conf) \<le> p"

definition low_memory :: "health_conf \<Rightarrow> nat \<Rightarrow> bool" where
  "low_memory conf m \<longleftrightarrow> memory_min conf \<noteq> 0 \<and> m < memory_min conf * 1024 * 1024"

lemma database_check_errors:
  assumes "\<And>i e. fails i \<noteq> Some (OtherFailure e)"
  shows "\<exists>es. run_check (fst (database_check fails t)) = Inr es \<and> (es = [] \<longleftrightarrow> (\<forall>i < 3. fails i = None))"
proof -
  have known: "\<exists>e. db_raised f = Health e" if "fails i = Some f" for i f
    using assms [of i] that by (cases f) (auto simp: db_raised_def)
  have three: "(\<forall>i < 3. fails i = None) \<longleftrightarrow> fails 0 = None \<and> fails 1 = None \<and> fails 2 = None"
    by (auto simp: less_Suc_eq numeral_3_eq_3 numeral_2_eq_2)
  show ?thesis unfolding three using known [of 0] known [of 1] known [of 2]
    by (fastforce simp: database_check_def run_check_def add_error_def Let_def split: option.splits)
qed

lemma database_check_restores:
  assumes "\<forall>i < 3. fails i = None" and "\<forall>(j, n) \<in> set (test_rows t). j \<le> test_seq t"
  shows "test_rows (snd (database_check fails t)) = test_rows t"
proof -
  have "fails 0 = None" "fails 1 = None" "fails 2 = None" using assms(1) by simp_all
  moreover have "filter ((\<lambda>(j, n). j \<noteq> Suc (test_seq t)) \<circ> (\<lambda>(j, n). if j = Suc (test_seq t) then (j, ''Second'') else (j, n))) (test_rows t)
      = test_rows t"
    using assms(2) by (intro filter_True) (auto split: prod.splits)
  moreover have "map (\<lambda>(j, n). if j = Suc (test_seq t) then (j, ''Second'') else (j, n)) (test_rows t) = test_rows t"
    using assms(2) by (intro map_idI) (auto split: prod.splits)
  ultimately show ?thesis by (simp add: database_check_def Let_def filter_map)
qed

lemma disk_check_errors:
  "disk_percent r = Inr p \<Longrightarrow> \<exists>es. run_check (disk_check conf r) = Inr es \<and> (es = [] \<longleftrightarrow> \<not> low_disk conf p)"
  by (auto simp: disk_check_def run_check_def add_error_def low_disk_def)

lemma memory_check_errors:
  "memory_available r = Inr m \<Longrightarrow> locale_error r = None \<Longrightarrow>
    \<exists>es. run_check (memory_check conf r) = Inr es \<and> (es = [] \<longleftrightarrow> \<not> low_memory conf m)"
  by (auto simp: memory_check_def run_check_def add_error_def low_memory_def)

definition healthy :: "health_conf \<Rightarrow> rat \<Rightarrow> nat \<Rightarrow> (nat \<Rightarrow> db_failure option) \<Rightarrow> bool" where
  "healthy conf p m fails \<longleftrightarrow> \<not> low_disk conf p \<and> \<not> low_memory conf m \<and> (\<forall>i < 3. fails i = None)"

text \<open>
  The health check answers 200 and \<^verbatim>\<open>pass\<close> exactly when the disk, the memory and the
  database are all well, and 500 and \<^verbatim>\<open>fail\<close> otherwise, a mere warning included whatever
  \<^verbatim>\<open>WARNINGS_AS_ERRORS\<close> says; its probe leaves no row behind when it succeeds.
\<close>

lemma health_status_exact:
  assumes "disk_percent r = Inr p" and "memory_available r = Inr m" and "locale_error r = None"
    and "\<And>i e. fails i \<noteq> Some (OtherFailure e)"
  shows "\<exists>body t'. health_get conf r fails t = (Inr (if healthy conf p m fails then 200 else 500, body), t') \<and>
    subscript body ''status'' = Inr (JStr (if healthy conf p m fails then ''pass'' else ''fail'')) \<and>
    ((\<forall>i < 3. fails i = None) \<and> (\<forall>(j, n) \<in> set (test_rows t). j \<le> test_seq t) \<longrightarrow> test_rows t' = test_rows t)"
proof -
  obtain ds where ds: "run_check (disk_check conf r) = Inr ds" "ds = [] \<longleftrightarrow> \<not> low_disk conf p"
    using disk_check_errors [OF assms(1)] by blast
  obtain ms where ms: "run_check (memory_check conf r) = Inr ms" "ms = [] \<longleftrightarrow> \<not> low_memory conf m"
    using memory_check_errors [OF assms(2,3)] by blast
  obtain bs where bs: "run_check (fst (database_check fails t)) = Inr bs" "bs = [] \<longleftrightarrow> (\<forall>i < 3. fails i = None)"
    using database_check_errors [of fails t] assms(4) by blast
  obtain c t' where db: "database_check fails t = (c, t')" by (cases "database_check fails t")
  have "ds @ ms @ bs = [] \<longleftrightarrow> healthy conf p m fails" using ds ms bs by (auto simp: healthy_def)
  then have "\<exists>body. health_get conf r fails t = (Inr (if healthy conf p m fails then 200 else 500, body), t') \<and>
      subscript body ''status'' = Inr (JStr (if healthy conf p m fails then ''pass'' else ''fail''))"
    using ds(1) ms(1) bs(1) db
    by (simp add: health_get_def view_check_def uptime_check_def run_check_def [of "([], None)"] or_raise_def)
  then show ?thesis using database_check_restores [of fails t] db by auto
qed

definition sample_readings :: readings where
  "sample_readings = \<lparr>host_name = ''web'', disk_percent = Inr 95, memory_available = Inr 4000000000, memory_used = 1000000,
     locale_error = None, show_float = (\<lambda>_. ''95.0''), show_locale = (\<lambda>n. show_nat n)\<rparr>"

lemma health_status_sample:
  "\<exists>body t'. health_get (default_conf\<lparr>warnings_as_errors := False\<rparr>) sample_readings (\<lambda>_. None) \<lparr>test_rows = [(1, ''x'')], test_seq = 1\<rparr>
      = (Inr (500, body), t') \<and> subscript body ''status'' = Inr (JStr ''fail'') \<and> test_rows t' = [(1, ''x'')]"
proof -
  let ?conf = "default_conf\<lparr>warnings_as_errors := False\<rparr>"
  have "\<not> healthy ?conf 95 4000000000 (\<lambda>_. None)" by (simp add: healthy_def low_disk_def default_conf_def)
  then show ?thesis
    using health_status_exact [of sample_readings 95 4000000000 "\<lambda>_. None" ?conf "\<lparr>test_rows = [(1, ''x'')], test_seq = 1\<rparr>"]
    by (simp add: sample_readings_def)
qed

end
