(* ===== verification/OpenApi.thy ===== *)
theory OpenApi
  imports Graph
begin

text \<open>
  The documentation of errors: \<^verbatim>\<open>finmars_standardized_errors/openapi_utils.py\<close>, which lists the
  fields a request may be wrong in with the codes of their errors, the decisions of
  \<^verbatim>\<open>openapi.py\<close> which error responses a view has, and the lazily read settings of the package.
  A serializer field is what the code inspects of the framework's object.
\<close>

section \<open>Fields\<close>

text \<open>Validators by the classes and functions the code asks for, with their \<^verbatim>\<open>code\<close> attribute.\<close>

datatype validator_kind =
    DecimalValidator "nat option" "nat option"
  | ValidateAddressOrInteger
  | ValidateImageExtension
  | UniqueValidator
  | UniqueTogetherValidator "string list"
  | BaseUniqueForValidator string string
  | OtherValidator

record field_validator =
  v_kind :: validator_kind
  v_code :: "string option"

text \<open>The class of a field, as far as the code distinguishes it.\<close>

datatype field_class =
    DateTimeClass bool
  | FileClass bool
  | IPAddressClass bool
  | EnforcedByValidator
  | ChoiceClass
  | HiddenClass
  | ManyRelatedClass "string list"
  | OtherClass

record field_info =
  field_name :: "string option"
  field_class :: field_class
  read_only :: bool
  required :: bool
  allow_null :: bool
  allow_blank :: "bool option"
  allow_empty :: "bool option"
  allow_empty_file :: "bool option"
  has_max_digits :: bool
  has_decimal_places :: bool
  has_max_whole_digits :: bool
  field_validators :: "field_validator list"
  error_messages :: "string list"
  basic_serializer :: bool

datatype sfield =
    ListSerializer field_info sfield
  | Polymorphic "sfield list"
  | Serializer field_info "sfield list"
  | Composite bool field_info sfield
  | Leaf field_info

record package_names =
  separator :: string
  list_index :: string
  dict_key :: string
  non_field_errors :: string
  component_suffix :: string

definition default_names :: package_names where
  "default_names = \<lparr>separator = ''.'', list_index = ''INDEX'', dict_key = ''KEY'', non_field_errors = ''non_field_errors'',
     component_suffix = ''ErrorComponent''\<rparr>"

text \<open>\<^verbatim>\<open>get_prefix\<close>: \<^verbatim>\<open>None\<close> and the empty string are both no prefix.\<close>

definition get_prefix :: "string \<Rightarrow> string option \<Rightarrow> string option \<Rightarrow> string option" where
  "get_prefix sep pre name =
     (case pre of
        None \<Rightarrow> name
      | Some p \<Rightarrow>
          if p = [] then name
          else (case name of None \<Rightarrow> Some p | Some n \<Rightarrow> if n = [] then Some p else Some (p @ sep @ n)))"

record input_field =
  input_name :: "string option"
  input_info :: field_info
  error_codes :: "string set"

definition new_input :: "string option \<Rightarrow> field_info \<Rightarrow> input_field" where
  "new_input n f = \<lparr>input_name = n, input_info = f, error_codes = {}\<rparr>"

fun get_flat_serializer_fields :: "package_names \<Rightarrow> sfield \<Rightarrow> string option \<Rightarrow> input_field list" where
  "get_flat_serializer_fields nm (ListSerializer f child) pre =
     (let p = get_prefix (separator nm) pre (field_name f) in
      new_input (get_prefix (separator nm) p (Some (non_field_errors nm))) f
        # get_flat_serializer_fields nm child (get_prefix (separator nm) p (Some (list_index nm))))"
| "get_flat_serializer_fields nm (Polymorphic fs) pre = concat (map (\<lambda>f. get_flat_serializer_fields nm f pre) fs)"
| "get_flat_serializer_fields nm (Serializer f fs) pre =
     (let p = get_prefix (separator nm) pre (field_name f) in
      new_input (get_prefix (separator nm) p (Some (non_field_errors nm))) f
        # concat (map (\<lambda>g. get_flat_serializer_fields nm g p) fs))"
| "get_flat_serializer_fields nm (Composite is_list f child) pre =
     (let p = get_prefix (separator nm) pre (field_name f) in
      new_input p f
        # get_flat_serializer_fields nm child
            (get_prefix (separator nm) p (Some (if is_list then list_index nm else dict_key nm))))"
| "get_flat_serializer_fields nm (Leaf f) pre = [new_input (get_prefix (separator nm) pre (field_name f)) f]"

section \<open>Error codes of a field\<close>

definition is_unique_together :: "field_validator \<Rightarrow> bool" where
  "is_unique_together v = (case v_kind v of UniqueTogetherValidator _ \<Rightarrow> True | _ \<Rightarrow> False)"

definition is_unique_for :: "field_validator \<Rightarrow> bool" where
  "is_unique_for v = (case v_kind v of BaseUniqueForValidator _ _ \<Rightarrow> True | _ \<Rightarrow> False)"

definition has_validator :: "(field_validator \<Rightarrow> bool) \<Rightarrow> field_info \<Rightarrow> bool" where
  "has_validator P f = list_ex P (field_validators f)"

definition codes_if :: "bool \<Rightarrow> string list \<Rightarrow> string set" where
  "codes_if b xs = (if b then set xs else {})"

text \<open>\<^verbatim>\<open>get_error_codes_from_validators\<close>: an empty code does not count, the first decimal validator decides.\<close>

definition get_error_codes_from_validators :: "field_validator list \<Rightarrow> string set" where
  "get_error_codes_from_validators vs =
     (let own = set (concat (map (\<lambda>v. case v_code v of None \<Rightarrow> [] | Some c \<Rightarrow> if c = [] then [] else [c]) vs));
          decimal = (case [k \<leftarrow> map v_kind vs. case k of DecimalValidator _ _ \<Rightarrow> True | _ \<Rightarrow> False] of
                       DecimalValidator md dp # _ \<Rightarrow>
                         codes_if (md \<noteq> None) [''max_digits''] \<union> codes_if (dp \<noteq> None) [''max_decimal_places''] \<union>
                         codes_if (dp \<noteq> None \<and> md \<noteq> None) [''max_whole_digits'']
                     | _ \<Rightarrow> {})
      in own \<union> decimal \<union> codes_if (ValidateAddressOrInteger \<in> set (map v_kind vs)) [''invalid''] \<union>
         codes_if (ValidateImageExtension \<in> set (map v_kind vs)) [''invalid_extension''])"

definition conditional_codes :: "string list" where
  "conditional_codes =
     [''required'', ''null'', ''blank'', ''max_length'', ''min_length'', ''max_value'', ''min_value'', ''max_digits'',
      ''max_decimal_places'', ''max_whole_digits'', ''overflow'', ''make_aware'', ''empty'', ''invalid_unicode'']"

definition enforced_by_validators :: "field_class \<Rightarrow> bool" where
  "enforced_by_validators c = (case c of EnforcedByValidator \<Rightarrow> True | IPAddressClass _ \<Rightarrow> True | _ \<Rightarrow> False)"

definition get_serializer_field_error_codes :: "package_names \<Rightarrow> field_info \<Rightarrow> string option \<Rightarrow> string set" where
  "get_serializer_field_error_codes nm f attr =
     (if read_only f \<or> field_class f = HiddenClass then {}
      else
        (let codes =
           codes_if (required f) [''required''] \<union> codes_if (\<not> allow_null f) [''null''] \<union>
           codes_if (allow_blank f = Some False \<and> field_class f \<noteq> ChoiceClass) [''blank''] \<union>
           codes_if (has_max_digits f) [''max_digits''] \<union> codes_if (has_decimal_places f) [''max_decimal_places''] \<union>
           codes_if (has_max_whole_digits f) [''max_whole_digits''] \<union>
           codes_if (field_class f = DateTimeClass True) [''overflow'', ''make_aware''] \<union>
           codes_if (allow_empty f = Some False \<or> allow_empty_file f = Some False) [''empty''] \<union>
           codes_if (field_class f = FileClass True) [''max_length''] \<union>
           codes_if (field_class f = IPAddressClass True) [''invalid''] \<union>
           get_error_codes_from_validators (field_validators f) \<union>
           codes_if (UniqueValidator \<in> set (map v_kind (field_validators f))) [''unique''] \<union>
           (set (error_messages f) - set conditional_codes
              - codes_if (enforced_by_validators (field_class f)) [''invalid'']);
             top = (if attr = Some (non_field_errors nm) then codes - {''required'', ''null''} else codes)
         in top \<union> (case field_class f of ManyRelatedClass msgs \<Rightarrow> set msgs - {''required'', ''null''} | _ \<Rightarrow> {})))"

text \<open>\<^verbatim>\<open>add_error_code\<close> replaces the last part of the name and adds the code to the first field so named.\<close>

fun add_to_first :: "string \<Rightarrow> string \<Rightarrow> input_field list \<Rightarrow> input_field list" where
  "add_to_first name code [] = []"
| "add_to_first name code (x # xs) =
     (if input_name x = Some name then x\<lparr>error_codes := insert code (error_codes x)\<rparr> # xs
      else x # add_to_first name code xs)"

definition sibling_name :: "char \<Rightarrow> string \<Rightarrow> string \<Rightarrow> string" where
  "sibling_name sep attr name = join [sep] (butlast (split_on sep attr) @ [name])"

definition add_error_code :: "char \<Rightarrow> string \<Rightarrow> string \<Rightarrow> string \<Rightarrow> input_field list \<Rightarrow> input_field list" where
  "add_error_code sep attr name code xs = add_to_first (sibling_name sep attr name) code xs"

definition the_name :: "input_field \<Rightarrow> string" where
  "the_name x = (case input_name x of None \<Rightarrow> [] | Some n \<Rightarrow> n)"

definition together_fields :: "input_field \<Rightarrow> string list" where
  "together_fields x =
     remdups (concat (map (\<lambda>v. case v_kind v of UniqueTogetherValidator ns \<Rightarrow> ns | _ \<Rightarrow> []) (field_validators (input_info x))))"

definition add_unique_together :: "char \<Rightarrow> input_field list \<Rightarrow> input_field list" where
  "add_unique_together sep xs =
     (let marked = [x \<leftarrow> xs. basic_serializer (input_info x) \<and> has_validator is_unique_together (input_info x)];
          flag = map (\<lambda>x. if basic_serializer (input_info x) \<and> has_validator is_unique_together (input_info x)
                          then x\<lparr>error_codes := insert ''unique'' (error_codes x)\<rparr> else x) xs
      in foldl (\<lambda>ys x. foldl (\<lambda>zs n. add_error_code sep (the_name x) n ''required'' zs) ys (together_fields x)) flag marked)"

definition add_unique_for :: "char \<Rightarrow> input_field list \<Rightarrow> input_field list" where
  "add_unique_for sep xs =
     (let marked = [x \<leftarrow> xs. basic_serializer (input_info x) \<and> has_validator is_unique_for (input_info x)]
      in foldl (\<lambda>ys x. foldl (\<lambda>zs v. case v_kind v of
             BaseUniqueForValidator date fld \<Rightarrow>
               add_error_code sep (the_name x) fld ''unique''
                 (add_error_code sep (the_name x) fld ''required'' (add_error_code sep (the_name x) date ''required'' zs))
           | _ \<Rightarrow> zs) ys (field_validators (input_info x))) xs marked)"

definition get_serializer_fields_with_error_codes :: "package_names \<Rightarrow> char \<Rightarrow> input_field list \<Rightarrow> input_field list" where
  "get_serializer_fields_with_error_codes nm sep xs =
     (let coded = map (\<lambda>x. x\<lparr>error_codes := get_serializer_field_error_codes nm (input_info x) (input_name x)\<rparr>) xs;
          kept = filter (\<lambda>x. error_codes x \<noteq> {}) coded
      in add_unique_for sep (add_unique_together sep kept))"

section \<open>Forms of filters\<close>

datatype form_field = Combined form_info "form_field list" | Plain form_info
and form_info = FormInfo (disabled: bool) (form_required: bool) (file_max_length: "bool option") (file_allows_empty: "bool option")
    (generic_address: bool) (form_validators: "field_validator list") (form_messages: "string list")

text \<open>\<^verbatim>\<open>get_form_fields\<close>: a combined field is listed before its parts.\<close>

fun get_form_fields :: "form_field \<Rightarrow> form_info list" where
  "get_form_fields (Combined f fs) = f # concat (map get_form_fields fs)"
| "get_form_fields (Plain f) = [f]"

definition get_form_field_error_codes :: "form_info \<Rightarrow> string set" where
  "get_form_field_error_codes f =
     (if disabled f then {}
      else
        (codes_if (form_required f) [''required''] \<union> codes_if (file_max_length f = Some True) [''max_length''] \<union>
         codes_if (file_allows_empty f = Some False) [''empty''] \<union> codes_if (generic_address f) [''invalid''] \<union>
         get_error_codes_from_validators (form_validators f) \<union>
         (set (form_messages f) - {''required'', ''max_length'', ''empty''})) - {''missing'', ''incomplete''})"

definition get_form_fields_with_error_codes :: "(string \<times> form_field) list \<Rightarrow> (string \<times> string set) list" where
  "get_form_fields_with_error_codes fs =
     filter (\<lambda>(n, codes). codes \<noteq> {})
       (map (\<lambda>(n, f). (n, \<Union> (set (map get_form_field_error_codes (get_form_fields f))))) fs)"

section \<open>Components\<close>

text \<open>Fields of the same name are combined, in the order of their first occurrence.\<close>

fun combine_codes :: "(string \<times> string set) list \<Rightarrow> (string, string set) dict \<Rightarrow> (string, string set) dict" where
  "combine_codes [] acc = acc"
| "combine_codes ((n, codes) # xs) acc =
     combine_codes xs (AList.update n ((case map_of acc n of None \<Rightarrow> {} | Some old \<Rightarrow> old) \<union> codes) acc)"

text \<open>\<open>camelize\<close> is the function of the library \<^verbatim>\<open>inflection\<close>.\<close>

definition error_component_name :: "(string \<Rightarrow> string) \<Rightarrow> package_names \<Rightarrow> string \<Rightarrow> string \<Rightarrow> string" where
  "error_component_name camelize nm operation attr =
     camelize operation @ camelize (replace_str (separator nm) ''_'' attr) @ component_suffix nm"

record error_component =
  component_name :: string
  attr_choices :: "string list"
  code_choices :: "string set"

definition get_validation_error_serializer ::
  "(string \<Rightarrow> string) \<Rightarrow> package_names \<Rightarrow> string \<Rightarrow> (string \<times> string set) list \<Rightarrow> string \<times> string \<times> error_component list" where
  "get_validation_error_serializer camelize nm operation xs =
     (camelize operation @ ''ValidationError'', camelize operation @ ''Error'',
      map (\<lambda>(n, codes). \<lparr>component_name = error_component_name camelize nm operation n, attr_choices = [n], code_choices = codes\<rparr>)
        (combine_codes xs []))"

section \<open>Which error responses a view has\<close>

datatype permission = AllowAny | IsAuthenticated | OtherPermission
datatype paginator = PageNumberPagination | CursorPagination | OtherPagination
datatype versioning = UrlLikeVersioning | AcceptHeaderVersioning | OtherVersioning

record api_view =
  standard_handler :: bool
  view_method :: string
  parses_strictly :: bool
  any_media_type :: bool
  request_is_field :: bool
  filter_parameters :: bool
  auth_methods :: "string list"
  permissions :: "permission list"
  has_authenticators :: bool
  view_paginator :: "paginator option"
  view_versioning :: "versioning option"
  path_parameters :: bool
  default_negotiation :: bool
  has_throttles :: bool

definition should_add_validation_error :: "api_view \<Rightarrow> bool" where
  "should_add_validation_error v \<longleftrightarrow>
     (view_method v \<in> {''PUT'', ''PATCH'', ''POST''} \<and> request_is_field v) \<or> filter_parameters v"

definition should_add_401 :: "api_view \<Rightarrow> bool" where
  "should_add_401 v \<longleftrightarrow> list_ex (\<lambda>m. m \<noteq> []) (auth_methods v)"

definition should_add_403 :: "api_view \<Rightarrow> bool" where
  "should_add_403 v \<longleftrightarrow>
     permissions v \<noteq> [] \<and> permissions v \<noteq> [AllowAny] \<and> \<not> (permissions v = [IsAuthenticated] \<and> has_authenticators v)"

definition should_add_404 :: "api_view \<Rightarrow> bool" where
  "should_add_404 v \<longleftrightarrow>
     view_paginator v \<in> {Some PageNumberPagination, Some CursorPagination} \<or> view_versioning v = Some UrlLikeVersioning \<or>
     path_parameters v"

definition should_add_406 :: "api_view \<Rightarrow> bool" where
  "should_add_406 v \<longleftrightarrow> default_negotiation v \<or> view_versioning v = Some AcceptHeaderVersioning"

definition should_add_415 :: "api_view \<Rightarrow> bool" where
  "should_add_415 v \<longleftrightarrow> default_negotiation v \<and> \<not> any_media_type v"

definition should_add_error_response :: "api_view \<Rightarrow> string list \<Rightarrow> string \<Rightarrow> bool" where
  "should_add_error_response v documented code =
     (if \<not> standard_handler v \<or> code \<in> set documented then False
      else if code = ''400'' then parses_strictly v \<or> should_add_validation_error v
      else if code = ''401'' then should_add_401 v
      else if code = ''403'' then should_add_403 v
      else if code = ''404'' then should_add_404 v
      else if code = ''405'' then True
      else if code = ''406'' then should_add_406 v
      else if code = ''415'' then should_add_415 v
      else if code = ''429'' then has_throttles v
      else if code = ''500'' then True
      else True)"

definition error_serializers :: "(string, string) dict" where
  "error_serializers =
     [(''401'', ''ErrorResponse401Serializer''), (''403'', ''ErrorResponse403Serializer''), (''404'', ''ErrorResponse404Serializer''),
      (''405'', ''ErrorResponse405Serializer''), (''406'', ''ErrorResponse406Serializer''), (''415'', ''ErrorResponse415Serializer''),
      (''429'', ''ErrorResponse429Serializer''), (''500'', ''ErrorResponse500Serializer'')]"

text \<open>\<open>schemas\<close> are the serializers the settings give for a status, \<open>bad_request\<close> that of the status 400.\<close>

definition error_response_serializer :: "(string, string) dict \<Rightarrow> string \<Rightarrow> string \<Rightarrow> string option" where
  "error_response_serializer schemas bad_request code =
     (case map_of schemas code of
        Some x \<Rightarrow> Some x
      | None \<Rightarrow> if code = ''400'' then Some bad_request else map_of error_serializers code)"

text \<open>\<^verbatim>\<open>_get_response_bodies\<close>: the documented responses win over the added ones.\<close>

definition get_response_bodies ::
  "api_view \<Rightarrow> (string, string) dict \<Rightarrow> string \<Rightarrow> string list \<Rightarrow> (string \<Rightarrow> string \<Rightarrow> 'b) \<Rightarrow> (string, 'b) dict \<Rightarrow> (string, 'b) dict" where
  "get_response_bodies v schemas bad_request allowed body responses =
     (let added = concat (map (\<lambda>code.
            if should_add_error_response v (map fst responses) code then
              (case error_response_serializer schemas bad_request code of None \<Rightarrow> [] | Some x \<Rightarrow> [(code, body x code)])
            else []) allowed)
      in foldl (\<lambda>d (k, b). AList.update k b d) (dict_of added) responses)"

section \<open>Settings\<close>

text \<open>
  \<^verbatim>\<open>PackageSettings\<close> reads the user's settings once and each attribute once, until it is told
  to reload.  \<open>import\<close> resolves the attributes that name classes.
\<close>

record lazy_settings =
  seen_settings :: "(string, json) dict option"
  cached_attrs :: "(string, json) dict"

definition user_settings :: "(string, json) dict \<Rightarrow> lazy_settings \<Rightarrow> (string, json) dict \<times> lazy_settings" where
  "user_settings actual s =
     (case seen_settings s of Some u \<Rightarrow> (u, s) | None \<Rightarrow> (actual, s\<lparr>seen_settings := Some actual\<rparr>))"

definition get_setting ::
  "(string, json) dict \<Rightarrow> (string \<Rightarrow> json \<Rightarrow> exc + json) \<Rightarrow> (string, json) dict \<Rightarrow> string \<Rightarrow> (lazy_settings, json) comp" where
  "get_setting defaults import actual attr s =
     (case map_of (cached_attrs s) attr of
        Some v \<Rightarrow> (Inr v, s)
      | None \<Rightarrow>
          (case map_of defaults attr of
             None \<Rightarrow> (Inl AttributeError, s)
           | Some dflt \<Rightarrow>
               (let (u, s1) = user_settings actual s;
                    v = (case map_of u attr of None \<Rightarrow> dflt | Some x \<Rightarrow> x)
                in case import attr v of
                     Inl e \<Rightarrow> (Inl e, s1)
                   | Inr w \<Rightarrow> (Inr w, s1\<lparr>cached_attrs := AList.update attr w (cached_attrs s1)\<rparr>))))"

definition reload_settings :: "lazy_settings \<Rightarrow> lazy_settings" where
  "reload_settings s = s\<lparr>cached_attrs := [], seen_settings := None\<rparr>"

text \<open>The receiver of Django's signal that a setting was changed.\<close>

definition reload_package_settings :: "string \<Rightarrow> lazy_settings \<Rightarrow> lazy_settings" where
  "reload_package_settings setting s = (if setting = ''FINMARS_STANDARDIZED_ERRORS'' then reload_settings s else s)"

section \<open>Names are paths\<close>

text \<open>The reference: the path of every field from the root, as a list of parts.\<close>

definition part :: "string option \<Rightarrow> string list" where
  "part n = (case n of None \<Rightarrow> [] | Some x \<Rightarrow> if x = [] then [] else [x])"

fun input_paths :: "package_names \<Rightarrow> sfield \<Rightarrow> string list \<Rightarrow> (string list \<times> field_info) list" where
  "input_paths nm (ListSerializer f child) p =
     (p @ part (field_name f) @ [non_field_errors nm], f) # input_paths nm child (p @ part (field_name f) @ [list_index nm])"
| "input_paths nm (Polymorphic fs) p = concat (map (\<lambda>f. input_paths nm f p) fs)"
| "input_paths nm (Serializer f fs) p =
     (p @ part (field_name f) @ [non_field_errors nm], f) # concat (map (\<lambda>g. input_paths nm g (p @ part (field_name f))) fs)"
| "input_paths nm (Composite is_list f child) p =
     (p @ part (field_name f), f)
       # input_paths nm child (p @ part (field_name f) @ [if is_list then list_index nm else dict_key nm])"
| "input_paths nm (Leaf f) p = [(p @ part (field_name f), f)]"

definition names_path :: "string \<Rightarrow> string option \<Rightarrow> string list \<Rightarrow> bool" where
  "names_path sep pre p \<longleftrightarrow>
     (if p = [] then pre = None \<or> pre = Some [] else pre = Some (join sep p) \<and> (\<forall>w \<in> set p. w \<noteq> []))"

lemma names_path_prefix: "names_path sep pre p \<Longrightarrow> names_path sep (get_prefix sep pre n) (p @ part n)"
  by (auto simp: names_path_def get_prefix_def part_def join_snoc dest: join_nonempty split: option.splits if_splits)

lemma names_path_snoc:
  "names_path sep pre p \<Longrightarrow> w \<noteq> [] \<Longrightarrow> names_path sep (get_prefix sep pre (Some w)) (p @ [w])"
  using names_path_prefix [of sep pre p "Some w"] by (simp add: part_def)

lemma names_path_name: "names_path sep pre p \<Longrightarrow> (case pre of None \<Rightarrow> [] | Some n \<Rightarrow> n) = join sep p"
  by (auto simp: names_path_def split: if_splits)

definition names_ok :: "package_names \<Rightarrow> bool" where
  "names_ok nm \<longleftrightarrow> list_index nm \<noteq> [] \<and> dict_key nm \<noteq> [] \<and> non_field_errors nm \<noteq> []"

lemma flat_fields_paths:
  assumes "names_ok nm"
  shows "names_path (separator nm) pre p \<Longrightarrow>
    map (\<lambda>x. (the_name x, input_info x)) (get_flat_serializer_fields nm f pre) =
    map (\<lambda>(q, i). (join (separator nm) q, i)) (input_paths nm f p)"
proof (induction f arbitrary: pre p)
  case (ListSerializer f child)
  let ?q = "get_prefix (separator nm) pre (field_name f)"
  have q: "names_path (separator nm) ?q (p @ part (field_name f))" using ListSerializer.prems by (rule names_path_prefix)
  note inner = names_path_snoc [OF q, of "list_index nm"] names_path_name [OF names_path_snoc [OF q, of "non_field_errors nm"]]
  show ?case using assms inner ListSerializer.IH [of _ "p @ part (field_name f) @ [list_index nm]"]
    by (simp add: Let_def new_input_def the_name_def names_ok_def)
next
  case (Serializer f fs)
  let ?q = "get_prefix (separator nm) pre (field_name f)"
  have q: "names_path (separator nm) ?q (p @ part (field_name f))" using Serializer.prems by (rule names_path_prefix)
  have "map (\<lambda>x. (the_name x, input_info x)) (concat (map (\<lambda>g. get_flat_serializer_fields nm g ?q) fs)) =
      map (\<lambda>(q, i). (join (separator nm) q, i)) (concat (map (\<lambda>g. input_paths nm g (p @ part (field_name f))) fs))"
    unfolding map_concat map_map comp_def using Serializer.IH [OF _ q] by (intro arg_cong [where f = concat] map_cong) auto
  then show ?case using assms names_path_name [OF names_path_snoc [OF q, of "non_field_errors nm"]]
    by (simp add: Let_def new_input_def the_name_def names_ok_def)
next
  case (Polymorphic fs)
  then show ?case unfolding get_flat_serializer_fields.simps input_paths.simps map_concat map_map comp_def
    by (intro arg_cong [where f = concat] map_cong) auto
next
  case (Composite is_list f child)
  let ?q = "get_prefix (separator nm) pre (field_name f)"
  let ?key = "if is_list then list_index nm else dict_key nm"
  have q: "names_path (separator nm) ?q (p @ part (field_name f))" using Composite.prems by (rule names_path_prefix)
  show ?case using assms names_path_snoc [OF q, of ?key] names_path_name [OF q] Composite.IH [of _ "p @ part (field_name f) @ [?key]"]
    by (simp add: Let_def new_input_def the_name_def names_ok_def)
next
  case (Leaf f)
  then show ?case using names_path_name [OF names_path_prefix [OF Leaf.prems, of "field_name f"]]
    by (simp add: new_input_def the_name_def)
qed

text \<open>
  The flat list of the fields of a request has one entry for every field and one for the
  errors of every serializer, in order, each named by the path to it: the names of the fields
  joined by the separator, with the place holders for the elements of lists and dictionaries.
\<close>

lemma flat_fields_are_paths:
  assumes "names_ok nm"
  shows "map (\<lambda>x. (the_name x, input_info x)) (get_flat_serializer_fields nm f None) =
    map (\<lambda>(q, i). (join (separator nm) q, i)) (input_paths nm f [])"
  using assms by (rule flat_fields_paths) (simp add: names_path_def)

definition sample_info :: "string option \<Rightarrow> field_info" where
  "sample_info n = \<lparr>field_name = n, field_class = OtherClass, read_only = False, required = True, allow_null = False,
     allow_blank = Some False, allow_empty = None, allow_empty_file = None, has_max_digits = False, has_decimal_places = False,
     has_max_whole_digits = False, field_validators = [], error_messages = [''invalid'', ''required'', ''null''], basic_serializer = True\<rparr>"

definition sample_serializer :: sfield where
  "sample_serializer = Serializer (sample_info None)
     [Leaf (sample_info (Some ''name'')), Composite True (sample_info (Some ''ids'')) (Leaf (sample_info (Some [])))]"

lemma flat_fields_sample:
  "map the_name (get_flat_serializer_fields default_names sample_serializer None) =
     [''non_field_errors'', ''name'', ''ids'', ''ids.INDEX'']"
proof -
  have "names_ok default_names" by (simp add: names_ok_def default_names_def)
  from arg_cong [OF flat_fields_are_paths [OF this, of sample_serializer], of "map fst"] show ?thesis
    by (simp add: comp_def sample_serializer_def sample_info_def default_names_def part_def)
qed

section \<open>What is documented\<close>

lemma map_of_added:
  "map_of (rev (concat (map (\<lambda>c. if P c then (case g c of None \<Rightarrow> [] | Some x \<Rightarrow> [(c, h x c)]) else []) cs))) code =
     (if code \<in> set cs \<and> P code then map_option (\<lambda>x. h x code) (g code) else None)"
proof (induction cs)
  case (Cons c cs)
  then show ?case by (cases "P c"; cases "code = c"; cases "g c"; cases "g code") (simp_all add: map_add_def)
qed simp

text \<open>
  Every response the view documents itself is kept, and an error response is added exactly
  for the allowed statuses that the view may answer with and that have a serializer.
\<close>

lemma documented_responses:
  "map_of (get_response_bodies v schemas bad_request allowed body responses) code =
     (case map_of (rev responses) code of
        Some b \<Rightarrow> Some b
      | None \<Rightarrow> if code \<in> set allowed \<and> should_add_error_response v (map fst responses) code
                then map_option (\<lambda>x. body x code) (error_response_serializer schemas bad_request code) else None)"
  by (simp add: get_response_bodies_def Let_def map_of_foldl_update map_of_dict_of map_of_added split: option.splits)

lemma read_only_has_no_codes: "read_only f \<Longrightarrow> get_serializer_field_error_codes nm f attr = {}"
  by (simp add: get_serializer_field_error_codes_def)

text \<open>A setting that has been read keeps its value until a reload, whatever the user's settings become.\<close>

lemma setting_is_cached:
  assumes "get_setting defaults imp actual attr s = (Inr v, t)"
  shows "get_setting defaults imp actual' attr t = (Inr v, t)"
  using assms by (auto simp: get_setting_def user_settings_def update_conv' Let_def split: option.splits sum.splits)

lemma setting_after_reload:
  "fst (get_setting defaults imp actual attr (reload_settings s)) =
     (case map_of defaults attr of None \<Rightarrow> Inl AttributeError
      | Some dflt \<Rightarrow> imp attr (case map_of actual attr of None \<Rightarrow> dflt | Some x \<Rightarrow> x))"
  by (auto simp: get_setting_def user_settings_def reload_settings_def Let_def split: option.splits sum.splits)

section \<open>The schema of a tenant\<close>

text \<open>
  \<^verbatim>\<open>workflow_app/openapi.py:TenantSchemaGenerator.get_schema\<close>: each path of the generated schema
  is entered under the name with the codes of the request and the old entry is deleted.
\<close>

definition tenant_path :: "string \<Rightarrow> string \<Rightarrow> string \<Rightarrow> string" where
  "tenant_path realm space p = replace_str ''{space_code}'' space (replace_str ''{realm_code}'' realm p)"

fun rename_paths :: "(string \<Rightarrow> string) \<Rightarrow> string list \<Rightarrow> (string, 'o) dict \<Rightarrow> exc + (string, 'o) dict" where
  "rename_paths f [] d = Inr d"
| "rename_paths f (p # ps) d =
     (case map_of d p of
        None \<Rightarrow> Inl (KeyError p)
      | Some op \<Rightarrow> rename_paths f ps (AList.delete p (AList.update (f p) op d)))"

definition get_tenant_schema :: "string option \<Rightarrow> string \<Rightarrow> (string, 'o) dict \<Rightarrow> exc + (string, 'o) dict" where
  "get_tenant_schema realm space d =
     (case realm of
        None \<Rightarrow> if d = [] then Inr d else Inl TypeError
      | Some r \<Rightarrow> rename_paths (tenant_path r space) (map fst d) d)"

lemma delete_absent: "k \<notin> fst ` set d \<Longrightarrow> AList.delete k d = d"
  by (force simp: AList.delete_eq filter_id_conv)

lemma rename_paths_run:
  assumes "distinct (map fst xs)" and "inj_on f (fst ` set xs)"
    and "\<And>p. p \<in> fst ` set xs \<Longrightarrow> f p \<notin> fst ` set xs \<and> f p \<notin> fst ` set ys \<and> p \<notin> fst ` set ys"
  shows "rename_paths f (map fst xs) (xs @ ys) = Inr (ys @ map (\<lambda>(p, op). (f p, op)) xs)"
  using assms
proof (induction xs arbitrary: ys)
  case (Cons x xs)
  obtain p op where x: "x = (p, op)" by force
  have new: "f p \<notin> fst ` set (x # xs @ ys)" using Cons.prems(3) [of p] x by auto
  have "AList.update (f p) op (x # xs @ ys) = x # xs @ ys @ [(f p, op)]" using update_new [OF new] by simp
  moreover have "p \<notin> fst ` set (xs @ ys @ [(f p, op)])" using Cons.prems(1) Cons.prems(3) [of p] x by auto
  ultimately have "AList.delete p (AList.update (f p) op (x # xs @ ys)) = xs @ ys @ [(f p, op)]"
    using x delete_absent [of p "xs @ ys @ [(f p, op)]"] by (simp add: AList.delete_eq)
  moreover have "rename_paths f (map fst xs) (xs @ (ys @ [(f p, op)])) = Inr ((ys @ [(f p, op)]) @ map (\<lambda>(p, op). (f p, op)) xs)"
  proof (rule Cons.IH)
    show "f q \<notin> fst ` set xs \<and> f q \<notin> fst ` set (ys @ [(f p, op)]) \<and> q \<notin> fst ` set (ys @ [(f p, op)])"
      if q: "q \<in> fst ` set xs" for q
    proof -
      have "q \<noteq> p" using q Cons.prems(1) x by auto
      then have "f q \<noteq> f p" using inj_onD [OF Cons.prems(2), of q p] q x by auto
      moreover have "q \<noteq> f p" using q new by force
      ultimately show ?thesis using Cons.prems(3) [of q] q by auto
    qed
  qed (use Cons.prems x in auto)
  ultimately show ?case using x by simp
qed simp

text \<open>Every operation is documented once under the tenant's path, in the order of the generated schema.\<close>

lemma tenant_schema_renames:
  assumes "dict_ok d" and "inj_on (tenant_path r space) (fst ` set d)"
    and "\<And>p. p \<in> fst ` set d \<Longrightarrow> tenant_path r space p \<notin> fst ` set d"
  shows "get_tenant_schema (Some r) space d = Inr (map (\<lambda>(p, op). (tenant_path r space p, op)) d)"
  using rename_paths_run [of d "tenant_path r space" "[]"] assms
  by (simp add: get_tenant_schema_def dict_ok_def keys_def)

text \<open>A path without a code is entered under its own name and deleted with it.\<close>

lemma plain_path_is_lost:
  assumes "tenant_path r space p = p"
  shows "get_tenant_schema (Some r) space [(p, op)] = Inr []"
  using assms by (simp add: get_tenant_schema_def)

end
