(* ===== verification/ErrorSchemas.thy ===== *)
theory ErrorSchemas
  imports Errors OpenApi
begin

text \<open>
  The documented form of error responses: the serializer classes of
  \<^verbatim>\<open>finmars_standardized_errors/openapi_serializers.py\<close>, the schema of the status 400 that \<^verbatim>\<open>openapi.py\<close>
  puts together for a view and the examples of \<^verbatim>\<open>openapi_utils.py\<close>; compared with what the
  handler of \<^verbatim>\<open>Errors\<close> answers.
\<close>

section \<open>Serializer classes\<close>

text \<open>
  A field is a text that may be null, a choice, a list of objects of one class, or a list of
  objects whose class is given by one of their fields (\<^verbatim>\<open>PolymorphicProxySerializer\<close>).
\<close>

datatype response_field =
    CharField bool
  | ChoiceField "string list"
  | ManyField response_serializer
  | ManyByField string "(string \<times> response_serializer) list"
and response_serializer = ResponseSerializer (ref_name: string) (response_fields: "(string \<times> response_field) list")

definition ValidationErrorEnum :: "string list" where
  "ValidationErrorEnum = [''validation_error'']"

definition ClientErrorEnum :: "string list" where
  "ClientErrorEnum = [''client_error'']"

definition ServerErrorEnum :: "string list" where
  "ServerErrorEnum = [''server_error'']"

definition ParseErrorCodeEnum :: "string list" where
  "ParseErrorCodeEnum = [''parse_error'']"

definition ErrorCode401Enum :: "string list" where
  "ErrorCode401Enum = [''authentication_failed'', ''not_authenticated'']"

definition ErrorCode403Enum :: "string list" where
  "ErrorCode403Enum = [''permission_denied'']"

definition ErrorCode404Enum :: "string list" where
  "ErrorCode404Enum = [''not_found'']"

definition ErrorCode405Enum :: "string list" where
  "ErrorCode405Enum = [''method_not_allowed'']"

definition ErrorCode406Enum :: "string list" where
  "ErrorCode406Enum = [''not_acceptable'']"

definition ErrorCode415Enum :: "string list" where
  "ErrorCode415Enum = [''unsupported_media_type'']"

definition ErrorCode429Enum :: "string list" where
  "ErrorCode429Enum = [''throttled'']"

definition ErrorCode500Enum :: "string list" where
  "ErrorCode500Enum = [''error'']"

text \<open>The two forms all classes of the file have: an error with the choice of its code, and a response of errors.\<close>

definition coded_error :: "string \<Rightarrow> string list \<Rightarrow> response_serializer" where
  "coded_error name codes =
     ResponseSerializer name [(''code'', ChoiceField codes), (''detail'', CharField False), (''attr'', CharField True)]"

definition error_list :: "string \<Rightarrow> string list \<Rightarrow> response_serializer \<Rightarrow> response_serializer" where
  "error_list name types item = ResponseSerializer name [(''type'', ChoiceField types), (''errors'', ManyField item)]"

definition ValidationErrorSerializer :: response_serializer where
  "ValidationErrorSerializer =
     ResponseSerializer ''ValidationErrorSerializer''
       [(''code'', CharField False), (''detail'', CharField False), (''attr'', CharField False)]"

definition ValidationErrorResponseSerializer :: response_serializer where
  "ValidationErrorResponseSerializer =
     error_list ''ValidationErrorResponseSerializer'' ValidationErrorEnum ValidationErrorSerializer"

definition ParseErrorSerializer :: response_serializer where
  "ParseErrorSerializer = coded_error ''ParseErrorSerializer'' ParseErrorCodeEnum"

definition ParseErrorResponseSerializer :: response_serializer where
  "ParseErrorResponseSerializer = error_list ''ParseErrorResponseSerializer'' ClientErrorEnum ParseErrorSerializer"

definition Error401Serializer :: response_serializer where
  "Error401Serializer = coded_error ''Error401Serializer'' ErrorCode401Enum"

definition ErrorResponse401Serializer :: response_serializer where
  "ErrorResponse401Serializer = error_list ''ErrorResponse401Serializer'' ClientErrorEnum Error401Serializer"

definition Error403Serializer :: response_serializer where
  "Error403Serializer = coded_error ''Error403Serializer'' ErrorCode403Enum"

definition ErrorResponse403Serializer :: response_serializer where
  "ErrorResponse403Serializer = error_list ''ErrorResponse403Serializer'' ClientErrorEnum Error403Serializer"

definition Error404Serializer :: response_serializer where
  "Error404Serializer = coded_error ''Error404Serializer'' ErrorCode404Enum"

definition ErrorResponse404Serializer :: response_serializer where
  "ErrorResponse404Serializer = error_list ''ErrorResponse404Serializer'' ClientErrorEnum Error404Serializer"

definition Error405Serializer :: response_serializer where
  "Error405Serializer = coded_error ''Error405Serializer'' ErrorCode405Enum"

definition ErrorResponse405Serializer :: response_serializer where
  "ErrorResponse405Serializer = error_list ''ErrorResponse405Serializer'' ClientErrorEnum Error405Serializer"

definition Error406Serializer :: response_serializer where
  "Error406Serializer = coded_error ''Error406Serializer'' ErrorCode406Enum"

definition ErrorResponse406Serializer :: response_serializer where
  "ErrorResponse406Serializer = error_list ''ErrorResponse406Serializer'' ClientErrorEnum Error406Serializer"

definition Error415Serializer :: response_serializer where
  "Error415Serializer = coded_error ''Error415Serializer'' ErrorCode415Enum"

definition ErrorResponse415Serializer :: response_serializer where
  "ErrorResponse415Serializer = error_list ''ErrorResponse415Serializer'' ClientErrorEnum Error415Serializer"

definition Error429Serializer :: response_serializer where
  "Error429Serializer = coded_error ''Error429Serializer'' ErrorCode429Enum"

definition ErrorResponse429Serializer :: response_serializer where
  "ErrorResponse429Serializer = error_list ''ErrorResponse429Serializer'' ClientErrorEnum Error429Serializer"

definition Error500Serializer :: response_serializer where
  "Error500Serializer = coded_error ''Error500Serializer'' ErrorCode500Enum"

definition ErrorResponse500Serializer :: response_serializer where
  "ErrorResponse500Serializer = error_list ''ErrorResponse500Serializer'' ServerErrorEnum Error500Serializer"

text \<open>The table of \<^verbatim>\<open>_get_error_response_serializer\<close>, with the classes themselves.\<close>

definition error_classes :: "response_serializer list" where
  "error_classes =
     [ErrorResponse401Serializer, ErrorResponse403Serializer, ErrorResponse404Serializer, ErrorResponse405Serializer,
      ErrorResponse406Serializer, ErrorResponse415Serializer, ErrorResponse429Serializer, ErrorResponse500Serializer]"

definition class_named :: "string \<Rightarrow> response_serializer option" where
  "class_named name = find (\<lambda>c. ref_name c = name) error_classes"

definition error_class :: "nat \<Rightarrow> response_serializer option" where
  "error_class status =
     (case error_response_serializer [] [] (show_nat status) of None \<Rightarrow> None | Some name \<Rightarrow> class_named name)"

section \<open>Values of a class\<close>

text \<open>
  What a schema of OpenAPI asks of an object: every field is there and its value fits; other
  keys are allowed.
\<close>

definition json_fields :: "json \<Rightarrow> (string, json) dict" where
  "json_fields v = (case v of JObj ps \<Rightarrow> ps | _ \<Rightarrow> [])"

definition picks :: "json \<Rightarrow> string \<Rightarrow> string option" where
  "picks v k = (case map_of (json_fields v) k of Some (JStr s) \<Rightarrow> Some s | _ \<Rightarrow> None)"

fun fits :: "response_field \<Rightarrow> json \<Rightarrow> bool"
and conforms :: "response_serializer \<Rightarrow> json \<Rightarrow> bool" where
  "fits (CharField nullable) v = (case v of JStr _ \<Rightarrow> True | JNull \<Rightarrow> nullable | _ \<Rightarrow> False)"
| "fits (ChoiceField cs) v = (case v of JStr s \<Rightarrow> s \<in> set cs | _ \<Rightarrow> False)"
| "fits (ManyField ser) v = (case v of JList vs \<Rightarrow> list_all (conforms ser) vs | _ \<Rightarrow> False)"
| "fits (ManyByField k sers) v =
     (case v of
        JList vs \<Rightarrow> list_all (\<lambda>x. list_ex (\<lambda>p. picks x k = Some (fst p) \<and> conforms (snd p) x) sers) vs
      | _ \<Rightarrow> False)"
| "conforms (ResponseSerializer name fs) v =
     list_all (\<lambda>p. case map_of (json_fields v) (fst p) of None \<Rightarrow> False | Some x \<Rightarrow> fits (snd p) x) fs"

section \<open>The status 400\<close>

text \<open>
  A filter backend as \<^verbatim>\<open>get_django_filter_backends\<close> and \<^verbatim>\<open>get_filter_forms\<close> inspect it; the form is that
  of its filter set, which is absent when the view has none.
\<close>

record filter_backend =
  is_django_backend :: bool
  raise_exception :: bool
  filterset_form :: "(string \<times> form_field) list option"

definition get_django_filter_backends :: "bool \<Rightarrow> filter_backend list \<Rightarrow> filter_backend list" where
  "get_django_filter_backends installed backends =
     (if \<not> installed then [] else [b \<leftarrow> backends. is_django_backend b \<and> raise_exception b])"

fun get_filter_forms :: "bool \<Rightarrow> filter_backend list \<Rightarrow> (string \<times> form_field) list list" where
  "get_filter_forms has_model [] = []"
| "get_filter_forms has_model (b # bs) =
     (if \<not> has_model then get_filter_forms has_model bs
      else (case filterset_form b of
              None \<Rightarrow> get_filter_forms has_model bs
            | Some form \<Rightarrow> form # get_filter_forms has_model bs))"

text \<open>What the schema of a view reads of it besides its decisions.\<close>

record view_inputs =
  input_names :: package_names
  name_separator :: char
  request_serializer :: "sfield option"
  filters_installed :: bool
  view_has_model :: bool
  view_backends :: "filter_backend list"
  operation_id :: string

definition determine_fields_with_error_codes :: "string \<Rightarrow> view_inputs \<Rightarrow> (string \<times> string set) list" where
  "determine_fields_with_error_codes method i =
     (if method \<in> {''PUT'', ''PATCH'', ''POST''} then
        map (\<lambda>x. (the_name x, error_codes x))
          (get_serializer_fields_with_error_codes (input_names i) (name_separator i)
             (case request_serializer i of None \<Rightarrow> [] | Some f \<Rightarrow> get_flat_serializer_fields (input_names i) f None))
      else concat (map get_form_fields_with_error_codes
             (get_filter_forms (view_has_model i) (get_django_filter_backends (filters_installed i) (view_backends i)))))"

text \<open>\<^verbatim>\<open>get_error_serializer\<close>: the class of the errors of one field; the choices of the code are sorted.\<close>

definition error_serializer_class :: "error_component \<Rightarrow> response_serializer" where
  "error_serializer_class c =
     ResponseSerializer (component_name c)
       [(''attr'', ChoiceField (attr_choices c)), (''code'', ChoiceField (sorted_list_of_set (code_choices c))), (''detail'', CharField False)]"

text \<open>The class that \<^verbatim>\<open>get_validation_error_serializer\<close> returns: the errors are told apart by their field.\<close>

definition validation_error_class :: "(string \<Rightarrow> string) \<Rightarrow> package_names \<Rightarrow> string \<Rightarrow> (string \<times> string set) list \<Rightarrow> response_serializer" where
  "validation_error_class camelize nm operation xs =
     (let (name, errors_name, components) = get_validation_error_serializer camelize nm operation xs
      in ResponseSerializer name
           [(''type'', ChoiceField ValidationErrorEnum),
            (''errors'', ManyByField ''attr'' (map (\<lambda>c. (concat (attr_choices c), error_serializer_class c)) components))])"

text \<open>\<^verbatim>\<open>_get_http400_serializer\<close>: the name of the component and the classes by the type of the error.\<close>

definition get_http400_serializer ::
  "(string \<Rightarrow> string) \<Rightarrow> api_view \<Rightarrow> view_inputs \<Rightarrow> string \<times> (string, response_serializer) dict" where
  "get_http400_serializer camelize v i =
     (camelize (operation_id i) @ ''ErrorResponse400'',
      (if should_add_validation_error v then
         [(''validation_error'', validation_error_class camelize (input_names i) (operation_id i)
            (determine_fields_with_error_codes (view_method v) i))]
       else [])
      @ (if parses_strictly v then [(''client_error'', ParseErrorResponseSerializer)] else []))"

text \<open>A value of a schema that is chosen by the field \<^verbatim>\<open>type\<close>.\<close>

definition conforms_by_type :: "(string, response_serializer) dict \<Rightarrow> json \<Rightarrow> bool" where
  "conforms_by_type sers v =
     (case picks v ''type'' of
        None \<Rightarrow> False
      | Some t \<Rightarrow> (case map_of sers t of None \<Rightarrow> False | Some ser \<Rightarrow> conforms ser v))"

section \<open>Examples\<close>

text \<open>
  What \<^verbatim>\<open>get_example_from_exception\<close> reads of an exception of the framework: the name of its
  class, its status, its codes and its detail.  \<open>raised\<close> makes such an exception.
\<close>

record framework_exception =
  exception_class :: string
  exception_status :: nat
  exception_codes :: json
  exception_detail :: json

record api_example =
  example_name :: string
  example_value :: json
  response_only :: bool
  status_codes :: "string list"

definition get_example_from_exception :: "framework_exception \<Rightarrow> api_example" where
  "get_example_from_exception e =
     (let ty = (if 400 \<le> exception_status e \<and> exception_status e \<le> 499 then ''client_error'' else ''server_error'')
      in \<lparr>example_name = exception_class e,
          example_value = JObj [(''type'', JStr ty),
            (''errors'', JList [JObj [(''code'', exception_codes e), (''detail'', exception_detail e), (''attr'', JNull)]])],
          response_only = True, status_codes = [show_nat (exception_status e)]\<rparr>)"

definition get_error_examples :: "(string \<Rightarrow> string option \<Rightarrow> framework_exception) \<Rightarrow> api_example list" where
  "get_error_examples raised =
     map get_example_from_exception
       [raised ''AuthenticationFailed'' None, raised ''NotAuthenticated'' None, raised ''PermissionDenied'' None,
        raised ''NotFound'' None, raised ''MethodNotAllowed'' (Some ''get''), raised ''NotAcceptable'' None,
        raised ''UnsupportedMediaType'' (Some ''application/json''), raised ''Throttled'' None, raised ''APIException'' None]"

section \<open>Documented statuses\<close>

definition class_codes :: "nat \<Rightarrow> string list" where
  "class_codes status =
     (if status = 401 then ErrorCode401Enum else if status = 403 then ErrorCode403Enum else if status = 404 then ErrorCode404Enum
      else if status = 405 then ErrorCode405Enum else if status = 406 then ErrorCode406Enum
      else if status = 415 then ErrorCode415Enum else if status = 429 then ErrorCode429Enum
      else if status = 500 then ErrorCode500Enum else [])"

definition documented_statuses :: "nat list" where
  "documented_statuses = [401, 403, 404, 405, 406, 415, 429, 500]"

lemma show_statuses:
  "show_nat 401 = ''401''" "show_nat 403 = ''403''" "show_nat 404 = ''404''" "show_nat 405 = ''405''"
  "show_nat 406 = ''406''" "show_nat 415 = ''415''" "show_nat 429 = ''429''" "show_nat 500 = ''500''"
  by code_simp+

lemmas class_defs =
  ErrorResponse401Serializer_def ErrorResponse403Serializer_def ErrorResponse404Serializer_def ErrorResponse405Serializer_def
  ErrorResponse406Serializer_def ErrorResponse415Serializer_def ErrorResponse429Serializer_def ErrorResponse500Serializer_def
  Error401Serializer_def Error403Serializer_def Error404Serializer_def Error405Serializer_def
  Error406Serializer_def Error415Serializer_def Error429Serializer_def Error500Serializer_def

lemma error_class_form:
  assumes "status \<in> set documented_statuses"
  shows "\<exists>name item. error_class status = Some (error_list name [if status = 500 then ''server_error'' else ''client_error'']
    (coded_error item (class_codes status)))"
proof -
  have "\<forall>s \<in> set documented_statuses. \<exists>name item. error_class s =
      Some (error_list name [if s = 500 then ''server_error'' else ''client_error''] (coded_error item (class_codes s)))"
    by (simp add: documented_statuses_def error_class_def show_statuses error_response_serializer_def error_serializers_def
        class_named_def error_classes_def class_defs error_list_def class_codes_def ClientErrorEnum_def ServerErrorEnum_def)
      blast
  with assms show ?thesis by blast
qed

lemma documented_statuses_described: "list_all (\<lambda>s. map_of http_code_to_message s \<noteq> None) documented_statuses"
  by code_simp

lemma conforms_coded [simp]:
  "conforms (coded_error name codes) (error_json e) \<longleftrightarrow> err_code e \<in> set codes"
  by (simp add: coded_error_def error_json_def json_fields_def opt_str_def split: option.splits)

lemma conforms_error_list [simp]:
  "conforms (error_list name types item) (details_json ty es) \<longleftrightarrow>
     error_type_str ty \<in> set types \<and> (\<forall>e \<in> set es. conforms item (error_json e))"
  by (simp add: error_list_def details_json_def json_fields_def list_all_iff)

lemma error_body_not_conforms: "\<not> conforms (error_list name types item) (JObj [(''error'', v)])"
  by (simp add: error_list_def json_fields_def)

text \<open>
  C27: outside the debug mode an error with a documented status is answered with details that
  conform to the documented class exactly when the codes of its errors are among the choices of
  that status, which they are for the errors of Django; but the documented class
  describes the details alone, and the body, which wraps them, never conforms to it.
\<close>

theorem error_details_conform:
  assumes "\<not> debug" and "a = convert_unhandled_exceptions (convert_known_exceptions e)"
    and "\<not> api_is_validation a" and "api_status a \<in> set documented_statuses"
  shows "\<exists>ser r rec d. error_class (api_status a) = Some ser \<and>
    handle_exception debug enabled sep c e rs = (Inr (Some r), rs @ [rec]) \<and>
    path (er_body r) [''error'', ''details''] = Inr d \<and>
    (conforms ser d \<longleftrightarrow> (\<forall>x \<in> set (flatten_errors sep (api_detail a) None None). err_code x \<in> set (class_codes (api_status a)))) \<and>
    \<not> conforms ser (er_body r)"
proof -
  obtain name item where ser: "error_class (api_status a) =
      Some (error_list name [if api_status a = 500 then ''server_error'' else ''client_error''] (coded_error item (class_codes (api_status a))))"
    using error_class_form [OF assms(4)] by blast
  have ty: "error_type_str (get_error_type a) = (if api_status a = 500 then ''server_error'' else ''client_error'')"
    using assms(3,4) by (auto simp: documented_statuses_def get_error_type_def)
  obtain message where message: "map_of http_code_to_message (api_status a) = Some message"
    using documented_statuses_described assms(4) by (fastforce simp: list_all_iff)
  let ?d = "details_json (get_error_type a) (flatten_errors sep (api_detail a) None None)"
  obtain r rec where run: "handle_exception debug enabled sep c e rs = (Inr (Some r), rs @ [rec])"
    and body: "\<exists>before. er_body r = JObj [(''error'', JObj (before @ [(''details'', ?d)]))] \<and> ''details'' \<notin> fst ` set before"
    using assms(1) message
    by (simp add: handle_exception_def should_not_handle_def assms(2) [symmetric] format_exception_def bind_def seq_def Let_def)
  from body obtain before where body: "er_body r = JObj [(''error'', JObj (before @ [(''details'', ?d)]))]"
    and new: "''details'' \<notin> fst ` set before" by blast
  from new have "map_of before ''details'' = None" by (simp add: map_of_eq_None_iff)
  then have "path (er_body r) [''error'', ''details''] = Inr ?d" by (simp add: body map_add_def)
  with run ser ty show ?thesis by (intro exI conjI) (assumption | simp add: body error_body_not_conforms)+
qed

theorem error_details_conform_witness:
  "\<exists>ser r rec d. error_class 404 = Some ser \<and>
    handle_exception False False ''.'' \<lparr>ctx_url = [], ctx_username = [], ctx_now = []\<rparr> Http404 [] = (Inr (Some r), [rec]) \<and>
    path (er_body r) [''error'', ''details''] = Inr d \<and> conforms ser d \<and> \<not> conforms ser (er_body r)"
proof -
  let ?a = "convert_unhandled_exceptions (convert_known_exceptions Http404)"
  have a: "?a = \<lparr>api_is_validation = False, api_status = 404, api_detail = Detail ''not_found'' ''Not found.'',
      api_auth_header = None, api_wait = None\<rparr>"
    by (simp add: convert_unhandled_exceptions_def convert_known_exceptions_def)
  show ?thesis
    using error_details_conform [of False ?a Http404 False "''.''" "\<lparr>ctx_url = [], ctx_username = [], ctx_now = []\<rparr>" "[]"]
    by (simp add: a documented_statuses_def class_codes_def ErrorCode404Enum_def)
qed

section \<open>Documented fields\<close>

lemma combine_codes_keys: "distinct (map fst acc) \<Longrightarrow> distinct (map fst (combine_codes xs acc))"
  by (induction xs acc rule: combine_codes.induct) (simp_all add: distinct_update)

lemma combine_codes_member:
  assumes "distinct (map fst acc)"
  shows "(\<exists>C. map_of (combine_codes xs acc) n = Some C \<and> c \<in> C) \<longleftrightarrow>
    (\<exists>C. map_of acc n = Some C \<and> c \<in> C) \<or> (\<exists>C. (n, C) \<in> set xs \<and> c \<in> C)"
  using assms
proof (induction xs acc rule: combine_codes.induct)
  case (2 m codes xs acc)
  let ?acc = "AList.update m ((case map_of acc m of None \<Rightarrow> {} | Some old \<Rightarrow> old) \<union> codes) acc"
  have "(\<exists>C. map_of ?acc n = Some C \<and> c \<in> C) \<longleftrightarrow> (\<exists>C. map_of acc n = Some C \<and> c \<in> C) \<or> (m = n \<and> c \<in> codes)"
    by (cases "m = n"; cases "map_of acc m") (simp_all add: update_conv')
  with 2 show ?case by (simp add: distinct_update) blast
qed simp

lemma finite_codes_if [simp]: "finite (codes_if b xs)"
  by (simp add: codes_if_def)

lemma finite_validator_codes [simp]: "finite (get_error_codes_from_validators vs)"
  unfolding get_error_codes_from_validators_def Let_def
  by (intro finite_UnI finite_set finite_codes_if) (simp split: list.split validator_kind.split)

lemma finite_field_codes [simp]: "finite (get_serializer_field_error_codes nm f attr)"
  by (auto simp: get_serializer_field_error_codes_def Let_def split: field_class.splits)

lemma finite_form_codes [simp]: "finite (get_form_field_error_codes f)"
  by (simp add: get_form_field_error_codes_def)

definition finite_codes :: "input_field list \<Rightarrow> bool" where
  "finite_codes xs \<longleftrightarrow> (\<forall>x \<in> set xs. finite (error_codes x))"

lemma finite_codes_add: "finite_codes xs \<Longrightarrow> finite_codes (add_error_code sep attr n code xs)"
proof -
  have "finite_codes xs \<Longrightarrow> finite_codes (add_to_first m code xs)" for m
    by (induction xs) (auto simp: finite_codes_def)
  then show "finite_codes xs \<Longrightarrow> ?thesis" by (simp add: add_error_code_def)
qed

lemma finite_codes_foldl:
  assumes "\<And>ys x. finite_codes ys \<Longrightarrow> finite_codes (f ys x)" and "finite_codes xs"
  shows "finite_codes (foldl f xs zs)"
  using assms(2) by (induction zs arbitrary: xs) (auto simp: assms(1))

lemma finite_codes_together: "finite_codes xs \<Longrightarrow> finite_codes (add_unique_together sep xs)"
  unfolding add_unique_together_def Let_def
  by (intro finite_codes_foldl finite_codes_add) (auto simp: finite_codes_def)

lemma finite_codes_for: "finite_codes xs \<Longrightarrow> finite_codes (add_unique_for sep xs)"
  unfolding add_unique_for_def Let_def
  by (intro finite_codes_foldl) (auto split: validator_kind.split intro: finite_codes_add)

lemma finite_codes_fields: "finite_codes (get_serializer_fields_with_error_codes nm sep xs)"
  unfolding get_serializer_fields_with_error_codes_def Let_def
  by (intro finite_codes_for finite_codes_together) (auto simp: finite_codes_def)

lemma finite_documented_codes:
  assumes "(n, C) \<in> set (determine_fields_with_error_codes method i)"
  shows "finite C"
  using assms finite_codes_fields [of "input_names i" "name_separator i"]
  by (auto simp: determine_fields_with_error_codes_def finite_codes_def get_form_fields_with_error_codes_def split: if_splits)

lemma finite_combined_codes:
  assumes "\<forall>(n, C) \<in> set xs. finite C" and "\<forall>(n, C) \<in> set acc. finite C" and "distinct (map fst acc)"
  shows "\<forall>(n, C) \<in> set (combine_codes xs acc). finite C"
  using assms
proof (induction xs acc rule: combine_codes.induct)
  case (2 m codes xs acc)
  let ?codes = "(case map_of acc m of None \<Rightarrow> {} | Some old \<Rightarrow> old) \<union> codes"
  have "finite ?codes" using 2 by (auto split: option.split dest!: map_of_SomeD)
  moreover have "set (AList.update m ?codes acc) \<subseteq> insert (m, ?codes) (set acc)"
    using 2 by (auto simp: update_conv' distinct_update dest!: map_of_is_SomeI [rotated] split: if_splits)
  ultimately have "\<forall>(n, C) \<in> set (AList.update m ?codes acc). finite C" using 2 by fastforce
  with 2 show ?case by (simp add: distinct_update)
qed simp

lemma picks_attr [simp]: "picks (error_json e) ''attr'' = err_attr e"
  by (simp add: picks_def error_json_def json_fields_def opt_str_def split: option.split)

lemma picks_type [simp]: "picks (details_json ty es) ''type'' = Some (error_type_str ty)"
  by (simp add: picks_def details_json_def json_fields_def)

lemma conforms_field_error:
  assumes "finite C"
  shows "conforms (error_serializer_class \<lparr>component_name = m, attr_choices = [n], code_choices = C\<rparr>) (error_json e) \<longleftrightarrow>
    err_attr e = Some n \<and> err_code e \<in> C"
  using assms by (auto simp: error_serializer_class_def error_json_def json_fields_def opt_str_def split: option.splits)

lemma conforms_by_field:
  "conforms (ResponseSerializer name [(''type'', ChoiceField types), (''errors'', ManyByField ''attr'' sers)]) (details_json ty es) \<longleftrightarrow>
     error_type_str ty \<in> set types \<and>
     (\<forall>e \<in> set es. list_ex (\<lambda>p. picks (error_json e) ''attr'' = Some (fst p) \<and> conforms (snd p) (error_json e)) sers)"
  by (simp add: details_json_def json_fields_def list_all_iff)

lemma conforms_validation_error:
  assumes "\<forall>(n, C) \<in> set xs. finite C"
  shows "conforms (validation_error_class camelize nm op_id xs) (details_json ValidationErrorType es) \<longleftrightarrow>
    (\<forall>e \<in> set es. \<exists>n C. err_attr e = Some n \<and> (n, C) \<in> set xs \<and> err_code e \<in> C)"
proof -
  let ?cs = "combine_codes xs []"
  have fin: "finite C" if "(n, C) \<in> set ?cs" for n C using finite_combined_codes [OF assms, of "[]"] that by auto
  have field: "(\<exists>n C. err_attr e = Some n \<and> (n, C) \<in> set ?cs \<and> err_code e \<in> C) \<longleftrightarrow>
      (\<exists>n C. err_attr e = Some n \<and> (n, C) \<in> set xs \<and> err_code e \<in> C)" for e
    using combine_codes_member [of "[]" xs _ "err_code e"] combine_codes_keys [of "[]" xs] by (auto simp: map_of_eq_Some_iff)
  let ?component = "\<lambda>(n, codes). \<lparr>component_name = error_component_name camelize nm op_id n, attr_choices = [n], code_choices = codes\<rparr>"
  have one: "picks (error_json e) ''attr'' = Some (concat (attr_choices (?component p))) \<and>
      conforms (error_serializer_class (?component p)) (error_json e) \<longleftrightarrow> err_attr e = Some (fst p) \<and> err_code e \<in> snd p"
    if "p \<in> set ?cs" for p e
    using fin [of "fst p" "snd p"] that by (cases p) (auto simp: conforms_field_error)
  have "list_ex (\<lambda>p. picks (error_json e) ''attr'' = Some (fst p) \<and> conforms (snd p) (error_json e))
        (map (\<lambda>c. (concat (attr_choices c), error_serializer_class c)) (map ?component ?cs)) \<longleftrightarrow>
      (\<exists>p \<in> set ?cs. err_attr e = Some (fst p) \<and> err_code e \<in> snd p)" for e
    unfolding list_ex_iff set_map bex_simps fst_conv snd_conv by (rule bex_cong [OF refl one])
  then have item: "list_ex (\<lambda>p. picks (error_json e) ''attr'' = Some (fst p) \<and> conforms (snd p) (error_json e))
        (map (\<lambda>c. (concat (attr_choices c), error_serializer_class c)) (map ?component ?cs)) \<longleftrightarrow>
      (\<exists>n C. err_attr e = Some n \<and> (n, C) \<in> set ?cs \<and> err_code e \<in> C)" for e
    unfolding Bex_def split_paired_Ex by auto
  show ?thesis
    unfolding validation_error_class_def get_validation_error_serializer_def Let_def prod.case conforms_by_field item field
    by (simp add: ValidationErrorEnum_def)
qed

text \<open>
  C28: the schema of the status 400 that is put together for a view describes a validation error
  exactly when every one of its errors is at a field the view documents, with a code
  documented for that field, whichever of several fields of the name it belongs to.
\<close>

theorem validation_errors_documented:
  assumes "should_add_validation_error v" and "api_is_validation a"
  shows "conforms_by_type (snd (get_http400_serializer camelize v i)) (details_json (get_error_type a) es) \<longleftrightarrow>
    (\<forall>e \<in> set es. \<exists>n C. err_attr e = Some n \<and>
       (n, C) \<in> set (determine_fields_with_error_codes (view_method v) i) \<and> err_code e \<in> C)"
proof -
  have fin: "\<forall>(n, C) \<in> set (determine_fields_with_error_codes (view_method v) i). finite C"
    using finite_documented_codes by blast
  have "get_error_type a = ValidationErrorType" using assms(2) by (simp add: get_error_type_def)
  then show ?thesis using assms(1) conforms_validation_error [OF fin]
    by (simp add: conforms_by_type_def get_http400_serializer_def)
qed

definition sample_view :: api_view where
  "sample_view = \<lparr>standard_handler = True, view_method = ''POST'', parses_strictly = True, any_media_type = False,
     request_is_field = True, filter_parameters = False, auth_methods = [], permissions = [], has_authenticators = False,
     view_paginator = None, view_versioning = None, path_parameters = False, default_negotiation = True, has_throttles = False\<rparr>"

definition sample_inputs :: view_inputs where
  "sample_inputs = \<lparr>input_names = default_names, name_separator = CHR ''.'', request_serializer = Some sample_serializer,
     filters_installed = True, view_has_model = True, view_backends = [], operation_id = ''create''\<rparr>"

lemma paired_code: "(\<exists>C. (n, C) \<in> set xs \<and> c \<in> C) \<longleftrightarrow> (n, True) \<in> set (map (\<lambda>(n, C). (n, c \<in> C)) xs)"
  by force

theorem validation_errors_documented_witness:
  "conforms_by_type (snd (get_http400_serializer id sample_view sample_inputs))
     (details_json ValidationErrorType [\<lparr>err_code = ''blank'', err_detail = ''empty'', err_attr = Some ''name''\<rparr>]) \<and>
   \<not> conforms_by_type (snd (get_http400_serializer id sample_view sample_inputs))
     (details_json ValidationErrorType [\<lparr>err_code = ''blank'', err_detail = ''empty'', err_attr = Some ''ids.0''\<rparr>])"
proof -
  define a where "a = \<lparr>api_is_validation = True, api_status = 400, api_detail = DList [], api_auth_header = None, api_wait = None\<rparr>"
  have prems: "should_add_validation_error sample_view" "api_is_validation a" "get_error_type a = ValidationErrorType"
    by (simp_all add: should_add_validation_error_def sample_view_def a_def get_error_type_def)
  have "map (\<lambda>(n, C). (n, ''blank'' \<in> C)) (determine_fields_with_error_codes ''POST'' sample_inputs) =
      [(''non_field_errors'', True), (''name'', True), (''ids'', True), (''ids.INDEX'', True)]"
    by code_simp
  then have fields: "(\<exists>C. (n, C) \<in> set (determine_fields_with_error_codes ''POST'' sample_inputs) \<and> ''blank'' \<in> C) \<longleftrightarrow>
      n \<in> {''non_field_errors'', ''name'', ''ids'', ''ids.INDEX''}" for n
    unfolding paired_code by simp
  note exact = validation_errors_documented [OF prems(1,2), of id sample_inputs, unfolded prems(3)]
  have "view_method sample_view = ''POST''" by (simp add: sample_view_def)
  then show ?thesis using fields unfolding exact by simp
qed

text \<open>
  Every example conforms to the documented class of its status, provided that the exceptions
  of the framework have their documented statuses and codes.
\<close>

definition as_documented :: "(string \<Rightarrow> string option \<Rightarrow> framework_exception) \<Rightarrow> bool" where
  "as_documented raised \<longleftrightarrow>
     (\<forall>(name, arg, status, code) \<in> set
        [(''AuthenticationFailed'', None, 401, ''authentication_failed''), (''NotAuthenticated'', None, 401, ''not_authenticated''),
         (''PermissionDenied'', None, 403, ''permission_denied''), (''NotFound'', None, 404, ''not_found''),
         (''MethodNotAllowed'', Some ''get'', 405, ''method_not_allowed''), (''NotAcceptable'', None, 406, ''not_acceptable''),
         (''UnsupportedMediaType'', Some ''application/json'', 415, ''unsupported_media_type''), (''Throttled'', None, 429, ''throttled''),
         (''APIException'', None, 500, ''error'')].
        exception_status (raised name arg) = status \<and> exception_codes (raised name arg) = JStr code \<and>
        (\<exists>text. exception_detail (raised name arg) = JStr text))"

lemma example_conforms:
  assumes "exception_status e \<in> set documented_statuses" and "exception_codes e = JStr code" and "exception_detail e = JStr msg"
    and "code \<in> set (class_codes (exception_status e))"
  shows "\<exists>ser. error_class (exception_status e) = Some ser \<and> conforms ser (example_value (get_example_from_exception e)) \<and>
    status_codes (get_example_from_exception e) = [show_nat (exception_status e)]"
proof -
  have "(400 \<le> exception_status e \<and> exception_status e \<le> 499) \<longleftrightarrow> exception_status e \<noteq> 500"
    using assms(1) by (auto simp: documented_statuses_def)
  with assms error_class_form [OF assms(1)] show ?thesis
    by (auto simp: get_example_from_exception_def Let_def error_list_def coded_error_def json_fields_def)
qed

lemma error_examples_conform:
  assumes "as_documented raised" and "x \<in> set (get_error_examples raised)"
  shows "\<exists>status ser. status_codes x = [show_nat status] \<and> error_class status = Some ser \<and> conforms ser (example_value x)"
proof -
  let ?made = "[raised ''AuthenticationFailed'' None, raised ''NotAuthenticated'' None, raised ''PermissionDenied'' None,
    raised ''NotFound'' None, raised ''MethodNotAllowed'' (Some ''get''), raised ''NotAcceptable'' None,
    raised ''UnsupportedMediaType'' (Some ''application/json''), raised ''Throttled'' None, raised ''APIException'' None]"
  have "list_all (\<lambda>e. exception_status e \<in> set documented_statuses \<and> (\<exists>code msg. exception_codes e = JStr code \<and>
      exception_detail e = JStr msg \<and> code \<in> set (class_codes (exception_status e)))) ?made"
    using assms(1) by (simp add: as_documented_def documented_statuses_def class_codes_def ErrorCode401Enum_def ErrorCode403Enum_def
        ErrorCode404Enum_def ErrorCode405Enum_def ErrorCode406Enum_def ErrorCode415Enum_def ErrorCode429Enum_def ErrorCode500Enum_def)
  moreover obtain e where "e \<in> set ?made" and "x = get_example_from_exception e"
    using assms(2) unfolding get_error_examples_def set_map by blast
  ultimately show ?thesis using example_conforms [of e] unfolding list_all_iff by metis
qed

end
