(* ===== verification/EnumHook.thy ===== *)
theory EnumHook
  imports OpenApi
begin

text \<open>
  \<^verbatim>\<open>finmars_standardized_errors/openapi_hooks.py\<close>: the hook that cuts the enumerations out of the properties of
  a generated schema, gives them names and puts references in their place.  The hash of a list
  of choices, the iteration of a set of hashes, \<^verbatim>\<open>camelize\<close> and \<^verbatim>\<open>safe_ref\<close> belong to libraries and are
  parameters.  The registered components are the schemas by name.
\<close>

section \<open>Where enumerations are\<close>

record enum_env =
  list_hash :: "json list \<Rightarrow> string"
  overrides :: "(string, string) dict"
  split_patch :: bool
  split_request :: bool
  explicit_blank_null :: bool
  error_suffix :: string
  camelize_name :: "string \<Rightarrow> string"
  set_order :: "string list \<Rightarrow> string list"
  safe_ref :: "json \<Rightarrow> json"

text \<open>The two \<^verbatim>\<open>re.sub\<close> on the name of a component.\<close>

definition component_base :: "enum_env \<Rightarrow> string \<Rightarrow> string" where
  "component_base env name =
     (let a = (if split_patch env \<and> startswith name ''Patched'' \<and> 7 < length name then drop 7 name else name)
      in if split_request env \<and> endswith a ''Request'' \<and> 7 < length a then take (length a - 7) a else a)"

lemma size_map_of: "map_of ps k = Some v \<Longrightarrow> size v < Suc (size_list (size_prod (\<lambda>_. 0) size) ps)"
  by (induction ps) (auto split: if_splits)

lemma size_in_list: "x \<in> set xs \<Longrightarrow> size x < Suc (size_list size xs)"
  by (induction xs) auto

text \<open>\<^verbatim>\<open>iter_prop_containers\<close> below a component: every non-empty dictionary of properties, with the name of the component.\<close>

function prop_containers :: "string \<Rightarrow> string \<Rightarrow> json \<Rightarrow> (string \<times> (string \<times> json) list) list" where
  "prop_containers suffix name (JList vs) = concat (map (\<lambda>v. prop_containers suffix name v) vs)"
| "prop_containers suffix name (JObj ps) =
     (case map_of ps ''properties'' of
        Some (JObj props) \<Rightarrow> if props \<noteq> [] \<and> \<not> endswith name suffix then [(name, props)] else []
      | _ \<Rightarrow> [])
     @ (case map_of ps ''oneOf'' of None \<Rightarrow> [] | Some v \<Rightarrow> prop_containers suffix name v)
     @ (case map_of ps ''allOf'' of None \<Rightarrow> [] | Some v \<Rightarrow> prop_containers suffix name v)
     @ (case map_of ps ''anyOf'' of None \<Rightarrow> [] | Some v \<Rightarrow> prop_containers suffix name v)"
| "prop_containers suffix name JNull = []"
| "prop_containers suffix name (JBool b) = []"
| "prop_containers suffix name (JInt i) = []"
| "prop_containers suffix name (JStr s) = []"
  by pat_completeness auto
termination
  by (relation "measure (\<lambda>(_, _, v). size v)") (auto simp: size_map_of size_in_list)

definition all_containers :: "enum_env \<Rightarrow> (string, json) dict \<Rightarrow> (string \<times> (string \<times> json) list) list" where
  "all_containers env schemas = concat (map (\<lambda>(n, s). prop_containers (error_suffix env) (component_base env n) s) schemas)"

text \<open>The schema that may have the choices: that of the items for an array.\<close>

definition is_array :: "json \<Rightarrow> bool" where
  "is_array s = (case s of JObj ps \<Rightarrow> map_of ps ''type'' = Some (JStr ''array'') | _ \<Rightarrow> False)"

definition enum_holder :: "json \<Rightarrow> (string \<times> json) list" where
  "enum_holder s =
     (case s of
        JObj ps \<Rightarrow>
          if is_array s then (case map_of ps ''items'' of Some (JObj ys) \<Rightarrow> ys | _ \<Rightarrow> []) else ps
      | _ \<Rightarrow> [])"

definition choices :: "json \<Rightarrow> json list option" where
  "choices s = (case map_of (enum_holder s) ''enum'' of Some (JList vs) \<Rightarrow> Some vs | _ \<Rightarrow> None)"

definition cleaned :: "json list \<Rightarrow> json list" where
  "cleaned vs = [v \<leftarrow> vs. v \<noteq> JStr [] \<and> v \<noteq> JNull]"

text \<open>The enumerations in the order they are met: component, property, choices.\<close>

definition enum_uses :: "enum_env \<Rightarrow> (string, json) dict \<Rightarrow> (string \<times> string \<times> json list) list" where
  "enum_uses env schemas =
     concat (map (\<lambda>(c, props). concat (map (\<lambda>(p, s). case choices s of None \<Rightarrow> [] | Some vs \<Rightarrow> [(c, p, vs)]) props))
       (all_containers env schemas))"

section \<open>Names\<close>

definition firsts :: "'a list \<Rightarrow> 'a list" where
  "firsts xs = rev (remdups (rev xs))"

definition use_hash :: "enum_env \<Rightarrow> string \<times> string \<times> json list \<Rightarrow> string" where
  "use_hash env u = list_hash env (cleaned (snd (snd u)))"

text \<open>\<^verbatim>\<open>prop_hash_mapping\<close> and \<^verbatim>\<open>hash_name_mapping\<close>\<close>

definition hashes_of :: "enum_env \<Rightarrow> (string \<times> string \<times> json list) list \<Rightarrow> string \<Rightarrow> string list" where
  "hashes_of env us p = firsts (map (use_hash env) [u \<leftarrow> us. fst (snd u) = p])"

definition places_of :: "enum_env \<Rightarrow> (string \<times> string \<times> json list) list \<Rightarrow> string \<Rightarrow> (string \<times> string) list" where
  "places_of env us h = firsts (map (\<lambda>u. (fst u, fst (snd u))) [u \<leftarrow> us. use_hash env u = h])"

text \<open>\<^verbatim>\<open>str.capitalize\<close> of a hash\<close>

definition capitalize :: "string \<Rightarrow> string" where
  "capitalize s = (case s of [] \<Rightarrow> [] | c # cs \<Rightarrow>
     (if 97 \<le> (of_char c :: nat) \<and> of_char c \<le> (122 :: nat) then char_of (of_char c - 32 :: nat) else c) # ascii_lower cs)"

definition enum_name :: "enum_env \<Rightarrow> (string \<times> string \<times> json list) list \<Rightarrow> string \<Rightarrow> string \<Rightarrow> string" where
  "enum_name env us p h =
     (case map_of (overrides env) h of
        Some n \<Rightarrow> n
      | None \<Rightarrow>
          if length (hashes_of env us p) = 1 then camelize_name env p @ ''Enum''
          else if length (places_of env us h) = 1 then camelize_name env (fst (hd (places_of env us h))) @ camelize_name env p @ ''Enum''
          else camelize_name env p @ capitalize (take 3 h) @ ''Enum'')"

text \<open>\<^verbatim>\<open>enum_name_mapping\<close>, its keys that are hashes and those that are pairs apart.\<close>

type_synonym enum_names = "(string, string) dict \<times> (string \<times> string, string) dict"

definition note_name :: "string \<Rightarrow> string \<Rightarrow> string \<Rightarrow> enum_names \<Rightarrow> enum_names" where
  "note_name n h p m =
     (case m of (m1, m2) \<Rightarrow>
        (if (case map_of m1 h of None \<Rightarrow> n | Some x \<Rightarrow> x) \<noteq> n then AList.delete h m1 else AList.update h n m1,
         AList.update (h, p) n m2))"

definition name_enums :: "enum_env \<Rightarrow> (string \<times> string \<times> json list) list \<Rightarrow> enum_names" where
  "name_enums env us =
     foldl (\<lambda>m p. foldl (\<lambda>m h. note_name (enum_name env us p h) h p m) m (set_order env (hashes_of env us p)))
       ([], []) (firsts (map (\<lambda>u. fst (snd u)) us))"

definition enum_ref :: "enum_names \<Rightarrow> string \<Rightarrow> string \<Rightarrow> exc + string" where
  "enum_ref m h p =
     (case map_of (fst m) h of
        None \<Rightarrow> or_raise (map_of (snd m) (h, p)) (KeyError h)
      | Some n \<Rightarrow> if n = [] then or_raise (map_of (snd m) (h, p)) (KeyError h) else Inr n)"

section \<open>Replacement\<close>

definition ref_json :: "string \<Rightarrow> string \<times> json" where
  "ref_json name = (''$ref'', JStr (''#/components/schemas/'' @ name))"

text \<open>The components made for a property: its choices and, when they were among them, the blank and the null.\<close>

definition enum_components :: "enum_env \<Rightarrow> string \<Rightarrow> json \<Rightarrow> json list \<Rightarrow> (string \<times> json) list" where
  "enum_components env name s vs =
     (name, JObj (map (\<lambda>(k, v). (k, if k = ''enum'' then JList (cleaned vs) else v))
        [x \<leftarrow> enum_holder s. fst x = ''type'' \<or> fst x = ''enum'']))
     # (if explicit_blank_null env \<and> JStr [] \<in> set vs then [(''BlankEnum'', JObj [(''enum'', JList [JStr []])])] else [])
     @ (if explicit_blank_null env \<and> JNull \<in> set vs then [(''NullEnum'', JObj [(''enum'', JList [JNull])])] else [])"

definition replaced :: "enum_env \<Rightarrow> string \<Rightarrow> json \<Rightarrow> json list \<Rightarrow> json" where
  "replaced env name s vs =
     (let rest = [x \<leftarrow> enum_holder s. fst x \<noteq> ''type'' \<and> fst x \<noteq> ''enum''];
          cs = map fst (enum_components env name s vs);
          new = (if length cs = 1 then JObj (AList.update (fst (ref_json name)) (snd (ref_json name)) rest)
                 else JObj (AList.update ''oneOf'' (JList (map (\<lambda>c. JObj [ref_json c]) cs)) rest))
      in if is_array s then (case s of JObj ps \<Rightarrow> JObj (AList.update ''items'' (safe_ref env new) ps) | _ \<Rightarrow> s)
         else safe_ref env new)"

definition rewrite_property :: "enum_env \<Rightarrow> enum_names \<Rightarrow> string \<Rightarrow> json \<Rightarrow> json" where
  "rewrite_property env m p s =
     (case choices s of
        None \<Rightarrow> s
      | Some vs \<Rightarrow> (case enum_ref m (list_hash env (cleaned vs)) p of Inl _ \<Rightarrow> s | Inr name \<Rightarrow> replaced env name s vs))"

text \<open>The same walk as \<^const>\<open>prop_containers\<close>, which changes the dictionaries of properties in place.\<close>

function rewrite_schema :: "(string \<Rightarrow> json \<Rightarrow> json) \<Rightarrow> bool \<Rightarrow> json \<Rightarrow> json" where
  "rewrite_schema f skip (JList vs) = JList (map (\<lambda>v. rewrite_schema f skip v) vs)"
| "rewrite_schema f skip (JObj ps) =
     JObj (map (\<lambda>x.
        if fst x = ''properties'' \<and> \<not> skip then
          (fst x, case snd x of JObj props \<Rightarrow> JObj (map (\<lambda>(p, s). (p, f p s)) props) | v \<Rightarrow> v)
        else if fst x = ''oneOf'' \<or> fst x = ''allOf'' \<or> fst x = ''anyOf'' then (fst x, rewrite_schema f skip (snd x))
        else x) ps)"
| "rewrite_schema f skip JNull = JNull"
| "rewrite_schema f skip (JBool b) = JBool b"
| "rewrite_schema f skip (JInt i) = JInt i"
| "rewrite_schema f skip (JStr s) = JStr s"
  by pat_completeness auto

lemma size_snd_in: "x \<in> set ps \<Longrightarrow> size (snd x) < Suc (size_list (size_prod (\<lambda>_. 0) size) ps)"
  by (induction ps) auto

termination rewrite_schema
  by (relation "measure (\<lambda>(_, _, v). size v)") (auto simp: size_snd_in size_in_list)

text \<open>The components that are created, in order; a name that is not in the mapping raises.\<close>

fun created_components :: "enum_env \<Rightarrow> enum_names \<Rightarrow> (string \<times> json) list \<Rightarrow> exc + (string \<times> json) list" where
  "created_components env m [] = Inr []"
| "created_components env m ((p, s) # rest) =
     (case choices s of
        None \<Rightarrow> created_components env m rest
      | Some vs \<Rightarrow>
          rbind (enum_ref m (list_hash env (cleaned vs)) p) (\<lambda>name.
          rbind (created_components env m rest) (\<lambda>cs. Inr (enum_components env name s vs @ cs))))"

text \<open>\<^verbatim>\<open>register_on_missing\<close>\<close>

definition register_on_missing :: "(string, json) dict \<Rightarrow> string \<times> json \<Rightarrow> (string, json) dict" where
  "register_on_missing d c = (case map_of d (fst c) of None \<Rightarrow> d @ [c] | Some _ \<Rightarrow> d)"

definition postprocess_schema_enums :: "enum_env \<Rightarrow> (string, json) dict \<Rightarrow> exc + (string, json) dict" where
  "postprocess_schema_enums env schemas =
     (let m = name_enums env (enum_uses env schemas) in
      rbind (created_components env m (concat (map snd (all_containers env schemas)))) (\<lambda>cs.
        Inr (foldl register_on_missing
          (map (\<lambda>(n, s). (n, rewrite_schema (rewrite_property env m) (endswith (component_base env n) (error_suffix env)) s)) schemas) cs)))"

section \<open>Every enumeration is found again\<close>

lemma set_firsts [simp]: "set (firsts xs) = set xs"
  by (simp add: firsts_def)

definition named_pairs :: "enum_env \<Rightarrow> (string \<times> string \<times> json list) list \<Rightarrow> (string \<times> string) list" where
  "named_pairs env us = concat (map (\<lambda>p. map (Pair p) (set_order env (hashes_of env us p))) (firsts (map (\<lambda>u. fst (snd u)) us)))"

lemma foldl_pairs:
  "foldl (\<lambda>m p. foldl (g p) m (xs p)) m ps = foldl (\<lambda>m (p, h). g p m h) m (concat (map (\<lambda>p. map (Pair p) (xs p)) ps))"
proof (induction ps arbitrary: m)
  case (Cons p ps)
  have "foldl (\<lambda>m (p, h). g p m h) m (map (Pair p) ys) = foldl (g p) m ys" for m ys
    by (induction ys arbitrary: m) simp_all
  with Cons show ?case by simp
qed simp

lemma name_enums_pairs: "name_enums env us = foldl (\<lambda>m (p, h). note_name (enum_name env us p h) h p m) ([], []) (named_pairs env us)"
  unfolding name_enums_def named_pairs_def by (rule foldl_pairs)

lemma names_by_pair:
  "map_of (snd (foldl (\<lambda>m (p, h). note_name (nm p h) h p m) m ps)) (h, p) =
     (if (p, h) \<in> set ps then Some (nm p h) else map_of (snd m) (h, p))"
  by (induction ps arbitrary: m) (auto simp: note_name_def update_conv' split: prod.splits)

lemma names_by_hash:
  assumes "map_of (fst (foldl (\<lambda>m (p, h). note_name (nm p h) h p m) m ps)) h = Some n"
    and "\<And>n. map_of (fst m) h = Some n \<Longrightarrow> \<exists>p. (p, h) \<in> Q \<and> n = nm p h"
  shows "\<exists>p. (p, h) \<in> Q \<union> set ps \<and> n = nm p h"
  using assms
proof (induction ps arbitrary: m Q)
  case (Cons x ps)
  obtain p k where x: "x = (p, k)" by force
  have "\<exists>q. (q, h) \<in> insert x Q \<and> y = nm q h" if "map_of (fst (note_name (nm p k) k p m)) h = Some y" for y
    using that Cons.prems(2) [of y] by (cases "k = h") (auto simp: note_name_def x update_conv' delete_conv' split: prod.splits if_splits)
  then have "\<exists>q. (q, h) \<in> insert x Q \<union> set ps \<and> n = nm q h"
    using Cons.IH [of "note_name (nm p k) k p m" "insert x Q"] Cons.prems(1) by (simp add: x)
  then show ?case by auto
qed auto

definition sound_order :: "enum_env \<Rightarrow> bool" where
  "sound_order env \<longleftrightarrow> (\<forall>xs. set (set_order env xs) = set xs)"

lemma named_pairs_iff:
  assumes "sound_order env"
  shows "(p, h) \<in> set (named_pairs env us) \<longleftrightarrow> (\<exists>u \<in> set us. fst (snd u) = p \<and> use_hash env u = h)"
  using assms by (auto simp: named_pairs_def hashes_of_def sound_order_def)

text \<open>A name is found for every enumeration, and it was given to a property with the same hash.\<close>

lemma enum_ref_found:
  assumes "sound_order env" and "u \<in> set us"
  shows "\<exists>n. enum_ref (name_enums env us) (use_hash env u) (fst (snd u)) = Inr n"
proof -
  have "(fst (snd u), use_hash env u) \<in> set (named_pairs env us)" using assms by (auto simp: named_pairs_iff)
  then have "map_of (snd (name_enums env us)) (use_hash env u, fst (snd u)) \<noteq> None"
    unfolding name_enums_pairs names_by_pair by simp
  then show ?thesis by (auto simp: enum_ref_def or_raise_def split: option.splits)
qed

lemma enum_ref_origin:
  assumes "sound_order env" and "enum_ref (name_enums env us) h p = Inr n"
  shows "\<exists>u \<in> set us. use_hash env u = h \<and> n = enum_name env us (fst (snd u)) h"
proof -
  consider "map_of (fst (name_enums env us)) h = Some n" | "map_of (snd (name_enums env us)) (h, p) = Some n"
    using assms(2) by (auto simp: enum_ref_def or_raise_def split: option.splits if_splits)
  then have "\<exists>q. (q, h) \<in> set (named_pairs env us) \<and> n = enum_name env us q h"
  proof cases
    case 1
    from names_by_hash [OF this [unfolded name_enums_pairs], of "{}"] show ?thesis by simp
  next
    case 2
    then show ?thesis unfolding name_enums_pairs names_by_pair by (auto split: if_splits)
  qed
  then show ?thesis using assms(1) by (auto simp: named_pairs_iff)
qed

lemma register_keeps:
  "map_of (foldl register_on_missing d cs) n = (case map_of d n of Some v \<Rightarrow> Some v | None \<Rightarrow> map_of cs n)"
proof (induction cs arbitrary: d)
  case (Cons c cs)
  then show ?case by (cases c) (auto simp: register_on_missing_def map_add_def split: option.splits)
qed (simp split: option.split)

lemma map_of_image: "map_of (map (\<lambda>(k, v). (k, f k v)) xs) k = map_option (f k) (map_of xs k)"
  by (induction xs) auto

lemma map_of_kept: "P k \<Longrightarrow> map_of [x \<leftarrow> xs. P (fst x)] k = map_of xs k"
  by (induction xs) auto

definition enum_schema_of :: "json \<Rightarrow> json list \<Rightarrow> json" where
  "enum_schema_of s vs = JObj (map (\<lambda>(k, v). (k, if k = ''enum'' then JList (cleaned vs) else v))
     [x \<leftarrow> enum_holder s. fst x = ''type'' \<or> fst x = ''enum''])"

lemma enum_schema_choices:
  assumes "choices s = Some vs"
  shows "subscript (enum_schema_of s ws) ''enum'' = Inr (JList (cleaned ws))"
proof -
  have "map_of (enum_holder s) ''enum'' \<noteq> None" using assms by (auto simp: choices_def split: option.splits)
  then show ?thesis
    unfolding enum_schema_of_def subscript.simps map_of_image
    using map_of_kept [of "\<lambda>k. k = ''type'' \<or> k = ''enum''" "''enum''" "enum_holder s"] by (auto simp: or_raise_def split: option.splits)
qed

text \<open>A property with the choices \<open>vs\<close> whose name is \<open>n\<close>.\<close>

definition offers :: "enum_env \<Rightarrow> enum_names \<Rightarrow> (string \<times> json) list \<Rightarrow> string \<Rightarrow> json \<Rightarrow> json list \<Rightarrow> bool" where
  "offers env m props n s vs \<longleftrightarrow>
     (\<exists>p. (p, s) \<in> set props \<and> choices s = Some vs \<and> enum_ref m (list_hash env (cleaned vs)) p = Inr n)"

lemma offers_Cons:
  "offers env m ((p, t) # props) n s vs \<longleftrightarrow>
     (s = t \<and> choices t = Some vs \<and> enum_ref m (list_hash env (cleaned vs)) p = Inr n) \<or> offers env m props n s vs"
  by (auto simp: offers_def)

definition describes :: "enum_env \<Rightarrow> enum_names \<Rightarrow> (string \<times> json) list \<Rightarrow> (string \<times> json) list \<Rightarrow> bool" where
  "describes env m props cs \<longleftrightarrow> (\<forall>n. n \<noteq> ''BlankEnum'' \<longrightarrow> n \<noteq> ''NullEnum'' \<longrightarrow>
     (case map_of cs n of
        None \<Rightarrow> \<not> (\<exists>s vs. offers env m props n s vs)
      | Some j \<Rightarrow> \<exists>s vs. offers env m props n s vs \<and> j = enum_schema_of s vs))"

lemma created_run:
  assumes "\<forall>(p, s) \<in> set props. \<forall>vs. choices s = Some vs \<longrightarrow> (\<exists>n. enum_ref m (list_hash env (cleaned vs)) p = Inr n)"
  shows "\<exists>cs. created_components env m props = Inr cs \<and> describes env m props cs"
  using assms
proof (induction props)
  case Nil
  then show ?case by (simp add: describes_def offers_def)
next
  case (Cons x rest)
  obtain p s where x: "x = (p, s)" by force
  obtain cs where cs: "created_components env m rest = Inr cs" "describes env m rest cs" using Cons by auto
  show ?case
  proof (cases "choices s")
    case None
    then have same: "offers env m (x # rest) = offers env m rest" by (intro ext) (simp add: x offers_Cons)
    have "describes env m (x # rest) cs = describes env m rest cs" unfolding describes_def same by (rule refl)
    then show ?thesis using cs None by (simp add: x)
  next
    case (Some vs)
    obtain n where n: "enum_ref m (list_hash env (cleaned vs)) p = Inr n" using Cons.prems Some x by auto
    have "describes env m (x # rest) (enum_components env n s vs @ cs)"
      unfolding describes_def
    proof (intro allI impI)
      fix k assume k: "k \<noteq> ''BlankEnum''" "k \<noteq> ''NullEnum''"
      have look: "map_of (enum_components env n s vs @ cs) k = (if k = n then Some (enum_schema_of s vs) else map_of cs k)"
        using k by (auto simp: enum_components_def enum_schema_of_def map_add_def)
      have rest: "case map_of cs k of None \<Rightarrow> \<not> (\<exists>s vs. offers env m rest k s vs)
          | Some j \<Rightarrow> \<exists>s vs. offers env m rest k s vs \<and> j = enum_schema_of s vs" using cs(2) k by (simp add: describes_def)
      show "case map_of (enum_components env n s vs @ cs) k of None \<Rightarrow> \<not> (\<exists>s vs. offers env m (x # rest) k s vs)
          | Some j \<Rightarrow> \<exists>s vs. offers env m (x # rest) k s vs \<and> j = enum_schema_of s vs"
      proof (cases "k = n")
        case True
        then have "offers env m (x # rest) k s vs" using Some n by (simp add: x offers_Cons)
        then show ?thesis unfolding look using True by auto
      next
        case False
        then have off: "offers env m (x # rest) k = offers env m rest k" using Some n by (intro ext) (auto simp: x offers_Cons)
        show ?thesis unfolding look off using False rest by simp
      qed
    qed
    then show ?thesis using Some n cs by (simp add: x)
  qed
qed

lemma uses_of_property:
  assumes "(p, s) \<in> set (concat (map snd (all_containers env schemas)))" and "choices s = Some vs"
  shows "\<exists>c. (c, p, vs) \<in> set (enum_uses env schemas)"
proof -
  obtain c props where c: "(c, props) \<in> set (all_containers env schemas)" "(p, s) \<in> set props" using assms(1) by auto
  let ?uses = "\<lambda>(c, props). concat (map (\<lambda>(p, s). case choices s of None \<Rightarrow> [] | Some vs \<Rightarrow> [(c, p, vs)]) props)"
  have "(c, p, vs) \<in> set (?uses (c, props))" using c(2) assms(2) by (induction props) auto
  then have "(c, p, vs) \<in> set (concat (map ?uses (all_containers env schemas)))"
    unfolding set_concat set_map using c(1) by blast
  then show ?thesis unfolding enum_uses_def by blast
qed

lemma one_hash:
  assumes "\<forall>v \<in> set us. fst (snd v) = fst (snd u) \<longrightarrow> use_hash env v = use_hash env u" and "u \<in> set us"
  shows "length (hashes_of env us (fst (snd u))) = 1"
proof -
  have "set (hashes_of env us (fst (snd u))) = use_hash env ` {v \<in> set us. fst (snd v) = fst (snd u)}" by (simp add: hashes_of_def)
  also have "\<dots> = {use_hash env u}" using assms by blast
  finally have "set (hashes_of env us (fst (snd u))) = {use_hash env u}" .
  moreover have "distinct (hashes_of env us (fst (snd u)))" by (simp add: hashes_of_def firsts_def)
  ultimately show ?thesis by (metis distinct_card card.empty card.insert empty_iff finite.emptyI One_nat_def)
qed

text \<open>Without overrides and with one set of choices for each property, a reference names its property and its choices.\<close>

lemma ref_camelized:
  assumes "sound_order env" and "overrides env = []" and "enum_ref (name_enums env us) h p = Inr n"
    and "\<forall>u \<in> set us. \<forall>v \<in> set us. fst (snd u) = fst (snd v) \<longrightarrow> use_hash env u = use_hash env v"
  shows "\<exists>u \<in> set us. use_hash env u = h \<and> n = camelize_name env (fst (snd u)) @ ''Enum''"
proof -
  obtain u where u: "u \<in> set us" "use_hash env u = h" "n = enum_name env us (fst (snd u)) h"
    using enum_ref_origin [OF assms(1), of us h p n] assms(3) by blast
  moreover have "length (hashes_of env us (fst (snd u))) = 1" by (rule one_hash) (use assms(4) u(1) in blast)+
  ultimately show ?thesis using assms(2) by (auto simp: enum_name_def)
qed

lemma ref_unique:
  assumes "sound_order env" and "overrides env = []" and "inj_on (camelize_name env) ((\<lambda>u. fst (snd u)) ` set us)"
    and one: "\<forall>u \<in> set us. \<forall>v \<in> set us. fst (snd u) = fst (snd v) \<longrightarrow> use_hash env u = use_hash env v"
    and refs: "enum_ref (name_enums env us) h p = Inr n" "enum_ref (name_enums env us) h' p' = Inr n"
  shows "h = h'"
proof -
  obtain u u' where "u \<in> set us" "use_hash env u = h" "u' \<in> set us" "use_hash env u' = h'"
    "camelize_name env (fst (snd u)) = camelize_name env (fst (snd u'))"
    using ref_camelized [OF assms(1,2) refs(1) one] ref_camelized [OF assms(1,2) refs(2) one] by auto
  moreover from this have "fst (snd u) = fst (snd u')" using inj_onD [OF assms(3)] by blast
  ultimately show ?thesis using one by blast
qed

lemma offered_component:
  assumes "describes env m ps cs" and "offers env m ps n s vs" and "n \<noteq> ''BlankEnum''" and "n \<noteq> ''NullEnum''"
  shows "\<exists>s' vs'. offers env m ps n s' vs' \<and> map_of cs n = Some (enum_schema_of s' vs')"
proof -
  have entry: "case map_of cs n of None \<Rightarrow> \<not> (\<exists>s vs. offers env m ps n s vs)
      | Some j \<Rightarrow> \<exists>s vs. offers env m ps n s vs \<and> j = enum_schema_of s vs"
    using assms(1,3,4) unfolding describes_def by blast
  show ?thesis
  proof (cases "map_of cs n")
    case None
    from entry [unfolded this option.case] assms(2) show ?thesis by blast
  next
    case (Some j)
    from entry [unfolded this option.case] Some show ?thesis by blast
  qed
qed

text \<open>
  C29: when each property has one set of choices, the hook never raises and loses no enumeration: the
  reference that replaces it names a registered component with the same choices, the blank and
  the null apart.  This needs hashes and camel case that tell texts apart, and that no
  component has one of the new names already.
\<close>

theorem enumerations_found_again:
  assumes "sound_order env" and "overrides env = []" and "us = enum_uses env schemas" and "m = name_enums env us"
    and "inj_on (list_hash env) ((\<lambda>u. cleaned (snd (snd u))) ` set us)" and "inj_on (camelize_name env) ((\<lambda>u. fst (snd u)) ` set us)"
    and "\<forall>u \<in> set us. \<forall>v \<in> set us. fst (snd u) = fst (snd v) \<longrightarrow> use_hash env u = use_hash env v"
    and "\<forall>u \<in> set us. camelize_name env (fst (snd u)) @ ''Enum'' \<notin> fst ` set schemas \<union> {''BlankEnum'', ''NullEnum''}"
  shows "\<exists>out. postprocess_schema_enums env schemas = Inr out \<and>
    (\<forall>(c, props) \<in> set (all_containers env schemas). \<forall>(p, s) \<in> set props. \<forall>vs. choices s = Some vs \<longrightarrow>
       (\<exists>n j. rewrite_property env m p s = replaced env n s vs \<and> map_of out n = Some j \<and>
          subscript j ''enum'' = Inr (JList (cleaned vs))))"
proof -
  let ?props = "concat (map snd (all_containers env schemas))"
  have use: "\<exists>u \<in> set us. fst (snd u) = p \<and> snd (snd u) = vs" if "(p, s) \<in> set ?props" "choices s = Some vs" for p s vs
    using uses_of_property [OF that] assms(3) by force
  have found: "\<exists>n. enum_ref m (list_hash env (cleaned vs)) p = Inr n" if "(p, s) \<in> set ?props" "choices s = Some vs" for p s vs
    using use [OF that] enum_ref_found [OF assms(1)] assms(4) unfolding use_hash_def by metis
  then obtain cs where cs: "created_components env m ?props = Inr cs" "describes env m ?props cs"
    using created_run [of ?props m env] by blast
  let ?base = "map (\<lambda>(n, s). (n, rewrite_schema (rewrite_property env m) (endswith (component_base env n) (error_suffix env)) s)) schemas"
  have out: "postprocess_schema_enums env schemas = Inr (foldl register_on_missing ?base cs)"
    using cs(1) by (simp add: postprocess_schema_enums_def Let_def assms(3,4))
  have goal: "\<exists>n j. rewrite_property env m p s = replaced env n s vs \<and> map_of (foldl register_on_missing ?base cs) n = Some j \<and>
      subscript j ''enum'' = Inr (JList (cleaned vs))" if ps: "(p, s) \<in> set ?props" "choices s = Some vs" for p s vs
  proof -
    obtain n where n: "enum_ref m (list_hash env (cleaned vs)) p = Inr n" using found [OF ps] by blast
    then have fresh: "n \<notin> fst ` set schemas" "n \<noteq> ''BlankEnum''" "n \<noteq> ''NullEnum''"
      using ref_camelized [OF assms(1,2) n [unfolded assms(4)] assms(7)] assms(8) by auto
    have "fst ` set ?base = fst ` set schemas" by force
    then have base: "map_of ?base n = None" using fresh(1) by (simp add: map_of_eq_None_iff)
    have "offers env m ?props n s vs" using ps n by (auto simp: offers_def)
    then obtain s' vs' where s': "offers env m ?props n s' vs'" "map_of cs n = Some (enum_schema_of s' vs')"
      using offered_component [OF cs(2) _ fresh(2,3)] by blast
    then obtain p' where ps': "(p', s') \<in> set ?props" "choices s' = Some vs'" "enum_ref m (list_hash env (cleaned vs')) p' = Inr n"
      unfolding offers_def by blast
    have "list_hash env (cleaned vs') = list_hash env (cleaned vs)"
      by (rule ref_unique [OF assms(1,2,6,7) ps'(3) [unfolded assms(4)] n [unfolded assms(4)]])
    moreover have "cleaned vs' \<in> (\<lambda>u. cleaned (snd (snd u))) ` set us" "cleaned vs \<in> (\<lambda>u. cleaned (snd (snd u))) ` set us"
      using use [OF ps'(1,2)] use [OF ps] by blast+
    ultimately have "cleaned vs' = cleaned vs" using inj_onD [OF assms(5)] by blast
    then have "subscript (enum_schema_of s' vs') ''enum'' = Inr (JList (cleaned vs))" using enum_schema_choices [OF ps'(2), of vs'] by simp
    moreover have "rewrite_property env m p s = replaced env n s vs" using ps(2) n by (simp add: rewrite_property_def)
    ultimately show ?thesis using register_keeps [of ?base cs n] base s'(2) by auto
  qed
  have "(p, s) \<in> set ?props" if "(c, props) \<in> set (all_containers env schemas)" "(p, s) \<in> set props" for c props p s
    using that by force
  with out goal show ?thesis by blast
qed

definition sample_enum_env :: enum_env where
  "sample_enum_env = \<lparr>list_hash = (\<lambda>vs. dumps_plain (JList vs)), overrides = [], split_patch = True, split_request = True,
     explicit_blank_null = True, error_suffix = ''ErrorComponent'', camelize_name = id, set_order = id, safe_ref = id\<rparr>"

definition sample_schemas :: "(string, json) dict" where
  "sample_schemas =
     [(''Task'', JObj [(''properties'', JObj [(''status'', JObj [(''type'', JStr ''string''),
         (''enum'', JList [JStr ''init'', JStr ''error'', JStr []])])])])]"

lemma sample_uses: "enum_uses sample_enum_env sample_schemas = [(''Task'', ''status'', [JStr ''init'', JStr ''error'', JStr []])]"
  by code_simp

theorem enumerations_found_again_witness:
  "\<exists>out j. postprocess_schema_enums sample_enum_env sample_schemas = Inr out \<and> map_of out ''statusEnum'' = Some j \<and>
    subscript j ''enum'' = Inr (JList [JStr ''init'', JStr ''error''])"
proof -
  let ?s = "JObj [(''type'', JStr ''string''), (''enum'', JList [JStr ''init'', JStr ''error'', JStr []])]"
  let ?vs = "[JStr ''init'', JStr ''error'', JStr []]"
  have prems: "sound_order sample_enum_env" "overrides sample_enum_env = []"
    by (simp_all add: sound_order_def sample_enum_env_def)
  have "\<exists>out. postprocess_schema_enums sample_enum_env sample_schemas = Inr out \<and>
    (\<forall>(c, props) \<in> set (all_containers sample_enum_env sample_schemas). \<forall>(p, s) \<in> set props. \<forall>vs. choices s = Some vs \<longrightarrow>
       (\<exists>n j. rewrite_property sample_enum_env (name_enums sample_enum_env (enum_uses sample_enum_env sample_schemas)) p s =
            replaced sample_enum_env n s vs \<and> map_of out n = Some j \<and> subscript j ''enum'' = Inr (JList (cleaned vs))))"
    by (rule enumerations_found_again [OF prems refl refl]) (simp_all add: sample_uses, simp_all add: sample_enum_env_def sample_schemas_def)
  moreover have "all_containers sample_enum_env sample_schemas = [(''Task'', [(''status'', ?s)])]" by code_simp
  moreover have "choices ?s = Some ?vs" "cleaned ?vs = [JStr ''init'', JStr ''error'']" by code_simp+
  ultimately obtain out n j where out: "postprocess_schema_enums sample_enum_env sample_schemas = Inr out" "map_of out n = Some j"
    "subscript j ''enum'' = Inr (JList [JStr ''init'', JStr ''error''])"
    and new: "rewrite_property sample_enum_env (name_enums sample_enum_env (enum_uses sample_enum_env sample_schemas)) ''status'' ?s =
      replaced sample_enum_env n ?s ?vs" by auto
  have "rewrite_property sample_enum_env (name_enums sample_enum_env (enum_uses sample_enum_env sample_schemas)) ''status'' ?s =
      replaced sample_enum_env ''statusEnum'' ?s ?vs" by code_simp
  with new have "n = ''statusEnum''"
    by (simp add: replaced_def enum_components_def sample_enum_env_def ref_json_def enum_holder_def is_array_def Let_def)
  with out show ?thesis by blast
qed

end
