(* ===== verification/Serializers.thy ===== *)
theory Serializers
  imports Endpoints Scheduling
begin

text \<open>
  How \<^verbatim>\<open>workflow/serializers.py\<close> shows rows: the fields of each serializer in their order, without the
  hidden ones (\<^verbatim>\<open>SpaceField\<close> and \<^verbatim>\<open>OwnerField\<close> of \<^verbatim>\<open>workflow/fields.py\<close>), as JSON.  A field that is named
  twice is shown once, at its first place.
\<close>

section \<open>Rows as JSON\<close>

text \<open>
  What the framework adds: the text of ids and times, the stamps of creation and change that
  every row has, the readable form of a crontab and the next time of a crontab line.
\<close>

record show_columns =
  uuid_text :: "nat \<Rightarrow> string"
  time_text :: "nat \<Rightarrow> string"
  task_stamps :: "task_row \<Rightarrow> string \<times> string"
  workflow_stamps :: "workflow_row \<Rightarrow> string \<times> string"
  template_stamps :: "template_row \<Rightarrow> string \<times> string"
  schedule_stamps :: "schedule_row \<Rightarrow> string \<times> string"
  human_readable :: "crontab_row \<Rightarrow> string"
  croniter_next :: "string option \<Rightarrow> exc + nat"

definition opt_json :: "('a \<Rightarrow> json) \<Rightarrow> 'a option \<Rightarrow> json" where
  "opt_json f x = (case x of None \<Rightarrow> JNull | Some y \<Rightarrow> f y)"

definition id_json :: "nat \<Rightarrow> json" where
  "id_json n = JInt (int n)"

definition stamps_json :: "string \<times> string \<Rightarrow> (string \<times> json) list" where
  "stamps_json p = [(''created_at'', JStr (fst p)), (''modified_at'', JStr (snd p))]"

text \<open>\<^verbatim>\<open>TaskSerializer\<close>: the JSON columns are read, so that a text that is no JSON raises.\<close>

definition task_representation :: "show_columns \<Rightarrow> task_row \<Rightarrow> exc + json" where
  "task_representation c t =
     rbind (previous t) (\<lambda>before. rbind (task_payload t) (\<lambda>given. rbind (result t) (\<lambda>res. rbind (progress t) (\<lambda>prog.
       Inr (JObj ([(''id'', id_json (task_id t)), (''name'', opt_str (task_name t)), (''source_code'', opt_str (source_code t)),
         (''node_id'', opt_str (task_node_id t)), (''workflow'', id_json (task_workflow t)),
         (''status'', JStr (task_status_str (task_status t))),
         (''celery_task_id'', opt_json (\<lambda>n. JStr (uuid_text c n)) (celery_task_id t)), (''previous'', before),
         (''is_hook'', JBool (is_hook t)), (''payload'', given), (''result'', res), (''progress'', prog)]
         @ stamps_json (task_stamps c t)
         @ [(''log'', opt_str (task_log t)), (''worker_name'', opt_str (shown_worker_name t)),
            (''error_message'', opt_str (error_message t)),
            (''finished_at'', opt_json (\<lambda>n. JStr (time_text c n)) (task_finished_at t))]))))))"

definition template_representation :: "show_columns \<Rightarrow> template_row \<Rightarrow> json" where
  "template_representation c tp =
     JObj ([(''id'', id_json (tp_id tp)), (''name'', opt_str (tp_name tp)), (''user_code'', opt_str (tp_user_code tp)),
       (''notes'', opt_str (tp_notes tp))] @ stamps_json (template_stamps c tp) @ [(''data'', tp_data tp)])"

text \<open>The elements of a \<^verbatim>\<open>many\<close> field, the first error wins.\<close>

fun show_each :: "('a \<Rightarrow> exc + json) \<Rightarrow> 'a list \<Rightarrow> exc + json list" where
  "show_each f [] = Inr []"
| "show_each f (x # xs) = rbind (f x) (\<lambda>j. rbind (show_each f xs) (\<lambda>js. Inr (j # js)))"

text \<open>The row a foreign key points to.\<close>

definition related :: "(nat \<Rightarrow> 'a option) \<Rightarrow> nat option \<Rightarrow> exc + 'a option" where
  "related find_by key =
     (case key of None \<Rightarrow> Inr None | Some i \<Rightarrow> (case find_by i of None \<Rightarrow> Inl DoesNotExist | Some x \<Rightarrow> Inr (Some x)))"

definition template_of :: "schema_db \<Rightarrow> workflow_row \<Rightarrow> exc + template_row option" where
  "template_of d w = related (\<lambda>i. find_row tp_id i (templates d)) (workflow_template w)"

text \<open>The fields \<^verbatim>\<open>SimpleWorkflowSerializer\<close> and \<^verbatim>\<open>WorkflowSerializer\<close> share, from \<^verbatim>\<open>id\<close> to \<^verbatim>\<open>finished_at\<close>.\<close>

definition workflow_fields :: "show_columns \<Rightarrow> workflow_row \<Rightarrow> template_row option \<Rightarrow> json list \<Rightarrow> (string \<times> json) list" where
  "workflow_fields c w tp ts =
     [(''id'', id_json (wf_id w)), (''name'', opt_str (wf_name w)), (''user_code'', opt_str (wf_user_code w)),
      (''owner'', id_json (wf_owner w)), (''node_id'', opt_str (wf_node_id w)), (''current_node_id'', opt_str (current_node_id w)),
      (''status'', JStr (wf_status_str (wf_status w))), (''workflow_template'', opt_json id_json (workflow_template w)),
      (''workflow_template_object'', opt_json (template_representation c) tp), (''payload'', payload w)]
     @ stamps_json (workflow_stamps c w)
     @ [(''tasks'', JList ts), (''periodic'', JBool (periodic w)),
        (''finished_at'', opt_json (\<lambda>n. JStr (time_text c n)) (wf_finished_at w))]"

definition simple_workflow_representation :: "show_columns \<Rightarrow> schema_db \<Rightarrow> workflow_row \<Rightarrow> exc + json" where
  "simple_workflow_representation c d w =
     rbind (template_of d w) (\<lambda>tp.
     rbind (show_each (task_representation c) (tasks_of (wf_id w) d)) (\<lambda>ts.
       Inr (JObj (workflow_fields c w tp ts @ [(''is_manager'', JBool (is_manager w))]))))"

definition parent_of :: "schema_db \<Rightarrow> workflow_row \<Rightarrow> exc + workflow_row option" where
  "parent_of d w = related (\<lambda>i. find_row wf_id i (workflows d)) (parent w)"

definition workflow_representation :: "show_columns \<Rightarrow> schema_db \<Rightarrow> workflow_row \<Rightarrow> exc + json" where
  "workflow_representation c d w =
     rbind (template_of d w) (\<lambda>tp.
     rbind (show_each (task_representation c) (tasks_of (wf_id w) d)) (\<lambda>ts.
     rbind (parent_of d w) (\<lambda>up.
     rbind (case up of None \<Rightarrow> Inr JNull | Some p \<Rightarrow> simple_workflow_representation c d p) (\<lambda>pj.
     rbind (get_workflow_version tp) (\<lambda>version.
       Inr (JObj (workflow_fields c w tp ts
         @ [(''parent'', pj), (''workflow_version'', JInt version), (''is_manager'', JBool (is_manager w))])))))))"

definition light_representation :: "show_columns \<Rightarrow> schema_db \<Rightarrow> workflow_row \<Rightarrow> exc + json" where
  "light_representation c d w =
     rbind (related (\<lambda>i. find_row cron_id i (crontabs d)) (wf_crontab w)) (\<lambda>cron.
       Inr (JObj ([(''id'', id_json (wf_id w)), (''name'', opt_str (wf_name w)), (''user_code'', opt_str (wf_user_code w)),
         (''owner'', id_json (wf_owner w)), (''status'', JStr (wf_status_str (wf_status w)))]
         @ stamps_json (workflow_stamps c w)
         @ [(''periodic'', JBool (periodic w)), (''is_manager'', JBool (is_manager w)),
            (''crontab_line'', opt_json (\<lambda>x. JStr (human_readable c x)) cron)])))"

text \<open>\<^verbatim>\<open>list_light\<close>: the filters and the pages of the framework are parameters.\<close>

definition list_light ::
  "show_columns \<Rightarrow> (workflow_row list \<Rightarrow> workflow_row list) \<Rightarrow> (workflow_row list \<Rightarrow> exc + workflow_row list) \<Rightarrow>
   (json list \<Rightarrow> json) \<Rightarrow> json io" where
  "list_light c filters paginate respond =
     db_query (\<lambda>d. rbind (paginate (filters (rev (workflows d)))) (\<lambda>page.
       rbind (show_each (light_representation c d) page) (\<lambda>js. Inr (respond js))))"

section \<open>Schedules\<close>

text \<open>\<^verbatim>\<open>Schedule.get_next_run_at\<close>: whatever the library raises gives no time.\<close>

definition get_next_run_at :: "show_columns \<Rightarrow> crontab_row option \<Rightarrow> nat option" where
  "get_next_run_at c cron = (case croniter_next c (crontab_line cron) of Inl _ \<Rightarrow> None | Inr t \<Rightarrow> Some t)"

definition schedule_representation :: "show_columns \<Rightarrow> schedule_row \<Rightarrow> json io" where
  "schedule_representation c r =
     bind (db_query (\<lambda>d. related (\<lambda>i. find_row cron_id i (crontabs d)) (sched_crontab r))) (\<lambda>cron.
     bind (owner_username r) (\<lambda>name.
       ret (JObj ([(''id'', id_json (sched_id r)), (''user_code'', JStr (sched_user_code r)), (''name'', JStr (sched_name r))]
         @ stamps_json (schedule_stamps c r)
         @ [(''payload'', sched_payload r), (''crontab_line'', opt_str (crontab_line cron)),
            (''is_manager'', JBool (sched_is_manager r)), (''workflow_user_code'', JStr (workflow_user_code r)),
            (''notes'', opt_str (sched_notes r)),
            (''next_run_at'', opt_json (\<lambda>n. JStr (time_text c n)) (get_next_run_at c cron)),
            (''last_run_at'', opt_json (\<lambda>n. JStr (time_text c n)) (sched_last_run_at r)),
            (''enabled'', JBool (sched_enabled r)), (''owner_id'', id_json (sched_owner r)), (''owner_username'', JStr name)]))))"

section \<open>What is shown\<close>

definition is_read :: "exc + 'a \<Rightarrow> bool" where
  "is_read r = (case r of Inl _ \<Rightarrow> False | Inr _ \<Rightarrow> True)"

lemma is_read_simps [simp]: "is_read (Inr x)" "\<not> is_read (Inl e)"
  by (simp_all add: is_read_def)

lemma is_read_iff: "is_read r \<longleftrightarrow> (\<exists>x. r = Inr x)"
  by (cases r) simp_all

lemma is_read_rbind: "is_read (rbind m f) \<longleftrightarrow> (\<exists>x. m = Inr x \<and> is_read (f x))"
  by (cases m) simp_all

definition readable :: "task_row \<Rightarrow> bool" where
  "readable t \<longleftrightarrow> is_read (previous t) \<and> is_read (task_payload t) \<and> is_read (result t) \<and> is_read (progress t)"

lemma task_shown_iff: "is_read (task_representation c t) \<longleftrightarrow> readable t"
  by (simp add: task_representation_def is_read_rbind readable_def) (auto simp: is_read_iff)

lemma show_each_Inr: "show_each f xs = Inr js \<longleftrightarrow> list_all2 (\<lambda>x j. f x = Inr j) xs js"
proof (induction xs arbitrary: js)
  case (Cons x xs)
  show ?case
  proof (cases "f x")
    case (Inr j)
    then show ?thesis using Cons.IH by (cases "show_each f xs") (auto simp: list_all2_Cons1)
  qed (simp add: list_all2_Cons1)
qed auto

lemma show_each_read: "is_read (show_each f xs) \<longleftrightarrow> (\<forall>x \<in> set xs. is_read (f x))"
proof (induction xs)
  case (Cons x xs)
  have "is_read (show_each f (x # xs)) \<longleftrightarrow> is_read (f x) \<and> is_read (show_each f xs)"
    by (cases "f x"; cases "show_each f xs") simp_all
  with Cons show ?case by simp
qed simp

lemma tasks_shown_iff:
  "(\<exists>ts. show_each (task_representation c) (tasks_of i d) = Inr ts) \<longleftrightarrow> (\<forall>t \<in> set (tasks d). task_workflow t = i \<longrightarrow> readable t)"
  using show_each_read [of "task_representation c" "tasks_of i d"] by (auto simp: is_read_iff [symmetric] task_shown_iff tasks_of_def)

lemma simple_shown_iff:
  "is_read (simple_workflow_representation c d w) \<longleftrightarrow>
     is_read (template_of d w) \<and> (\<forall>t \<in> set (tasks d). task_workflow t = wf_id w \<longrightarrow> readable t)"
  unfolding simple_workflow_representation_def is_read_rbind using tasks_shown_iff [of c "wf_id w" d] by (auto simp: is_read_iff)

lemma workflow_fields_keys:
  "map_of (workflow_fields c w tp ts) ''tasks'' = Some (JList ts)"
  "map_of (workflow_fields c w tp ts) ''id'' = Some (id_json (wf_id w))"
  "''space'' \<notin> fst ` set (workflow_fields c w tp ts)"
  by (simp_all add: workflow_fields_def stamps_json_def)

text \<open>
  C25: a workflow is shown exactly when its template and its parent's are there, the version of the
  template can be read and every JSON column of its own tasks and of its parent's tasks is
  readable; one unreadable task hides the whole workflow.  What is shown has the tasks of the
  workflow, all of them and newest first, and never names the space.
\<close>

theorem workflow_shown_exactly:
  assumes "template_of d w = Inr tp" and "parent_of d w = Inr up"
  shows "((\<exists>j. workflow_representation c d w = Inr j) \<longleftrightarrow>
      (\<forall>t \<in> set (tasks d). task_workflow t = wf_id w \<or> parent w = Some (task_workflow t) \<longrightarrow> readable t) \<and>
      (\<exists>v. get_workflow_version tp = Inr v) \<and> (\<forall>p. up = Some p \<longrightarrow> (\<exists>q. template_of d p = Inr q))) \<and>
    (\<forall>j. workflow_representation c d w = Inr j \<longrightarrow>
      (\<exists>ts. subscript j ''tasks'' = Inr (JList ts) \<and> list_all2 (\<lambda>t v. task_representation c t = Inr v) (tasks_of (wf_id w) d) ts) \<and>
      subscript j ''id'' = Inr (JInt (int (wf_id w))) \<and> is_in ''space'' j = Inr False)"
proof -
  have up: "(up = None \<longleftrightarrow> parent w = None) \<and> (\<forall>p. up = Some p \<longrightarrow> parent w = Some (wf_id p))"
  proof (cases "parent w")
    case None
    then show ?thesis using assms(2) by (simp add: parent_of_def related_def)
  next
    case (Some i)
    then show ?thesis using assms(2)
      by (cases "find_row wf_id i (workflows d)") (auto simp: parent_of_def related_def dest: find_row_Some)
  qed
  have parent: "is_read (case up of None \<Rightarrow> Inr JNull | Some p \<Rightarrow> simple_workflow_representation c d p) \<longleftrightarrow>
      (\<forall>p. up = Some p \<longrightarrow> (\<exists>q. template_of d p = Inr q) \<and> (\<forall>t \<in> set (tasks d). task_workflow t = wf_id p \<longrightarrow> readable t))"
    by (cases up) (simp_all add: simple_shown_iff is_read_iff [of "template_of d _"])
  have "is_read (workflow_representation c d w) \<longleftrightarrow>
      (\<exists>ts. show_each (task_representation c) (tasks_of (wf_id w) d) = Inr ts) \<and>
      is_read (case up of None \<Rightarrow> Inr JNull | Some p \<Rightarrow> simple_workflow_representation c d p) \<and> is_read (get_workflow_version tp)"
    unfolding workflow_representation_def is_read_rbind assms by (auto simp: is_read_iff)
  then have shown: "is_read (workflow_representation c d w) \<longleftrightarrow>
      (\<forall>t \<in> set (tasks d). task_workflow t = wf_id w \<or> parent w = Some (task_workflow t) \<longrightarrow> readable t) \<and>
      is_read (get_workflow_version tp) \<and> (\<forall>p. up = Some p \<longrightarrow> (\<exists>q. template_of d p = Inr q))"
    unfolding tasks_shown_iff parent using up by (cases up) auto
  have "(\<exists>ts. subscript j ''tasks'' = Inr (JList ts) \<and> list_all2 (\<lambda>t v. task_representation c t = Inr v) (tasks_of (wf_id w) d) ts) \<and>
      subscript j ''id'' = Inr (JInt (int (wf_id w))) \<and> is_in ''space'' j = Inr False"
    if "workflow_representation c d w = Inr j" for j
  proof -
    from that obtain ts more where ts: "show_each (task_representation c) (tasks_of (wf_id w) d) = Inr ts"
      and j: "j = JObj (workflow_fields c w tp ts @ more)" and more: "''space'' \<notin> fst ` set more"
      unfolding workflow_representation_def assms by (auto simp: rbind_def split: sum.splits)
    from ts have "list_all2 (\<lambda>t v. task_representation c t = Inr v) (tasks_of (wf_id w) d) ts" by (simp add: show_each_Inr)
    then show ?thesis using workflow_fields_keys [of c w tp ts] more by (simp add: j map_add_find_right map_of_append id_json_def image_Un)
  qed
  with shown show ?thesis unfolding is_read_iff by blast
qed

definition sample_columns :: show_columns where
  "sample_columns = \<lparr>uuid_text = show_nat, time_text = show_nat, task_stamps = (\<lambda>_. ([], [])), workflow_stamps = (\<lambda>_. ([], [])),
     template_stamps = (\<lambda>_. ([], [])), schedule_stamps = (\<lambda>_. ([], [])), human_readable = (\<lambda>_. []), croniter_next = (\<lambda>_. Inr 0)\<rparr>"

theorem workflow_shown_exactly_witness:
  "(\<exists>j. workflow_representation sample_columns sample_db sample_workflow = Inr j \<and> is_in ''space'' j = Inr False) \<and>
   \<not> (\<exists>j. workflow_representation sample_columns (sample_db\<lparr>tasks := [sample_task\<lparr>result_data := Some ''{''\<rparr>]\<rparr>) sample_workflow = Inr j)"
proof -
  have tp: "template_of sample_db sample_workflow = Inr (Some sample_template)"
    "template_of (sample_db\<lparr>tasks := ts\<rparr>) sample_workflow = Inr (Some sample_template)" for ts
    by (simp_all add: template_of_def related_def sample_db_def sample_workflow_def sample_template_def)
  have up: "parent_of sample_db sample_workflow = Inr None" "parent_of (sample_db\<lparr>tasks := ts\<rparr>) sample_workflow = Inr None" for ts
    by (simp_all add: parent_of_def related_def sample_workflow_def)
  have read: "list_all readable (tasks sample_db)" "is_read (get_workflow_version (Some sample_template))" by code_simp+
  have bad: "\<not> readable (sample_task\<lparr>result_data := Some ''{''\<rparr>)" by code_simp
  have own: "task_workflow (sample_task\<lparr>result_data := Some ''{''\<rparr>) = wf_id sample_workflow"
    by (simp add: sample_task_def sample_workflow_def)
  show ?thesis
    using workflow_shown_exactly [OF tp(1) up(1), of sample_columns] workflow_shown_exactly [OF tp(2) up(2), of sample_columns] read bad own
    by (auto simp: list_all_iff is_read_iff)
qed

end
