(* ===== verification/Directories.thy ===== *)
theory Directories
  imports Downloads
begin

text \<open>
  The directories of the four storages of \<^verbatim>\<open>workflow/storage.py\<close>: deleting, copying to the local disk
  and packing into an archive.  The bucket storages go by the prefix of the keys, the SFTP
  storage by the walk of its client (a parameter), the local one by the files below
  \<^verbatim>\<open>MEDIA_ROOT\<close>.  A directory is there when a file is below it; an archive is its entries.
\<close>

section \<open>Archives\<close>

text \<open>\<^verbatim>\<open>download_local_folder_as_zip\<close>: the name of the archive and its entries.\<close>

definition download_local_folder_as_zip :: "string \<Rightarrow> string \<Rightarrow> (string \<times> (string, string) dict) dl" where
  "download_local_folder_as_zip cwd folder =
     bind (query (\<lambda>s. filter (\<lambda>(p, _). below_dir (normpath folder) p) (local_files s))) (\<lambda>fs.
     bind (map_each (\<lambda>(p, data). bind (lift (relpath cwd p folder)) (\<lambda>rel. ret (rel, data))) fs) (\<lambda>entries.
       ret (folder @ ''.zip'', entries)))"

definition rmtree :: "string \<Rightarrow> unit dl" where
  "rmtree folder =
     bind (query (\<lambda>s. list_ex (\<lambda>(p, _). below_dir folder p) (local_files s))) (\<lambda>there.
       if there then modify (\<lambda>s. s\<lparr>local_files := filter (\<lambda>(p, _). \<not> below_dir folder p) (local_files s)\<rparr>)
       else throw (Raised ''FileNotFoundError'' folder))"

text \<open>The loop all storages have: each file is written under its path relative to the directory.\<close>

definition copy_files :: "string \<Rightarrow> string \<Rightarrow> string \<Rightarrow> (string \<times> string) list \<Rightarrow> unit dl" where
  "copy_files cwd dir dest objs =
     for_each objs (\<lambda>(k, data). bind (lift (relpath cwd k dir)) (\<lambda>rel. write_local (path_join2 dest rel) data))"

section \<open>The bucket storages\<close>

definition list_prefix :: "string \<Rightarrow> (string \<times> string) list dl" where
  "list_prefix dir = query (\<lambda>s. filter (\<lambda>(k, _). startswith k dir) (files (remote s)))"

text \<open>\<open>temp\<close> is the directory \<^verbatim>\<open>tempfile.mkdtemp\<close> made; removing it raises nothing, as it was made before.\<close>

definition drop_temp :: "string \<Rightarrow> unit dl" where
  "drop_temp temp = modify (\<lambda>s. s\<lparr>local_files := filter (\<lambda>(p, _). \<not> below_dir temp p) (local_files s)\<rparr>)"

definition s3_download_directory_as_zip :: "string \<Rightarrow> string \<Rightarrow> string \<Rightarrow> (string \<times> (string, string) dict) dl" where
  "s3_download_directory_as_zip cwd temp dir =
     bind (list_prefix dir) (\<lambda>objs.
     seq (copy_files cwd dir temp objs)
     (bind (download_local_folder_as_zip cwd temp) (\<lambda>z. seq (drop_temp temp) (ret z))))"

text \<open>The Azure storage checks the prefix again for every blob.\<close>

definition azure_delete_directory :: "string \<Rightarrow> unit dl" where
  "azure_delete_directory dir =
     bind (list_prefix dir) (\<lambda>blobs. for_each blobs (\<lambda>(k, _). on_remote (delete_file k)))"

definition azure_download_directory :: "string \<Rightarrow> string \<Rightarrow> string \<Rightarrow> unit dl" where
  "azure_download_directory cwd dir dest =
     bind (list_prefix dir) (\<lambda>blobs. copy_files cwd dir dest (filter (\<lambda>(k, _). startswith k dir) blobs))"

definition azure_download_directory_as_zip :: "string \<Rightarrow> string \<Rightarrow> string \<Rightarrow> (string \<times> (string, string) dict) dl" where
  "azure_download_directory_as_zip cwd temp dir =
     bind (list_prefix dir) (\<lambda>blobs.
     seq (copy_files cwd dir temp (filter (\<lambda>(k, _). startswith k dir) blobs))
     (bind (download_local_folder_as_zip cwd temp) (\<lambda>z. seq (drop_temp temp) (ret z))))"

section \<open>The SFTP storage\<close>

text \<open>\<open>walk\<close> gives each directory below with the names of its files; \<open>remote_content\<close> is what \<^verbatim>\<open>get\<close> copies.\<close>

definition walked :: "(string \<times> string list) list \<Rightarrow> string list" where
  "walked ws = concat (map (\<lambda>(root, names). map (path_join2 root) names) ws)"

definition sftp_delete_directory :: "(string \<Rightarrow> store \<Rightarrow> (string \<times> string list) list) \<Rightarrow> string \<Rightarrow> unit dl" where
  "sftp_delete_directory walk dir =
     bind (query (\<lambda>s. walked (walk dir (remote s)))) (\<lambda>ps. for_each ps (\<lambda>p. on_remote (delete_file p)))"

definition sftp_download_directory ::
  "(string \<Rightarrow> store \<Rightarrow> (string \<times> string list) list) \<Rightarrow> string \<Rightarrow> string \<Rightarrow> string \<Rightarrow> unit dl" where
  "sftp_download_directory walk cwd dir dest =
     bind (query (\<lambda>s. walked (walk dir (remote s)))) (\<lambda>ps.
       for_each ps (\<lambda>p. bind (lift (relpath cwd p dir)) (\<lambda>rel.
         bind (on_remote (open_skip_decrypt p)) (\<lambda>data. write_local (path_join2 dest rel) data))))"

section \<open>The local storage\<close>

definition local_path_of :: "string \<Rightarrow> string \<Rightarrow> exc + string" where
  "local_path_of media name = (case name of [] \<Rightarrow> Inl IndexError | ch # _ \<Rightarrow> Inr (if ch = CHR ''/'' then media @ name else media @ ''/'' @ name))"

definition local_delete_directory :: "string \<Rightarrow> string \<Rightarrow> unit dl" where
  "local_delete_directory media dir = rmtree (normpath (path_join2 media dir))"

text \<open>\<^verbatim>\<open>shutil.copytree\<close> refuses a destination that is there.\<close>

definition local_download_directory :: "string \<Rightarrow> string \<Rightarrow> string \<Rightarrow> string \<Rightarrow> unit dl" where
  "local_download_directory cwd media src dest =
     (let from_dir = normpath (path_join2 media src) in
      bind (query (\<lambda>s. filter (\<lambda>(p, _). below_dir from_dir p) (local_files s))) (\<lambda>fs.
      bind (query (\<lambda>s. list_ex (\<lambda>(p, _). p = normpath dest \<or> below_dir (normpath dest) p) (local_files s))) (\<lambda>there.
        if fs = [] then throw (Raised ''FileNotFoundError'' from_dir)
        else if there then throw (Raised ''FileExistsError'' dest)
        else copy_files cwd from_dir dest fs)))"

definition local_download_directory_as_zip :: "string \<Rightarrow> string \<Rightarrow> string \<Rightarrow> (string \<times> (string, string) dict) dl" where
  "local_download_directory_as_zip cwd media dir = download_local_folder_as_zip cwd (path_join2 media dir)"

section \<open>Paths below a directory\<close>

text \<open>A path of proper names: not empty, no step to here or up.\<close>

definition proper :: "string \<Rightarrow> bool" where
  "proper r \<longleftrightarrow> (\<forall>w \<in> set (split_on (CHR ''/'') r). w \<noteq> [] \<and> w \<noteq> ''.'' \<and> w \<noteq> ''..'')"

lemma split_on_concat: "split_on c (a @ c # b) = split_on c a @ split_on c b"
proof (induction a)
  case (Cons x a)
  obtain w ws where "split_on c a = w # ws" by (meson neq_Nil_conv split_on_nonempty)
  with Cons show ?case by simp
qed simp

lemma norm_comps_append: "norm_comps root acc (xs @ ys) = norm_comps root (norm_comps root acc xs) ys"
  by (induction root acc xs rule: norm_comps.induct) simp_all

lemma norm_comps_proper: "proper r \<Longrightarrow> norm_comps root acc (split_on (CHR ''/'') r) = acc @ split_on (CHR ''/'') r"
proof -
  have "\<forall>w \<in> set ws. w \<noteq> [] \<and> w \<noteq> ''.'' \<and> w \<noteq> ''..'' \<Longrightarrow> norm_comps root acc ws = acc @ ws" for ws
    by (induction ws arbitrary: acc) auto
  then show "proper r \<Longrightarrow> ?thesis" by (simp add: proper_def)
qed

lemma proper_no_empty: "proper r \<Longrightarrow> [] \<notin> set (split_on (CHR ''/'') r)"
  unfolding proper_def by blast

lemma proper_start: "proper r \<Longrightarrow> \<not> startswith r ''/''"
proof
  assume "proper r" "startswith r ''/''"
  then obtain q where "r = CHR ''/'' # q" by (auto simp: startswith_iff)
  then have "[] \<in> set (split_on (CHR ''/'') r)" by simp
  with proper_no_empty [OF \<open>proper r\<close>] show False by blast
qed

lemma proper_end: "proper r \<Longrightarrow> \<not> endswith r ''/''"
proof
  assume "proper r" "endswith r ''/''"
  then obtain q where "r = q @ [CHR ''/'']" by (auto simp: endswith_iff)
  then have "[] \<in> set (split_on (CHR ''/'') r)" using split_on_concat [of "CHR ''/''" q "[]"] by simp
  with proper_no_empty [OF \<open>proper r\<close>] show False by blast
qed

lemma proper_nonempty: "proper r \<Longrightarrow> r \<noteq> []"
proof
  assume "proper r" "r = []"
  then show False using proper_no_empty [of "[]"] by simp
qed

lemma common_length_prefix: "common_length xs (xs @ ys) = length xs"
  by (induction xs) auto

lemma join_append: "xs \<noteq> [] \<Longrightarrow> ys \<noteq> [] \<Longrightarrow> join sep (xs @ ys) = join sep xs @ sep @ join sep ys"
proof (induction sep xs rule: join.induct)
  case (2 sep w)
  then show ?case by (cases ys) simp_all
qed simp_all

text \<open>A directory as the storages are given it, with or without a slash at its end, but not the root.\<close>

definition dir_ok :: "string \<Rightarrow> bool" where
  "dir_ok dir \<longleftrightarrow> dir \<noteq> [] \<and> dir \<noteq> ''/''"

lemma abs_comps_below:
  assumes "dir_ok dir" and "proper r"
  shows "abs_comps cwd (dir_prefix dir @ r) = abs_comps cwd dir @ split_on (CHR ''/'') r"
proof -
  have joined: "path_join2 cwd (e @ x) = path_join2 cwd e @ x" if "e \<noteq> []" for e x
    using that by (cases e) (auto simp: startswith_def)
  have split: "abs_comps cwd (e @ ''/'' @ r) = norm_comps True [] (split_on (CHR ''/'') (path_join2 cwd e)) @ split_on (CHR ''/'') r"
    if "e \<noteq> []" for e
    using joined [OF that, of "''/'' @ r"] assms(2) unfolding abs_comps_def
    by (simp add: split_on_concat norm_comps_append norm_comps_proper del: path_join2.simps)
  show ?thesis
  proof (cases "endswith dir ''/''")
    case True
    then obtain e where e: "dir = e @ ''/''" by (auto simp: endswith_iff)
    then have "e \<noteq> []" using assms(1) by (auto simp: dir_ok_def)
    moreover from joined [OF this, of "''/''"] have "abs_comps cwd dir = norm_comps True [] (split_on (CHR ''/'') (path_join2 cwd e))"
      unfolding abs_comps_def e by (simp add: split_on_concat norm_comps_append del: path_join2.simps)
    ultimately show ?thesis using split True by (simp add: dir_prefix_def e)
  next
    case False
    then show ?thesis using split assms(1) by (simp add: dir_prefix_def dir_ok_def abs_comps_def del: path_join2.simps)
  qed
qed

lemma relpath_below:
  assumes "dir_ok dir" and "proper r"
  shows "relpath cwd (dir_prefix dir @ r) dir = Inr r"
proof -
  have "dir_prefix dir @ r \<noteq> []" using proper_nonempty [OF assms(2)] by simp
  then show ?thesis using abs_comps_below [OF assms, of cwd] join_split_on [of "CHR ''/''" r]
    by (simp add: relpath_def Let_def common_length_prefix)
qed

text \<open>The temporary directory: an absolute path of proper names.\<close>

definition temp_ok :: "string \<Rightarrow> bool" where
  "temp_ok temp \<longleftrightarrow> (\<exists>t. temp = ''/'' @ t \<and> proper t)"

lemma temp_dir: "temp_ok temp \<Longrightarrow> dir_ok temp \<and> \<not> endswith temp ''/'' \<and> normpath temp = temp"
proof -
  assume "temp_ok temp"
  then obtain t where t: "temp = ''/'' @ t" "proper t" by (auto simp: temp_ok_def)
  have "split_on (CHR ''/'') temp = [] # split_on (CHR ''/'') t" by (simp add: t)
  then have "normpath temp = temp" using norm_comps_proper [OF t(2), of True "[]"] by (simp add: normpath_def t startswith_def)
  moreover have "\<not> endswith temp ''/''"
    using proper_end [OF t(2)] proper_nonempty [OF t(2)] by (cases t rule: rev_cases) (auto simp: endswith_iff t)
  ultimately show ?thesis using proper_nonempty [OF t(2)] by (simp add: dir_ok_def t)
qed

lemma temp_path:
  assumes "temp_ok temp" and "proper r"
  shows "normpath (path_join2 temp r) = temp @ ''/'' @ r" and "relpath cwd (temp @ ''/'' @ r) temp = Inr r"
proof -
  obtain t where t: "temp = ''/'' @ t" "proper t" using assms(1) by (auto simp: temp_ok_def)
  have dir: "dir_ok temp" "\<not> endswith temp ''/''" using temp_dir [OF assms(1)] by simp_all
  have "split_on (CHR ''/'') (temp @ ''/'' @ r) = [] # split_on (CHR ''/'') t @ split_on (CHR ''/'') r"
    by (simp add: t split_on_concat)
  moreover have "norm_comps True [] (split_on (CHR ''/'') t @ split_on (CHR ''/'') r) = split_on (CHR ''/'') t @ split_on (CHR ''/'') r"
    by (simp add: norm_comps_append norm_comps_proper [OF t(2)] norm_comps_proper [OF assms(2)])
  moreover have "path_join2 temp r = temp @ ''/'' @ r" using dir proper_start [OF assms(2)] by (simp add: t)
  ultimately show "normpath (path_join2 temp r) = temp @ ''/'' @ r"
    using join_split_on [of "CHR ''/''"] by (simp add: normpath_def join_append t startswith_def del: path_join2.simps)
  show "relpath cwd (temp @ ''/'' @ r) temp = Inr r"
    using relpath_below [OF dir(1) assms(2), of cwd] dir(2) by (simp add: dir_prefix_def)
qed

section \<open>An archive holds the directory\<close>

text \<open>The files of a directory, by their names below it; a bucket with proper names and no sibling that shares the prefix.\<close>

definition rest_of :: "string \<Rightarrow> string \<Rightarrow> string" where
  "rest_of dir k = drop (length (dir_prefix dir)) k"

definition only_below :: "string \<Rightarrow> (string \<times> string) list \<Rightarrow> bool" where
  "only_below dir objs \<longleftrightarrow>
     distinct (map fst objs) \<and> (\<forall>(k, _) \<in> set objs. startswith k (dir_prefix dir) \<and> proper (rest_of dir k))"

lemma key_split: "startswith k (dir_prefix dir) \<Longrightarrow> k = dir_prefix dir @ rest_of dir k"
  by (auto simp: startswith_iff rest_of_def)

definition under_temp :: "string \<Rightarrow> string \<Rightarrow> (string \<times> string) list \<Rightarrow> (string \<times> string) list" where
  "under_temp temp dir objs = map (\<lambda>(k, d). (temp @ ''/'' @ rest_of dir k, d)) objs"

lemma copy_files_run:
  assumes "dir_ok dir" and "temp_ok temp"
  shows "only_below dir objs \<Longrightarrow> fst ` set (under_temp temp dir objs) \<inter> fst ` set (local_files s) = {} \<Longrightarrow>
    copy_files cwd dir temp objs s = (Inr (), s\<lparr>local_files := local_files s @ under_temp temp dir objs\<rparr>)"
proof (induction objs arbitrary: s)
  case Nil
  then show ?case by (simp add: copy_files_def under_temp_def)
next
  case (Cons kd objs)
  obtain k d where kd: "kd = (k, d)" by force
  let ?r = "rest_of dir k" and ?s = "s\<lparr>local_files := local_files s @ [(temp @ ''/'' @ rest_of dir k, d)]\<rparr>"
  have k: "k = dir_prefix dir @ ?r" "proper ?r" using Cons.prems(1) kd key_split [of k dir] by (auto simp: only_below_def)
  have rel: "relpath cwd k dir = Inr ?r" by (subst k(1)) (rule relpath_below [OF assms(1) k(2)])
  have new: "temp @ ''/'' @ ?r \<notin> fst ` set (local_files s)" using Cons.prems(2) kd by (auto simp: under_temp_def)
  have put: "write_local (path_join2 temp ?r) d s = (Inr (), ?s)"
    using new by (simp add: write_local_def temp_path(1) [OF assms(2) k(2)] update_new del: path_join2.simps)
  have below: "only_below dir objs" using Cons.prems(1) by (auto simp: only_below_def)
  have "temp @ ''/'' @ ?r \<notin> fst ` set (under_temp temp dir objs)"
  proof
    assume "temp @ ''/'' @ ?r \<in> fst ` set (under_temp temp dir objs)"
    then obtain k' d' where k': "(k', d') \<in> set objs" "rest_of dir k' = ?r" by (auto simp: under_temp_def)
    then have "k' = k" using Cons.prems(1) k(1) key_split [of k' dir] by (auto simp: only_below_def)
    then show False using k'(1) Cons.prems(1) kd by (force simp: only_below_def)
  qed
  then have "fst ` set (under_temp temp dir objs) \<inter> fst ` set (local_files ?s) = {}"
    using Cons.prems(2) by (auto simp: under_temp_def)
  from Cons.IH [OF below this]
  have "copy_files cwd dir temp objs ?s = (Inr (), ?s\<lparr>local_files := local_files ?s @ under_temp temp dir objs\<rparr>)" .
  then show ?case using rel put
    by (simp add: copy_files_def kd seq_def bind_def under_temp_def del: path_join2.simps)
qed

lemma map_each_run:
  assumes "\<And>x. x \<in> set xs \<Longrightarrow> f x s = (Inr (g x), s)"
  shows "map_each f xs s = (Inr (map g xs), s)"
  using assms by (induction xs) (simp_all add: bind_def)

lemma zip_under_temp:
  assumes "temp_ok temp" and "only_below dir objs" and "local_files s = before @ under_temp temp dir objs"
    and "\<forall>(p, _) \<in> set before. \<not> below_dir temp p"
  shows "download_local_folder_as_zip cwd temp s = (Inr (temp @ ''.zip'', map (\<lambda>(k, d). (rest_of dir k, d)) objs), s)"
proof -
  have inside: "below_dir temp p" if "(p, d) \<in> set (under_temp temp dir objs)" for p d
    using that by (auto simp: under_temp_def below_dir_def startswith_iff)
  then have "filter (\<lambda>(p, _). below_dir temp p) (under_temp temp dir objs) = under_temp temp dir objs"
    by (auto simp: filter_id_conv)
  moreover have "filter (\<lambda>(p, _). below_dir temp p) before = []" using assms(4) by (auto simp: filter_empty_conv)
  ultimately have "filter (\<lambda>(p, _). below_dir (normpath temp) p) (local_files s) = under_temp temp dir objs"
    using temp_dir [OF assms(1)] assms(3) by simp
  moreover have "map_each (\<lambda>(p, data). bind (lift (relpath cwd p temp)) (\<lambda>rel. ret (rel, data))) (under_temp temp dir objs) s =
      (Inr (map (\<lambda>(p, d). (drop (length temp + 1) p, d)) (under_temp temp dir objs)), s)"
  proof (rule map_each_run)
    fix x assume "x \<in> set (under_temp temp dir objs)"
    then obtain k d where x: "x = (temp @ ''/'' @ rest_of dir k, d)" and "(k, d) \<in> set objs" by (auto simp: under_temp_def)
    then have "proper (rest_of dir k)" using assms(2) by (auto simp: only_below_def)
    from temp_path(2) [OF assms(1) this, of cwd]
    show "(case x of (p, data) \<Rightarrow> bind (lift (relpath cwd p temp)) (\<lambda>rel. ret (rel, data))) s =
        (Inr (case x of (p, d) \<Rightarrow> (drop (length temp + 1) p, d)), s)" by (simp add: x bind_def)
  qed
  moreover have "map (\<lambda>(p, d). (drop (length temp + 1) p, d)) (under_temp temp dir objs) = map (\<lambda>(k, d). (rest_of dir k, d)) objs"
    by (simp add: under_temp_def case_prod_beta')
  ultimately show ?thesis by (simp add: download_local_folder_as_zip_def bind_def)
qed


definition sample_bucket :: machine where
  "sample_bucket = \<lparr>remote = \<lparr>files = [(''space0/a/x.txt'', ''1''), (''space0/b'', ''2''), (''space0/a/c/y'', ''3'')], draws = 0\<rparr>,
     local_files = [(''/tmp/other'', ''4'')]\<rparr>"


text \<open>
  Without the slash at the end, a sibling that shares the prefix is taken for a part of the directory:
  it is written beside the temporary directory, is missing in the archive and stays on the disk.
\<close>

lemma sibling_escapes:
  "s3_download_directory_as_zip ''/app'' ''/tmp/t1'' ''space0/a'' \<lparr>remote = \<lparr>files = [(''space0/ab/x'', ''1'')], draws = 0\<rparr>, local_files = []\<rparr> =
     (Inr (''/tmp/t1.zip'', []), \<lparr>remote = \<lparr>files = [(''space0/ab/x'', ''1'')], draws = 0\<rparr>, local_files = [(''/tmp/ab/x'', ''1'')]\<rparr>)"
  by code_simp

text \<open>
  A directory whose name begins with a slash is read under \<^verbatim>\<open>MEDIA_ROOT\<close> but deleted from the root
  of the disk.
\<close>

lemma rooted_directory_leaves_media:
  "local_path_of ''/var/media'' ''/etc'' = Inr ''/var/media/etc''"
  "local_delete_directory ''/var/media'' ''/etc'' \<lparr>remote = r, local_files = [(''/etc/passwd'', x), (''/var/media/etc/y'', z)]\<rparr> =
     (Inr (), \<lparr>remote = r, local_files = [(''/var/media/etc/y'', z)]\<rparr>)"
proof -
  have "normpath ''/etc'' = ''/etc''" by code_simp
  then show "local_delete_directory ''/var/media'' ''/etc'' \<lparr>remote = r, local_files = [(''/etc/passwd'', x), (''/var/media/etc/y'', z)]\<rparr> =
      (Inr (), \<lparr>remote = r, local_files = [(''/var/media/etc/y'', z)]\<rparr>)"
    by (simp add: local_delete_directory_def rmtree_def bind_def below_dir_def startswith_def)
qed (simp add: local_path_of_def)

lemma delete_each_run:
  "for_each ks (\<lambda>k. on_remote (delete_file k)) s =
     (Inr (), s\<lparr>remote := (remote s)\<lparr>files := filter (\<lambda>(n, _). n \<notin> set ks) (files (remote s))\<rparr>\<rparr>)"
proof (induction ks arbitrary: s)
  case (Cons k ks)
  have "on_remote (delete_file k) s = (Inr (), s\<lparr>remote := (remote s)\<lparr>files := filter (\<lambda>(n, _). n \<noteq> k) (files (remote s))\<rparr>\<rparr>)"
    by (simp add: on_remote_def delete_file_def modify_def)
  with Cons show ?case by (simp add: seq_def bind_def) (simp add: case_prod_beta')
qed simp

text \<open>The three remote storages delete the same: all that begins with the path, or all the walk finds.\<close>

lemma azure_deletes_prefix:
  "azure_delete_directory dir s = on_remote (delete_directory dir) s"
proof -
  let ?ks = "map fst (filter (\<lambda>(k, _). startswith k dir) (files (remote s)))"
  have loop: "for_each xs (\<lambda>(k, _). on_remote (delete_file k)) = for_each (map fst xs) (\<lambda>k. on_remote (delete_file k))"
    for xs :: "(string \<times> string) list" by (induction xs) (simp_all add: case_prod_beta')
  have "filter (\<lambda>(n, _). n \<notin> set ?ks) (files (remote s)) = filter (\<lambda>(n, _). \<not> startswith n dir) (files (remote s))"
    by (rule filter_cong) (auto simp: image_iff)
  then show ?thesis
    by (simp add: azure_delete_directory_def list_prefix_def bind_def loop delete_each_run on_remote_def delete_directory_def modify_def)
qed

lemma sftp_deletes_walked:
  "sftp_delete_directory walk dir s =
     (Inr (), s\<lparr>remote := (remote s)\<lparr>files := filter (\<lambda>(n, _). n \<notin> set (walked (walk dir (remote s)))) (files (remote s))\<rparr>\<rparr>)"
  by (simp add: sftp_delete_directory_def bind_def delete_each_run)

lemma azure_downloads_like_s3: "azure_download_directory cwd dir dest s = download_directory cwd dir dest s"
  by (simp add: azure_download_directory_def download_directory_def list_prefix_def copy_files_def bind_def conj_absorb case_prod_beta')

end
