(* ===== verification/UserModules.thy ===== *)
theory UserModules
  imports Storage
begin

text \<open>
  Python modules of user code: \<^verbatim>\<open>SystemWorkflowManager.import_user_tasks\<close> of \<^verbatim>\<open>workflow/system.py\<close>, the two
  imports of \<^verbatim>\<open>finmars.Utils\<close>, and how a process gets its manager (\<^verbatim>\<open>get_system_workflow_manager\<close>,
  \<^verbatim>\<open>WorkflowConfig.ready\<close>).  Running the text of a module is a parameter.
\<close>

section \<open>Paths of modules\<close>

text \<open>\<^verbatim>\<open>os.path.split\<close> and \<^verbatim>\<open>os.path.splitext\<close> of a file name\<close>

definition file_of_path :: "string \<Rightarrow> string" where
  "file_of_path p = last (split_on (CHR ''/'') p)"

text \<open>Leading dots do not start an extension.\<close>

definition stem :: "string \<Rightarrow> string" where
  "stem f =
     (let body = dropWhile (\<lambda>c. c = CHR ''.'') f; dots = takeWhile (\<lambda>c. c = CHR ''.'') f
      in if CHR ''.'' \<in> set body then dots @ hd (rsplit1 (CHR ''.'') body) else f)"

text \<open>\<^verbatim>\<open>Path.glob\<close>: \<^verbatim>\<open>**\<close> stands for any number of directories, every other part for one name.\<close>

fun glob_match :: "string list \<Rightarrow> string list \<Rightarrow> bool" where
  "glob_match [] [] = True"
| "glob_match [] (c # cs) = False"
| "glob_match (p # ps) [] = (p = ''**'' \<and> glob_match ps [])"
| "glob_match (p # ps) (c # cs) =
     (if p = ''**'' then glob_match ps (c # cs) \<or> glob_match (p # ps) cs else fnmatch c p \<and> glob_match ps cs)"

definition glob :: "string \<Rightarrow> string \<Rightarrow> string list \<Rightarrow> string list" where
  "glob folder pattern names =
     [f \<leftarrow> names. startswith f (folder @ ''/'') \<and>
        glob_match (split_on (CHR ''/'') pattern) (split_on (CHR ''/'') (drop (length folder + 1) f))]"

text \<open>\<^verbatim>\<open>str(task.relative_to(folder)).replace("/", ".").rsplit(".", 1)[0]\<close>\<close>

definition module_name_of :: "string \<Rightarrow> string \<Rightarrow> string" where
  "module_name_of folder f = hd (rsplit1 (CHR ''.'') (replace_char (CHR ''/'') (CHR ''.'') (drop (length folder + 1) f)))"

section \<open>Loading\<close>

text \<open>
  The modules of the process by name, with the file each was read from, and the function that
  \<^verbatim>\<open>workflow/api.py\<close> remembers, with the arguments it is bound to.
\<close>

record interpreter =
  sys_modules :: "(string, string) dict"
  registered :: "(string \<times> (string, json) dict) option"

type_synonym 'a py = "(interpreter, 'a) comp"

text \<open>
  The loop of \<^verbatim>\<open>import_user_tasks\<close>: a module is entered into \<^verbatim>\<open>sys.modules\<close> before it runs, and stays
  there when it raises.
\<close>

definition import_task :: "(string \<Rightarrow> unit py) \<Rightarrow> bool \<Rightarrow> string \<Rightarrow> string \<Rightarrow> unit py" where
  "import_task exec_module raise_exception folder f =
     (if stem (file_of_path f) = ''__init__'' then ret ()
      else
        (let name = module_name_of folder f in
         catch
           (seq (modify (\<lambda>i. i\<lparr>sys_modules := AList.update name f (sys_modules i)\<rparr>)) (exec_module f))
           (\<lambda>e. if raise_exception then throw e else ret ())))"

definition user_folder :: "string \<Rightarrow> string \<Rightarrow> string" where
  "user_folder root space = construct_path [root, ''local'', space, ''workflows'']"

definition import_user_tasks ::
  "(string \<Rightarrow> unit py) \<Rightarrow> string \<Rightarrow> string option \<Rightarrow> string list \<Rightarrow> string \<Rightarrow> bool \<Rightarrow> unit py" where
  "import_user_tasks exec_module root space names workflow_path raise_exception =
     (case space of
        None \<Rightarrow> throw AttributeError
      | Some code \<Rightarrow>
          (let folder = normpath (user_folder root code) in
           for_each (glob folder (workflow_path @ ''/*.py'') names) (import_task exec_module raise_exception folder)))"

text \<open>\<^verbatim>\<open>Utils.import_from_storage\<close> and \<^verbatim>\<open>relative_import_from_storage\<close>: the name of the module and its file.\<close>

definition import_from_storage :: "string \<Rightarrow> string option \<Rightarrow> string \<Rightarrow> exc + string \<times> string" where
  "import_from_storage root space file_path =
     (case file_path of
        [] \<Rightarrow> Inl IndexError
      | ch # _ \<Rightarrow>
          rbind (or_raise space AttributeError) (\<lambda>code.
            let p = (if ch = CHR ''/'' then root @ ''/tasks/'' @ code @ file_path else root @ ''/tasks/'' @ code @ ''/'' @ file_path)
            in Inr (stem (file_of_path p), p)))"

definition relative_import_from_storage :: "string \<Rightarrow> string \<Rightarrow> string \<times> string" where
  "relative_import_from_storage file_path base_path =
     (let p = normpath (path_join2 base_path file_path) in (stem (file_of_path p), p))"

text \<open>\<^verbatim>\<open>loader.load_module()\<close>: the module is removed again when it raises on its first load.\<close>

definition load_module :: "(string \<Rightarrow> unit py) \<Rightarrow> string \<times> string \<Rightarrow> string py" where
  "load_module exec_module nf =
     (case nf of (name, f) \<Rightarrow>
        bind (query (\<lambda>i. map_of (sys_modules i) name)) (\<lambda>old.
        seq (modify (\<lambda>i. i\<lparr>sys_modules := AList.update name f (sys_modules i)\<rparr>))
        (seq (catch (exec_module f)
                (\<lambda>e. seq (if old = None then modify (\<lambda>i. i\<lparr>sys_modules := AList.delete name (sys_modules i)\<rparr>) else ret ()) (throw e)))
          (ret name))))"

section \<open>Registered tasks\<close>

text \<open>\<^verbatim>\<open>workflow/api.py\<close>: one function is remembered, the last one that was decorated.\<close>

definition get_registered_task :: "(string \<times> (string, json) dict) option py" where
  "get_registered_task = query registered"

definition clear_registered_task :: "unit py" where
  "clear_registered_task = modify (\<lambda>i. i\<lparr>registered := None\<rparr>)"

text \<open>
  The decorator binds the function to the arguments it was given itself, before it puts the prefixed
  name and the base class among them.
\<close>

definition task_decorator :: "string option \<Rightarrow> string \<Rightarrow> (string, json) dict \<Rightarrow> (string, json) dict py" where
  "task_decorator space func kw =
     bind (lift (or_raise space AttributeError)) (\<lambda>code.
       let original = (case map_of kw ''name'' of None \<Rightarrow> func | Some (JStr n) \<Rightarrow> n | Some v \<Rightarrow> dumps_plain v) in
       seq (modify (\<lambda>i. i\<lparr>registered := Some (func, kw)\<rparr>))
         (ret (AList.update ''base'' (JStr ''BaseTask'') (AList.update ''name'' (JStr (code @ ''.'' @ original)) kw))))"

text \<open>
  \<^verbatim>\<open>execute_workflow_step\<close> from \<^verbatim>\<open>clear_registered_task\<close> on: the modules of the step's directory are
  imported and the remembered function is taken.
\<close>

definition function_of_step ::
  "(string \<Rightarrow> unit py) \<Rightarrow> string \<Rightarrow> string option \<Rightarrow> string list \<Rightarrow> string \<Rightarrow> string \<Rightarrow> (string \<times> (string, json) dict) py" where
  "function_of_step exec_module root space names module_path step_name =
     seq clear_registered_task
     (seq (import_user_tasks exec_module root space names module_path True)
     (bind get_registered_task (\<lambda>f.
        case f of
          None \<Rightarrow> throw (Raised ''Exception'' (''no function to execute for '' @ step_name))
        | Some g \<Rightarrow> ret g)))"

section \<open>The manager of a process\<close>

definition get_system_workflow_manager :: "string list \<Rightarrow> 'm \<Rightarrow> 'm option \<Rightarrow> 'm option \<times> 'm option" where
  "get_system_workflow_manager argv new current =
     (if ''makemigrations'' \<in> set argv \<or> ''migrate'' \<in> set argv then (None, current)
      else (case current of None \<Rightarrow> (Some new, Some new) | Some m \<Rightarrow> (Some m, Some m)))"

text \<open>\<^verbatim>\<open>WorkflowConfig.ready\<close>: whether the definitions are registered at the start of the process.\<close>

definition registers_at_start :: "string list \<Rightarrow> bool" where
  "registers_at_start argv \<longleftrightarrow>
     \<not> (''makemigrations'' \<in> set argv \<or> ''migrate'' \<in> set argv \<or> ''migrate_all_schemes'' \<in> set argv)"

definition special_commands :: "string list" where
  "special_commands =
     [''test'', ''makemigrations'', ''migrate'', ''migrate_all_schemes'', ''clearsessions'', ''collectstatic'',
      ''sync_remote_storage_to_local_storage_all_spaces'']"

definition is_special_execution_context :: "string list \<Rightarrow> bool" where
  "is_special_execution_context argv \<longleftrightarrow> list_ex (\<lambda>c. c \<in> set argv) special_commands"

section \<open>Helpers for user code\<close>

text \<open>\<^verbatim>\<open>finmars.Storage.listdir\<close>: a path without a leading slash is glued to the code of the space.\<close>

definition finmars_listdir :: "string \<Rightarrow> string \<Rightarrow> (string list \<times> string list) fs" where
  "finmars_listdir base p = listdir (''/'' @ base @ p)"

text \<open>\<^verbatim>\<open>Utils.get_yesterday\<close>: the module \<^verbatim>\<open>datetime\<close> has no \<^verbatim>\<open>now\<close>.\<close>

definition get_yesterday :: "exc + int" where
  "get_yesterday = Inl AttributeError"

section \<open>What is loaded\<close>

lemma import_quiet: "\<exists>t. import_task exec_module False folder f i = (Inr (), t)"
  by (cases "stem (file_of_path f) = ''__init__''"; cases "exec_module f (i\<lparr>sys_modules := AList.update (module_name_of folder f) f (sys_modules i)\<rparr>)")
    (auto simp: import_task_def Let_def catch_def seq_def bind_def split: sum.splits)

text \<open>Without \<^verbatim>\<open>raise_exception\<close> no module of the user stops the import.\<close>

lemma import_ends: "\<exists>t. import_user_tasks exec_module root (Some code) names p False i = (Inr (), t)"
proof -
  have "\<exists>t. for_each fs (import_task exec_module False folder) i = (Inr (), t)" for fs folder
  proof (induction fs arbitrary: i)
    case (Cons f fs)
    obtain t where "import_task exec_module False folder f i = (Inr (), t)" using import_quiet by blast
    moreover obtain u where "for_each fs (import_task exec_module False folder) t = (Inr (), u)" using Cons by blast
    ultimately show ?case by (simp add: seq_def bind_def)
  qed simp
  then show ?thesis by (simp add: import_user_tasks_def Let_def)
qed

text \<open>
  With it, the first module that raises ends the import; the modules after it are not
  loaded, and its own entry stays although its code did not run to the end.
\<close>

lemma import_stops:
  assumes "stem (file_of_path f) \<noteq> ''__init__''"
    and "exec_module f (i\<lparr>sys_modules := AList.update (module_name_of folder f) f (sys_modules i)\<rparr>) = (Inl e, t)"
  shows "for_each (f # fs) (import_task exec_module True folder) i = (Inl e, t)"
  using assms by (simp add: import_task_def Let_def catch_def seq_def bind_def)

text \<open>A dot in the name of a file does for a directory: two files give one module.\<close>

lemma modules_collide: "module_name_of ''/w'' ''/w/a/b.py'' = module_name_of ''/w'' ''/w/a.b.py''"
  by code_simp

lemma glob_below: "f \<in> set (glob folder pattern names) \<Longrightarrow> f \<in> set names \<and> startswith f (folder @ ''/'')"
  by (simp add: glob_def)

text \<open>A module that fails to load leaves no entry of its own.\<close>

lemma failed_load_is_removed:
  assumes "map_of (sys_modules i) name = None" and "\<And>j. \<exists>e. exec_module f j = (Inl e, j)"
  shows "\<exists>e t. load_module exec_module (name, f) i = (Inl e, t) \<and> map_of (sys_modules t) = map_of (sys_modules i)"
proof -
  obtain e where "exec_module f (i\<lparr>sys_modules := AList.update name f (sys_modules i)\<rparr>) = (Inl e, i\<lparr>sys_modules := AList.update name f (sys_modules i)\<rparr>)"
    using assms(2) by blast
  then show ?thesis using assms(1)
    by (simp add: load_module_def catch_def seq_def bind_def throw_def update_conv' delete_conv' fun_upd_idem)
qed

section \<open>Which function a step runs\<close>

text \<open>A module as far as it matters here: the functions it decorates, in order.\<close>

definition decorates :: "string option \<Rightarrow> (string \<Rightarrow> (string \<times> (string, json) dict) list) \<Rightarrow> string \<Rightarrow> unit py" where
  "decorates space tasks_in f = for_each (tasks_in f) (\<lambda>(func, kw). seq (task_decorator space func kw) (ret ()))"

definition last_of :: "'a list \<Rightarrow> 'a option \<Rightarrow> 'a option" where
  "last_of xs before = (if xs = [] then before else Some (last xs))"

lemma last_of_append: "last_of (xs @ ys) before = last_of ys (last_of xs before)"
  by (simp add: last_of_def)

lemma decorates_run: "decorates (Some code) tasks_in f i = (Inr (), i\<lparr>registered := last_of (tasks_in f) (registered i)\<rparr>)"
proof -
  have "for_each ts (\<lambda>(func, kw). seq (task_decorator (Some code) func kw) (ret ())) i =
      (Inr (), i\<lparr>registered := last_of ts (registered i)\<rparr>)" for ts
  proof (induction ts arbitrary: i)
    case (Cons t ts)
    then show ?case by (cases t) (simp add: task_decorator_def seq_def bind_def Let_def or_raise_def last_of_def)
  qed (simp add: last_of_def)
  then show ?thesis by (simp add: decorates_def)
qed

definition loaded :: "string list \<Rightarrow> string list" where
  "loaded fs = [f \<leftarrow> fs. stem (file_of_path f) \<noteq> ''__init__'']"

lemma import_registers:
  "\<exists>t. for_each fs (import_task (decorates (Some code) tasks_in) True folder) i = (Inr (), t) \<and>
     registered t = last_of (concat (map tasks_in (loaded fs))) (registered i)"
proof (induction fs arbitrary: i)
  case Nil
  then show ?case by (simp add: loaded_def last_of_def)
next
  case (Cons f fs)
  obtain j where one: "import_task (decorates (Some code) tasks_in) True folder f i = (Inr (), j)"
    and reg: "registered j = last_of (concat (map tasks_in (loaded [f]))) (registered i)"
    by (cases "stem (file_of_path f) = ''__init__''")
      (auto simp: import_task_def loaded_def Let_def catch_def seq_def bind_def decorates_run last_of_def)
  obtain t where "for_each fs (import_task (decorates (Some code) tasks_in) True folder) j = (Inr (), t)"
    and "registered t = last_of (concat (map tasks_in (loaded fs))) (registered j)" using Cons by blast
  with one reg show ?case by (auto simp: seq_def bind_def loaded_def last_of_append [symmetric])
qed

text \<open>
  C18: the function a step of version 1 runs is the last one decorated in the last module of the step's
  directory that decorates any, in the order the directory is listed in, whatever the name
  of the step and whatever ran before; without one the step raises.
\<close>

theorem step_runs_last_registered:
  assumes "fs = concat (map tasks_in (loaded (glob (normpath (user_folder root code)) (module_path @ ''/*.py'') names)))"
  shows "fst (function_of_step (decorates (Some code) tasks_in) root (Some code) names module_path step_name i) =
    (if fs = [] then Inl (Raised ''Exception'' (''no function to execute for '' @ step_name)) else Inr (last fs))"
proof -
  let ?files = "glob (normpath (user_folder root code)) (module_path @ ''/*.py'') names"
  obtain t where run: "for_each ?files (import_task (decorates (Some code) tasks_in) True (normpath (user_folder root code)))
      (i\<lparr>registered := None\<rparr>) = (Inr (), t)" and reg: "registered t = last_of fs None"
    using import_registers [of ?files code tasks_in _ "i\<lparr>registered := None\<rparr>"] unfolding assms by auto
  then show ?thesis
    by (simp add: function_of_step_def clear_registered_task_def get_registered_task_def import_user_tasks_def Let_def
        seq_def bind_def last_of_def)
qed

theorem step_runs_last_registered_witness:
  "fst (function_of_step (decorates (Some ''s'') (\<lambda>f. [(stem (file_of_path f), [])])) ''/r'' (Some ''s'')
     [''/r/local/s/workflows/a/task.py'', ''/r/local/s/workflows/a/helper.py'', ''/r/local/s/workflows/b/other.py''] ''a'' ''a.task''
     \<lparr>sys_modules = [], registered = None\<rparr>) = Inr (''helper'', [])"
proof -
  have "glob (normpath (user_folder ''/r'' ''s'')) (''a'' @ ''/*.py'')
      [''/r/local/s/workflows/a/task.py'', ''/r/local/s/workflows/a/helper.py'', ''/r/local/s/workflows/b/other.py'']
    = [''/r/local/s/workflows/a/task.py'', ''/r/local/s/workflows/a/helper.py'']" by code_simp
  moreover have "concat (map (\<lambda>f. [(stem (file_of_path f), [] :: (string, json) dict)])
      (loaded [''/r/local/s/workflows/a/task.py'', ''/r/local/s/workflows/a/helper.py''])) = [(''task'', []), (''helper'', [])]" by code_simp
  ultimately show ?thesis using step_runs_last_registered [OF refl, where tasks_in = "\<lambda>f. [(stem (file_of_path f), [])]" and root = "''/r''" and code = "''s''"
      and module_path = "''a''" and names = "[''/r/local/s/workflows/a/task.py'', ''/r/local/s/workflows/a/helper.py'', ''/r/local/s/workflows/b/other.py'']"] by simp
qed

end
