(* ===== verification/Migrations.thy ===== *)
theory Migrations
  imports Scheduling
begin

text \<open>
  The two migrations of \<^verbatim>\<open>workflow/migrations/\<close> that run code: \<^verbatim>\<open>0020\<close> deletes repeated templates, with
  everything that hangs on them, and \<^verbatim>\<open>0022\<close> enters the daily export into the tables of beat.
\<close>

section \<open>Repeated templates\<close>

text \<open>
  \<^verbatim>\<open>row.delete()\<close> of a template: its workflows go with it (\<^verbatim>\<open>on_delete=CASCADE\<close> in \<^verbatim>\<open>0008\<close>), and with
  each of them its tasks.
\<close>

definition delete_template :: "nat \<Rightarrow> schema_db \<Rightarrow> schema_db" where
  "delete_template i d =
     (let d1 = foldl (\<lambda>e j. delete_workflow j e) d (map wf_id (filter (\<lambda>w. workflow_template w = Some i) (workflows d)))
      in d1\<lparr>templates := filter (\<lambda>tp. tp_id tp \<noteq> i) (templates d1)\<rparr>)"

definition template_group :: "template_row \<Rightarrow> string option \<times> nat" where
  "template_group tp = (tp_user_code tp, tp_space tp)"

text \<open>The groups of user code and space with more than one row.\<close>

definition duplicates :: "schema_db \<Rightarrow> (string option \<times> nat) list" where
  "duplicates d = [g \<leftarrow> remdups (map template_group (templates d)). 1 < length [tp \<leftarrow> templates d. template_group tp = g]]"

text \<open>\<open>newest_first\<close> is the database's ordering by \<^verbatim>\<open>-created_at\<close>.\<close>

definition remove_group :: "(template_row list \<Rightarrow> template_row list) \<Rightarrow> string option \<times> nat \<Rightarrow> unit io" where
  "remove_group newest_first g =
     bind (db_query (\<lambda>d. Inr (newest_first [tp \<leftarrow> templates d. template_group tp = g]))) (\<lambda>rows.
       for_each (drop 1 rows) (\<lambda>tp. db_update (delete_template (tp_id tp))))"

definition remove_duplicates :: "(template_row list \<Rightarrow> template_row list) \<Rightarrow> unit io" where
  "remove_duplicates newest_first =
     bind (db_query (\<lambda>d. Inr (duplicates d))) (\<lambda>gs. for_each gs (remove_group newest_first))"

definition orders_newest_first :: "(template_row list \<Rightarrow> template_row list) \<Rightarrow> bool" where
  "orders_newest_first f \<longleftrightarrow>
     (\<forall>xs. mset (f xs) = mset xs \<and> sorted_wrt (\<lambda>a b. tp_created_at b \<le> tp_created_at a) (f xs))"

text \<open>What a deletion leaves: templates, the workflows with their templates, tasks.\<close>

definition refs :: "schema_db \<Rightarrow> (nat \<times> nat option) list" where
  "refs d = map (\<lambda>w. (wf_id w, workflow_template w)) (workflows d)"

lemma delete_workflows_left:
  "templates (foldl (\<lambda>e j. delete_workflow j e) d js) = templates d"
  "refs (foldl (\<lambda>e j. delete_workflow j e) d js) = filter (\<lambda>p. fst p \<notin> set js) (refs d)"
  "tasks (foldl (\<lambda>e j. delete_workflow j e) d js) = filter (\<lambda>t. task_workflow t \<notin> set js) (tasks d)"
proof (induction js arbitrary: d)
  case (Cons j js)
  have one: "templates (delete_workflow j d) = templates d" "refs (delete_workflow j d) = filter (\<lambda>p. fst p \<noteq> j) (refs d)"
    "tasks (delete_workflow j d) = filter (\<lambda>t. task_workflow t \<noteq> j) (tasks d)" for d
    by (simp_all add: delete_workflow_def refs_def filter_map comp_def if_distrib [of wf_id] if_distrib [of workflow_template] cong: if_cong)
  { case 1 show ?case using Cons one by simp }
  { case 2 show ?case using Cons one by (simp add: conj_commute) }
  { case 3 show ?case using Cons one by (simp add: conj_commute) }
qed simp_all

definition fallen :: "nat set \<Rightarrow> schema_db \<Rightarrow> nat set" where
  "fallen X d = {j. \<exists>i \<in> X. (j, Some i) \<in> set (refs d)}"

lemma delete_template_left:
  assumes "distinct (map fst (refs d))"
  shows "templates (delete_template i d) = filter (\<lambda>tp. tp_id tp \<noteq> i) (templates d)"
    and "refs (delete_template i d) = filter (\<lambda>p. snd p \<noteq> Some i) (refs d)"
    and "tasks (delete_template i d) = filter (\<lambda>t. task_workflow t \<notin> fallen {i} d) (tasks d)"
proof -
  let ?js = "map wf_id (filter (\<lambda>w. workflow_template w = Some i) (workflows d))"
  have js: "set ?js = fallen {i} d" by (auto simp: fallen_def refs_def)
  have left: "templates (delete_template i d) = filter (\<lambda>tp. tp_id tp \<noteq> i) (templates d)"
    "refs (delete_template i d) = filter (\<lambda>p. fst p \<notin> set ?js) (refs d)"
    "tasks (delete_template i d) = filter (\<lambda>t. task_workflow t \<notin> set ?js) (tasks d)"
    using delete_workflows_left [of d ?js] by (simp_all add: delete_template_def Let_def refs_def)
  show "templates (delete_template i d) = filter (\<lambda>tp. tp_id tp \<noteq> i) (templates d)" by (rule left)
  show "tasks (delete_template i d) = filter (\<lambda>t. task_workflow t \<notin> fallen {i} d) (tasks d)" using left(3) js by simp
  have "fst p \<in> fallen {i} d \<longleftrightarrow> snd p = Some i" if "p \<in> set (refs d)" for p
  proof (cases p)
    case (Pair j t)
    then have "(j, Some i) \<in> set (refs d) \<longleftrightarrow> t = Some i" using that eq_key_imp_eq_value [OF assms, of j t "Some i"] by blast
    with Pair show ?thesis by (simp add: fallen_def)
  qed
  then show "refs (delete_template i d) = filter (\<lambda>p. snd p \<noteq> Some i) (refs d)"
    using left(2) js by (simp cong: filter_cong)
qed

lemma delete_templates_left:
  assumes "distinct (map fst (refs d))"
  shows "templates (foldl (\<lambda>e i. delete_template i e) d is) = filter (\<lambda>tp. tp_id tp \<notin> set is) (templates d)"
    and "refs (foldl (\<lambda>e i. delete_template i e) d is) = filter (\<lambda>p. snd p \<notin> Some ` set is) (refs d)"
    and "tasks (foldl (\<lambda>e i. delete_template i e) d is) = filter (\<lambda>t. task_workflow t \<notin> fallen (set is) d) (tasks d)"
  using assms
proof (induction "is" arbitrary: d)
  case (Cons i "is")
  note one = delete_template_left [of _ i]
  have dist: "distinct (map fst (refs (delete_template i d)))" if "distinct (map fst (refs d))" for d
    using that one(2) by (simp add: distinct_map_filter)
  have fall: "fallen (set (i # is)) d = fallen {i} d \<union> fallen (set is) (delete_template i d)" if "distinct (map fst (refs d))" for d
    using one(2) [OF that] by (auto simp: fallen_def)
  { case 1 show ?case using Cons(1) [OF dist] one 1 by (simp add: conj_commute) }
  { case 2 show ?case using Cons(2) [OF dist] one 2 by (auto intro: filter_cong) }
  { case 3 show ?case using Cons(3) [OF dist] one 3 fall by (simp add: conj_commute) }
qed (simp_all add: fallen_def)

lemma delete_templates_run:
  assumes "cur_db s = Some d"
  shows "for_each tps (\<lambda>tp. db_update (delete_template (tp_id tp))) s =
    (Inr (), if tps = [] then s else in_schema (\<lambda>d. foldl (\<lambda>e i. delete_template i e) d (map tp_id tps)) d s)"
  using assms
proof (induction tps arbitrary: s d)
  case (Cons tp tps)
  have "cur_db (in_schema (delete_template (tp_id tp)) d s) = Some (delete_template (tp_id tp) d)" by simp
  from Cons.IH [OF this] show ?case using Cons.prems
    by (simp add: seq_def bind_def db_update_def in_schema_def [symmetric] comp_def)
qed simp

text \<open>The rows of the groups \<open>gs\<close> that are deleted.\<close>

definition repeated :: "(template_row list \<Rightarrow> template_row list) \<Rightarrow> (string option \<times> nat) list \<Rightarrow> schema_db \<Rightarrow> nat list" where
  "repeated f gs d = concat (map (\<lambda>g. map tp_id (drop 1 (f [tp \<leftarrow> templates d. template_group tp = g]))) gs)"

lemma repeated_group:
  assumes "orders_newest_first f" and "i \<in> set (repeated f [g] d)"
  shows "\<exists>tp \<in> set (templates d). tp_id tp = i \<and> template_group tp = g"
proof -
  let ?xs = "[tp \<leftarrow> templates d. template_group tp = g]"
  have "set (drop 1 (f ?xs)) \<subseteq> set ?xs"
    using assms(1) set_drop_subset [of 1 "f ?xs"] mset_eq_setD [of "f ?xs" ?xs] by (auto simp: orders_newest_first_def)
  with assms(2) show ?thesis by (auto simp: repeated_def)
qed

lemma repeated_elsewhere:
  assumes "orders_newest_first f" and "distinct (map tp_id (templates d))" and "distinct (map fst (refs d))" and "g \<notin> set gs"
  shows "repeated f gs (foldl (\<lambda>e i. delete_template i e) d (repeated f [g] d)) = repeated f gs d"
proof -
  have "[tp \<leftarrow> templates (foldl (\<lambda>e i. delete_template i e) d (repeated f [g] d)). template_group tp = h] =
      [tp \<leftarrow> templates d. template_group tp = h]" if "h \<in> set gs" for h
  proof -
    have "tp_id tp \<notin> set (repeated f [g] d)" if tp: "tp \<in> set (templates d)" "template_group tp = h" for tp
    proof
      assume "tp_id tp \<in> set (repeated f [g] d)"
      from repeated_group [OF assms(1) this] obtain tp' where "tp' \<in> set (templates d)" "tp_id tp' = tp_id tp" "template_group tp' = g"
        by blast
      with tp assms(2,4) \<open>h \<in> set gs\<close> show False by (metis (no_types, lifting) distinct_map inj_on_def)
    qed
    then show ?thesis by (auto simp: delete_templates_left(1) [OF assms(3)] intro!: filter_cong)
  qed
  then show ?thesis by (simp add: repeated_def cong: map_cong)
qed

lemma remove_groups_run:
  assumes "orders_newest_first f" and "distinct gs"
  shows "cur_db s = Some d \<Longrightarrow> distinct (map tp_id (templates d)) \<Longrightarrow> distinct (map fst (refs d)) \<Longrightarrow>
    \<exists>t. for_each gs (remove_group f) s = (Inr (), t) \<and>
      cur_db t = Some (foldl (\<lambda>e i. delete_template i e) d (repeated f gs d))"
  using assms(2)
proof (induction gs arbitrary: s d)
  case (Cons g gs)
  let ?rows = "drop 1 (f [tp \<leftarrow> templates d. template_group tp = g])"
  let ?d = "foldl (\<lambda>e i. delete_template i e) d (repeated f [g] d)"
  obtain s1 where run: "for_each ?rows (\<lambda>tp. db_update (delete_template (tp_id tp))) s = (Inr (), s1)" and db: "cur_db s1 = Some ?d"
    using delete_templates_run [OF Cons.prems(1), of ?rows] Cons.prems(1) by (cases "?rows = []") (auto simp: repeated_def)
  have "distinct (map tp_id (templates ?d))" "distinct (map fst (refs ?d))"
    using Cons.prems delete_templates_left(1,2) [OF Cons.prems(3)] by (simp_all add: distinct_map_filter)
  from Cons.IH [OF db this] Cons.prems(4)
  obtain t where rest: "for_each gs (remove_group f) s1 = (Inr (), t)"
    and last: "cur_db t = Some (foldl (\<lambda>e i. delete_template i e) ?d (repeated f gs ?d))" by auto
  have "repeated f gs ?d = repeated f gs d" using repeated_elsewhere [OF assms(1) Cons.prems(2,3)] Cons.prems(4) by simp
  with last have "cur_db t = Some (foldl (\<lambda>e i. delete_template i e) d (repeated f (g # gs) d))"
    by (simp add: repeated_def)
  moreover have "remove_group f g s = (Inr (), s1)" using run Cons.prems(1) by (simp add: remove_group_def bind_def db_query_def)
  ultimately show ?case using rest by (simp add: seq_def bind_def)
qed (simp add: repeated_def)

lemma newest_kept:
  assumes "orders_newest_first f" and "distinct (map tp_id (templates d))" and "1 < length [tp \<leftarrow> templates d. template_group tp = g]"
  shows "\<exists>kept \<in> set (templates d). template_group kept = g \<and>
    (\<forall>tp \<in> set (templates d). template_group tp = g \<longrightarrow>
       tp_created_at tp \<le> tp_created_at kept \<and> (tp_id tp \<in> set (repeated f [g] d) \<longleftrightarrow> tp \<noteq> kept))"
proof -
  let ?xs = "[tp \<leftarrow> templates d. template_group tp = g]"
  have perm: "mset (f ?xs) = mset ?xs" and order: "sorted_wrt (\<lambda>a b. tp_created_at b \<le> tp_created_at a) (f ?xs)"
    using assms(1) by (simp_all add: orders_newest_first_def)
  have "f ?xs \<noteq> []" using assms(3) perm by (metis length_0_conv mset_eq_length not_less_zero)
  then obtain kept rest where f: "f ?xs = kept # rest" by (cases "f ?xs") auto
  have set: "insert kept (set rest) = set ?xs" using mset_eq_setD [OF perm] f by simp
  have "mset (map tp_id (f ?xs)) = mset (map tp_id ?xs)" using perm by (metis mset_map)
  then have "distinct (map tp_id (f ?xs))" using assms(2) by (metis distinct_map_filter mset_eq_imp_distinct_iff)
  then have new: "tp_id kept \<notin> tp_id ` set rest" by (simp add: f)
  have "tp_created_at tp \<le> tp_created_at kept \<and> (tp_id tp \<in> set (repeated f [g] d) \<longleftrightarrow> tp \<noteq> kept)"
    if "tp \<in> set (templates d)" "template_group tp = g" for tp
  proof -
    have "tp = kept \<or> tp \<in> set rest" using that set by auto
    moreover have "set (repeated f [g] d) = tp_id ` set rest" by (simp add: repeated_def f)
    ultimately show ?thesis using order new by (auto simp: f)
  qed
  moreover have "kept \<in> set (templates d)" "template_group kept = g" using set by auto
  ultimately show ?thesis by blast
qed

lemma repeated_in_group:
  assumes "orders_newest_first f" and "distinct (map tp_id (templates d))" and "tp \<in> set (templates d)"
  shows "tp_id tp \<in> set (repeated f (duplicates d) d) \<longleftrightarrow>
    template_group tp \<in> set (duplicates d) \<and> tp_id tp \<in> set (repeated f [template_group tp] d)"
proof -
  have "template_group tp = g" if "tp_id tp \<in> set (repeated f [g] d)" for g
    using repeated_group [OF assms(1) that] assms(2,3) by (metis (no_types, lifting) distinct_map inj_on_def)
  moreover have "set (repeated f (duplicates d) d) = (\<Union>g \<in> set (duplicates d). set (repeated f [g] d))" by (simp add: repeated_def)
  ultimately show ?thesis by blast
qed

lemma survivor:
  assumes "orders_newest_first f" and "distinct (map tp_id (templates d))" and "tp \<in> set (templates d)"
  shows "\<exists>kept \<in> set (templates d). template_group kept = template_group tp \<and>
    (\<forall>x \<in> set (templates d). template_group x = template_group tp \<longrightarrow>
       tp_created_at x \<le> tp_created_at kept \<and> (tp_id x \<in> set (repeated f (duplicates d) d) \<longleftrightarrow> x \<noteq> kept))"
proof (cases "template_group tp \<in> set (duplicates d)")
  case True
  then have "1 < length [x \<leftarrow> templates d. template_group x = template_group tp]" by (simp add: duplicates_def)
  from newest_kept [OF assms(1,2) this] show ?thesis using repeated_in_group [OF assms(1,2)] True by metis
next
  case False
  let ?xs = "[x \<leftarrow> templates d. template_group x = template_group tp]"
  have "length ?xs \<le> 1" using False assms(3) by (simp add: duplicates_def not_less)
  moreover have tp: "tp \<in> set ?xs" using assms(3) by simp
  ultimately have single: "?xs = [tp]" by (cases ?xs) auto
  have only: "x = tp" if "x \<in> set (templates d)" "template_group x = template_group tp" for x
  proof -
    from that have "x \<in> set ?xs" by simp
    then show ?thesis unfolding single by simp
  qed
  show ?thesis
  proof (intro bexI [OF _ assms(3)] conjI refl ballI impI)
    fix x assume x: "x \<in> set (templates d)" "template_group x = template_group tp"
    have "tp_id x \<notin> set (repeated f (duplicates d) d)" using repeated_in_group [OF assms(1,2) x(1)] False x(2) by simp
    with only [OF x] show "tp_created_at x \<le> tp_created_at tp" "tp_id x \<in> set (repeated f (duplicates d) d) \<longleftrightarrow> x \<noteq> tp" by auto
  qed
qed

lemma repeated_ids:
  assumes "orders_newest_first f"
  shows "set (repeated f gs d) \<subseteq> tp_id ` set (templates d)"
proof
  fix i assume "i \<in> set (repeated f gs d)"
  then obtain g where "i \<in> set (repeated f [g] d)" by (auto simp: repeated_def)
  from repeated_group [OF assms this] show "i \<in> tp_id ` set (templates d)" by blast
qed

lemma history_left:
  assumes "distinct (map wf_id (workflows d))" and "d' = foldl (\<lambda>e i. delete_template i e) d is"
  shows "map wf_id (workflows d') = map wf_id (filter (\<lambda>w. workflow_template w \<notin> Some ` set is) (workflows d))"
    and "tasks d' = filter (\<lambda>x. \<forall>w \<in> set (workflows d). wf_id w = task_workflow x \<longrightarrow> wf_id w \<in> wf_id ` set (workflows d')) (tasks d)"
proof -
  have dist: "distinct (map fst (refs d))" using assms(1) by (simp add: refs_def comp_def)
  have left: "map fst (refs d') = map fst (filter (\<lambda>p. snd p \<notin> Some ` set is) (refs d))"
    using delete_templates_left(2) [OF dist] assms(2) by simp
  then show ids: "map wf_id (workflows d') = map wf_id (filter (\<lambda>w. workflow_template w \<notin> Some ` set is) (workflows d))"
    by (simp add: refs_def comp_def filter_map)
  have "x \<notin> fallen (set is) d \<longleftrightarrow> (\<forall>w \<in> set (workflows d). wf_id w = x \<longrightarrow> wf_id w \<in> wf_id ` set (workflows d'))" for x
  proof -
    let ?kept = "{w \<in> set (workflows d). workflow_template w \<notin> Some ` set is}"
    have kept: "wf_id ` set (workflows d') = wf_id ` ?kept" using arg_cong [OF ids, of set] by simp
    have "inj_on wf_id (set (workflows d))" using assms(1) by (simp add: distinct_map)
    then have "wf_id w \<in> wf_id ` ?kept \<longleftrightarrow> workflow_template w \<notin> Some ` set is" if "w \<in> set (workflows d)" for w
      using inj_on_image_mem_iff [of wf_id "set (workflows d)" w ?kept] that by simp
    moreover have "x \<in> fallen (set is) d \<longleftrightarrow> (\<exists>w \<in> set (workflows d). wf_id w = x \<and> workflow_template w \<in> Some ` set is)"
      unfolding fallen_def refs_def by (simp add: image_iff) metis
    ultimately show ?thesis unfolding kept by blast
  qed
  then show "tasks d' = filter (\<lambda>x. \<forall>w \<in> set (workflows d). wf_id w = task_workflow x \<longrightarrow> wf_id w \<in> wf_id ` set (workflows d')) (tasks d)"
    using delete_templates_left(3) [OF dist] assms(2) by simp
qed

text \<open>
  C24: the migration ends without an error and afterwards no two templates share a user code and a
  space; each group keeps exactly one row, and no row of the group was newer.  A workflow
  stays exactly when its template was not deleted, and a task exactly when its workflow was not:
  the history of the deleted templates is lost.
\<close>

theorem duplicates_are_removed:
  assumes "orders_newest_first f" and "cur_db s = Some d"
    and "distinct (map tp_id (templates d))" and "distinct (map wf_id (workflows d))"
  shows "\<exists>t d'. remove_duplicates f s = (Inr (), t) \<and> cur_db t = Some d' \<and>
    distinct (map template_group (templates d')) \<and> template_group ` set (templates d') = template_group ` set (templates d) \<and>
    (\<forall>kept \<in> set (templates d'). kept \<in> set (templates d) \<and>
       (\<forall>tp \<in> set (templates d). template_group tp = template_group kept \<longrightarrow> tp_created_at tp \<le> tp_created_at kept)) \<and>
    map wf_id (workflows d') = map wf_id (filter (\<lambda>w. \<forall>tp \<in> set (templates d) - set (templates d'). workflow_template w \<noteq> Some (tp_id tp)) (workflows d)) \<and>
    tasks d' = filter (\<lambda>x. \<forall>w \<in> set (workflows d). wf_id w = task_workflow x \<longrightarrow> wf_id w \<in> wf_id ` set (workflows d')) (tasks d)"
proof -
  let ?is = "repeated f (duplicates d) d"
  let ?d = "foldl (\<lambda>e i. delete_template i e) d ?is"
  have dist: "distinct (map fst (refs d))" using assms(4) by (simp add: refs_def comp_def)
  have gs: "distinct (duplicates d)" by (simp add: duplicates_def)
  obtain t where run: "remove_duplicates f s = (Inr (), t)" and db: "cur_db t = Some ?d"
    using remove_groups_run [OF assms(1) gs assms(2,3) dist] assms(2) by (auto simp: remove_duplicates_def bind_def db_query_def)
  have tps: "templates ?d = filter (\<lambda>tp. tp_id tp \<notin> set ?is) (templates d)" by (rule delete_templates_left(1) [OF dist])
  note survivor = survivor [OF assms(1,3)]
  have "distinct (templates d)" using assms(3) by (simp add: distinct_map)
  moreover have "inj_on template_group (set (templates ?d))" unfolding tps inj_on_def set_filter using survivor by (simp add: Ball_def) metis
  ultimately have one: "distinct (map template_group (templates ?d))" by (simp add: distinct_map tps)
  have groups: "template_group ` set (templates ?d) = template_group ` set (templates d)"
    unfolding tps set_filter using survivor by (auto simp: image_iff) metis
  have newest: "\<forall>kept \<in> set (templates ?d). kept \<in> set (templates d) \<and>
      (\<forall>tp \<in> set (templates d). template_group tp = template_group kept \<longrightarrow> tp_created_at tp \<le> tp_created_at kept)"
    unfolding tps set_filter using survivor by (simp add: Ball_def) metis
  have "tp_id ` (set (templates d) - set (templates ?d)) = set ?is"
    using repeated_ids [OF assms(1), of "duplicates d" d] by (auto simp: tps)
  then have lost: "(workflow_template w \<notin> Some ` set ?is) = (\<forall>tp \<in> set (templates d) - set (templates ?d). workflow_template w \<noteq> Some (tp_id tp))" for w
    unfolding \<open>tp_id ` _ = _\<close> [symmetric] by auto
  show ?thesis
    using history_left [OF assms(4) refl, of ?is] run db one groups newest unfolding lost by blast
qed

definition by_age :: "template_row list \<Rightarrow> template_row list" where
  "by_age xs = rev (sort_key tp_created_at xs)"

lemma by_age_orders: "orders_newest_first by_age"
  unfolding orders_newest_first_def by_age_def sorted_wrt_rev using sorted_sort_key [of "tp_created_at :: template_row \<Rightarrow> nat"] by (simp add: sorted_map)

definition repeated_db :: schema_db where
  "repeated_db = sample_db\<lparr>templates := [sample_template, sample_template\<lparr>tp_id := 2, tp_created_at := 5\<rparr>]\<rparr>"

theorem duplicates_are_removed_witness:
  "\<exists>t d'. remove_duplicates by_age (sample_world\<lparr>schemas := [''space0'' \<mapsto> repeated_db]\<rparr>) = (Inr (), t) \<and> cur_db t = Some d' \<and>
    set (templates d') = {sample_template\<lparr>tp_id := 2, tp_created_at := 5\<rparr>} \<and> map wf_id (workflows d') = []"
proof -
  let ?s = "sample_world\<lparr>schemas := [''space0'' \<mapsto> repeated_db]\<rparr>" and ?new = "sample_template\<lparr>tp_id := 2, tp_created_at := 5\<rparr>"
  have tps: "templates repeated_db = [sample_template, ?new]" and ws: "workflows repeated_db = [sample_workflow]"
    by (simp_all add: repeated_db_def sample_db_def)
  have "cur_db ?s = Some repeated_db" by (simp add: cur_db_def sample_world_def)
  moreover have "distinct (map tp_id (templates repeated_db))" "distinct (map wf_id (workflows repeated_db))"
    by (simp_all add: tps ws sample_template_def)
  ultimately obtain t d' where run: "remove_duplicates by_age ?s = (Inr (), t)" "cur_db t = Some d'"
    and groups: "template_group ` set (templates d') = template_group ` set (templates repeated_db)"
    and newest: "\<forall>kept \<in> set (templates d'). kept \<in> set (templates repeated_db) \<and> (\<forall>tp \<in> set (templates repeated_db).
       template_group tp = template_group kept \<longrightarrow> tp_created_at tp \<le> tp_created_at kept)"
    and left: "map wf_id (workflows d') = map wf_id (filter (\<lambda>w. \<forall>tp \<in> set (templates repeated_db) - set (templates d').
       workflow_template w \<noteq> Some (tp_id tp)) (workflows repeated_db))"
    using duplicates_are_removed [OF by_age_orders] by blast
  have group: "template_group ?new = template_group sample_template" by (simp add: template_group_def)
  obtain some where "some \<in> set (templates d')" using groups by (force simp: tps)
  moreover have "kept = ?new" if "kept \<in> set (templates d')" for kept
  proof -
    have "kept \<in> {sample_template, ?new}" using newest that by (auto simp: tps)
    moreover have "tp_created_at ?new \<le> tp_created_at kept" using newest that calculation group by (auto simp: tps)
    ultimately show ?thesis by (auto simp: sample_template_def)
  qed
  ultimately have kept: "set (templates d') = {?new}" by blast
  have "sample_template \<in> set (templates repeated_db) - set (templates d')" unfolding kept by (simp add: tps sample_template_def)
  then have "map wf_id (workflows d') = []" unfolding left ws
    by (auto simp: sample_workflow_def sample_template_def intro!: bexI [of _ sample_template])
  with run kept show ?thesis by blast
qed

section \<open>The daily export\<close>

text \<open>The tables of \<^verbatim>\<open>django_celery_beat\<close>: crontabs and, by their unique name, the periodic tasks with crontab and task.\<close>

record beat_tables =
  beat_crontabs :: "crontab_row list"
  periodic_tasks :: "(string, nat \<times> string) dict"
  crontab_seq :: nat

definition export_name :: string where
  "export_name = ''Call backend historical records everyday''"

definition export_task :: string where
  "export_task = ''workflow.tasks.export_backend_historical_records.call_export_backend_historical_records''"

definition export_crontab :: crontab_row where
  "export_crontab = \<lparr>cron_id = 0, cron_minute = ''0'', cron_hour = ''5'', cron_day_of_month = ''*'', cron_month_of_year = ''*'',
     cron_day_of_week = ''*''\<rparr>"

definition create_crontab_task :: "(beat_tables, unit) comp" where
  "create_crontab_task =
     bind (query (\<lambda>b. objects_get (same_crontab export_crontab) (beat_crontabs b))) (\<lambda>found.
     bind (case found of
             Inr c \<Rightarrow> ret c
           | Inl e \<Rightarrow>
               if e = DoesNotExist then
                 bind (query (\<lambda>b. export_crontab\<lparr>cron_id := Suc (crontab_seq b)\<rparr>)) (\<lambda>c.
                 seq (modify (\<lambda>b. b\<lparr>beat_crontabs := beat_crontabs b @ [c], crontab_seq := cron_id c\<rparr>)) (ret c))
               else throw e) (\<lambda>c.
       modify (\<lambda>b. b\<lparr>periodic_tasks := AList.update export_name (cron_id c, export_task) (periodic_tasks b)\<rparr>)))"

definition remove_crontab_task :: "(beat_tables, unit) comp" where
  "remove_crontab_task = modify (\<lambda>b. b\<lparr>periodic_tasks := AList.delete export_name (periodic_tasks b)\<rparr>)"

text \<open>
  Unless the crontab is there twice, the export is entered once with a crontab of five o'clock,
  a second run of the migration changes nothing, and undoing it removes the export and no
  other task.
\<close>

lemma export_found:
  assumes "filter (same_crontab export_crontab) (beat_crontabs b) = [c]"
  shows "create_crontab_task b = (Inr (), b\<lparr>periodic_tasks := AList.update export_name (cron_id c, export_task) (periodic_tasks b)\<rparr>)"
  using assms by (simp add: create_crontab_task_def bind_def query_def modify_def objects_get_def)

lemma same_crontab_id: "same_crontab export_crontab (export_crontab\<lparr>cron_id := i\<rparr>)"
  by (simp add: same_crontab_def export_crontab_def)

lemma export_created:
  assumes "filter (same_crontab export_crontab) (beat_crontabs b) = []"
  shows "create_crontab_task b = create_crontab_task
    (b\<lparr>beat_crontabs := beat_crontabs b @ [export_crontab\<lparr>cron_id := Suc (crontab_seq b)\<rparr>], crontab_seq := Suc (crontab_seq b)\<rparr>)"
proof -
  let ?b = "b\<lparr>beat_crontabs := beat_crontabs b @ [export_crontab\<lparr>cron_id := Suc (crontab_seq b)\<rparr>], crontab_seq := Suc (crontab_seq b)\<rparr>"
  have "filter (same_crontab export_crontab) (beat_crontabs ?b) = [export_crontab\<lparr>cron_id := Suc (crontab_seq b)\<rparr>]"
    using assms same_crontab_id by simp
  from export_found [OF this] show ?thesis
    using assms by (simp add: create_crontab_task_def bind_def seq_def query_def modify_def objects_get_def)
qed

lemma update_same: "AList.update k v (AList.update k v xs) = AList.update k v xs"
  by (induction xs) auto

lemma export_entered:
  assumes "length (filter (same_crontab export_crontab) (beat_crontabs b)) \<le> 1"
  shows "\<exists>b' c. create_crontab_task b = (Inr (), b') \<and> c \<in> set (beat_crontabs b') \<and> same_crontab export_crontab c \<and>
    map_of (periodic_tasks b') = (map_of (periodic_tasks b))(export_name \<mapsto> (cron_id c, export_task)) \<and>
    create_crontab_task b' = (Inr (), b') \<and>
    (\<exists>b''. remove_crontab_task b' = (Inr (), b'') \<and> map_of (periodic_tasks b'') = (map_of (periodic_tasks b))(export_name := None))"
proof -
  have found: ?thesis if "filter (same_crontab export_crontab) (beat_crontabs e) = [c]" "create_crontab_task b = create_crontab_task e"
    "periodic_tasks e = periodic_tasks b" for e c
  proof -
    let ?e = "e\<lparr>periodic_tasks := AList.update export_name (cron_id c, export_task) (periodic_tasks e)\<rparr>"
    have "c \<in> set (filter (same_crontab export_crontab) (beat_crontabs e))" by (simp only: that) simp
    moreover have "create_crontab_task ?e = (Inr (), ?e)" using export_found [of ?e c] that(1) by (simp add: update_same)
    ultimately show ?thesis using export_found [OF that(1)] that(2,3)
      by (intro exI [of _ ?e] exI [of _ c]) (simp add: update_conv' remove_crontab_task_def modify_def delete_conv')
  qed
  show ?thesis
  proof (cases "filter (same_crontab export_crontab) (beat_crontabs b)")
    case Nil
    show ?thesis by (rule found [OF _ export_created [OF Nil]]) (simp_all add: Nil same_crontab_id)
  next
    case (Cons c cs)
    then show ?thesis using assms by (intro found [of b c]) simp_all
  qed
qed

end
