(* ===== verification/Commands.thy ===== *)
theory Commands
  imports Authentication Manager
begin

text \<open>
  The management commands of \<^verbatim>\<open>workflow/management/commands\<close> that change the database: the
  migrations of one schema and of all of them, the repair of the sequences of the primary
  keys, the administrator's account and the synchronisation of the files.  The command that
  cancels the tasks of a stopped worker is in the theory of the schedules.
\<close>

section \<open>migrate, migrate_all_schemes, sync_remote_storage_to_local_storage_all_spaces\<close>

text \<open>Django's own command is the parameter \<open>original\<close>, run in the schema of the search path.\<close>

definition migrate_handle :: "unit io \<Rightarrow> string option \<Rightarrow> unit io" where
  "migrate_handle original code =
     seq (case code of None \<Rightarrow> ret () | Some c \<Rightarrow> if c = [] then ret () else set_search_path c) original"

definition migrate_all_schemes :: "unit io \<Rightarrow> unit io" where
  "migrate_all_schemes original =
     bind get_all_tenant_schemas (\<lambda>names.
       for_each names (\<lambda>schema.
         seq (set_search_path schema) (seq (migrate_handle original None) (set_search_path ''public''))))"

definition sync_all_spaces :: "env \<Rightarrow> unit io" where
  "sync_all_spaces env = sync_remote_storage env None"

section \<open>generate_super_user\<close>

definition generate_super_user :: "accounts \<Rightarrow> string option \<Rightarrow> string option \<Rightarrow> unit io" where
  "generate_super_user acc name pw =
     (case (name, pw) of
        (Some n, Some p) \<Rightarrow>
          if n \<noteq> [] \<and> p \<noteq> [] then
            catch (seq (get_user n) (ret ()))
              (\<lambda>e. if e = DoesNotExist then seq (create_user acc (JStr n) p True) (ret ()) else throw e)
          else ret ()
      | _ \<Rightarrow> ret ())"

section \<open>update_sequences\<close>

text \<open>
  The catalog of the database as the command sees it: the keys of each table, the sequence
  that belongs to it, and the sequences of each schema with \<^verbatim>\<open>last_value\<close> and \<^verbatim>\<open>is_called\<close>.
\<close>

record db_sequence =
  last_value :: int
  is_called :: bool

record cat_schema =
  cat_keys :: "(string, int list) dict"
  cat_owned :: "(string, string) dict"
  cat_sequences :: "(string, db_sequence) dict"

record catalog =
  cat_schemas :: "(string, cat_schema) dict"
  cat_path :: string

type_synonym 'a cat = "(catalog, 'a) comp"

record model_meta =
  managed :: bool
  db_table :: string
  auto_key :: bool

text \<open>What PostgreSQL gives to the next row, and \<^verbatim>\<open>setval(name, v, false)\<close>.\<close>

definition next_value :: "db_sequence \<Rightarrow> int" where
  "next_value q = (if is_called q then last_value q + 1 else last_value q)"

definition setval :: "string \<Rightarrow> int \<Rightarrow> unit cat" where
  "setval name v c =
     (case map_of (cat_schemas c) (cat_path c) of
        None \<Rightarrow> (Inl DatabaseError, c)
      | Some d \<Rightarrow>
          (Inr (), c\<lparr>cat_schemas := AList.update (cat_path c)
             (d\<lparr>cat_sequences := AList.update name \<lparr>last_value = v, is_called = False\<rparr> (cat_sequences d)\<rparr>) (cat_schemas c)\<rparr>))"

definition select_in :: "(catalog \<Rightarrow> string) \<Rightarrow> (cat_schema \<Rightarrow> 'a option) \<Rightarrow> exc \<Rightarrow> 'a cat" where
  "select_in which f e =
     bind (query (\<lambda>c. Option.bind (map_of (cat_schemas c) (which c)) f)) (\<lambda>v. lift (or_raise v e))"

text \<open>\<^verbatim>\<open>cursor.fetchone()[0] or 0\<close> for \<^verbatim>\<open>SELECT MAX(id)\<close>.\<close>

definition max_id :: "int list \<Rightarrow> int" where
  "max_id ids = (case ids of [] \<Rightarrow> 0 | i # is \<Rightarrow> foldl max i is)"

definition update_sequence :: "string \<Rightarrow> model_meta \<Rightarrow> unit cat" where
  "update_sequence schema m =
     (if \<not> managed m then ret ()
      else if \<not> auto_key m then ret ()
      else
        bind (select_in cat_path (\<lambda>d. map_of (cat_keys d) (db_table m)) DatabaseError) (\<lambda>ids.
        bind (select_in (\<lambda>_. schema) (\<lambda>d. map_of (cat_owned d) (db_table m)) TypeError) (\<lambda>name.
        bind (select_in (\<lambda>_. schema) (\<lambda>d. Some (name \<in> fst ` set (cat_sequences d))) DatabaseError) (\<lambda>there.
          if \<not> there then ret ()
          else
            bind (select_in cat_path (\<lambda>d. map_of (cat_sequences d) name) DatabaseError) (\<lambda>q.
              if last_value q \<le> max_id ids then setval name (max_id ids + 1) else ret ())))))"

definition update_sequences :: "model_meta list \<Rightarrow> unit cat" where
  "update_sequences models =
     bind (query (\<lambda>c. filter is_tenant_schema (map fst (cat_schemas c)))) (\<lambda>names.
       for_each names (\<lambda>schema.
         seq (modify (\<lambda>c. c\<lparr>cat_path := ascii_lower schema\<rparr>)) (for_each models (update_sequence schema))))"

section \<open>The repair only moves forward\<close>

definition tenants :: "catalog \<Rightarrow> string set" where
  "tenants c = {sch \<in> fst ` set (cat_schemas c). is_tenant_schema sch}"

definition key_lists :: "catalog \<Rightarrow> string \<Rightarrow> ((string, int list) dict \<times> (string, string) dict) option" where
  "key_lists c sch = map_option (\<lambda>d. (cat_keys d, cat_owned d)) (map_of (cat_schemas c) sch)"

definition sequence_at :: "catalog \<Rightarrow> string \<Rightarrow> string \<Rightarrow> db_sequence option" where
  "sequence_at c sch name = Option.bind (map_of (cat_schemas c) sch) (\<lambda>d. map_of (cat_sequences d) name)"

definition advances :: "catalog \<Rightarrow> catalog \<Rightarrow> bool" where
  "advances s t \<longleftrightarrow> key_lists t = key_lists s \<and>
     (\<forall>sch n q. sequence_at s sch n = Some q \<longrightarrow> (\<exists>q'. sequence_at t sch n = Some q' \<and> next_value q \<le> next_value q'))"

interpretation advancing: frame advances
  by unfold_locales (auto simp: advances_def, meson order_trans)

lemma setval_advances:
  assumes "sequence_at c (cat_path c) name = Some q" and "last_value q < v"
  shows "\<exists>t. setval name v c = (Inr (), t) \<and> advances c t \<and> cat_path t = cat_path c \<and>
    sequence_at t (cat_path c) name = Some \<lparr>last_value = v, is_called = False\<rparr>"
proof -
  from assms(1) obtain d where d: "map_of (cat_schemas c) (cat_path c) = Some d" "map_of (cat_sequences d) name = Some q"
    by (auto simp: sequence_at_def bind_eq_Some_conv)
  let ?q = "\<lparr>last_value = v, is_called = False\<rparr>"
  let ?t = "c\<lparr>cat_schemas := AList.update (cat_path c) (d\<lparr>cat_sequences := AList.update name ?q (cat_sequences d)\<rparr>) (cat_schemas c)\<rparr>"
  have at: "sequence_at ?t sch n = (if sch = cat_path c \<and> n = name then Some ?q else sequence_at c sch n)" for sch n
    using d by (simp add: sequence_at_def update_conv')
  have keys: "key_lists ?t = key_lists c" using d by (simp add: key_lists_def update_conv' fun_eq_iff)
  have "next_value q \<le> next_value ?q" using assms(2) by (simp add: next_value_def)
  then have "advances c ?t" using assms(1) by (auto simp: advances_def keys at)
  moreover have "setval name v c = (Inr (), ?t)" using d by (simp add: setval_def)
  ultimately show ?thesis using at by auto
qed

lemma select_in_run:
  "select_in which f e c = (case Option.bind (map_of (cat_schemas c) (which c)) f of None \<Rightarrow> (Inl e, c) | Some v \<Rightarrow> (Inr v, c))"
  by (simp add: select_in_def bind_def split: option.splits)

lemma foldl_max_upper: "x \<le> foldl max x xs \<and> (\<forall>y \<in> set xs. y \<le> foldl max x xs)" for x :: int
proof (induction xs arbitrary: x)
  case (Cons y ys)
  from Cons [of "max x y"] show ?case by auto
qed simp

lemma max_id_upper: "i \<in> set ids \<Longrightarrow> i \<le> max_id ids"
  using foldl_max_upper by (cases ids) (auto simp: max_id_def)

text \<open>A table whose keys and whose sequence the command finds in its schema.\<close>

definition table_at :: "string \<Rightarrow> model_meta \<Rightarrow> catalog \<Rightarrow> int list \<Rightarrow> string \<Rightarrow> bool" where
  "table_at sch m c ids name \<longleftrightarrow>
     (\<exists>ks os. key_lists c sch = Some (ks, os) \<and> map_of ks (db_table m) = Some ids \<and> map_of os (db_table m) = Some name)"

definition repairable :: "string \<Rightarrow> model_meta \<Rightarrow> catalog \<Rightarrow> bool" where
  "repairable sch m c \<longleftrightarrow> (\<exists>ids name q. table_at sch m c ids name \<and> sequence_at c sch name = Some q)"

text \<open>The next key of the table is greater than every key it has.\<close>

definition key_free :: "string \<Rightarrow> model_meta \<Rightarrow> catalog \<Rightarrow> bool" where
  "key_free sch m c \<longleftrightarrow>
     (\<exists>ids name q. table_at sch m c ids name \<and> sequence_at c sch name = Some q \<and> (\<forall>i \<in> set ids. i < next_value q))"

lemma table_advances: "advances s t \<Longrightarrow> table_at sch m t ids name = table_at sch m s ids name"
  by (simp add: advances_def table_at_def)

lemma sequence_advances:
  "advances s t \<Longrightarrow> sequence_at s sch n = Some q \<Longrightarrow> \<exists>q'. sequence_at t sch n = Some q' \<and> next_value q \<le> next_value q'"
  by (simp add: advances_def)

lemma repairable_advances: "advances s t \<Longrightarrow> repairable sch m s \<Longrightarrow> repairable sch m t"
  unfolding repairable_def using table_advances sequence_advances by blast

lemma key_freeI:
  "table_at sch m c ids name \<Longrightarrow> sequence_at c sch name = Some q \<Longrightarrow> max_id ids < next_value q \<Longrightarrow> key_free sch m c"
  unfolding key_free_def using max_id_upper order_le_less_trans by blast

lemma key_free_advances: "advances s t \<Longrightarrow> key_free sch m s \<Longrightarrow> key_free sch m t"
proof -
  assume adv: "advances s t" and "key_free sch m s"
  then obtain ids name q where q: "table_at sch m s ids name" "sequence_at s sch name = Some q" "\<forall>i \<in> set ids. i < next_value q"
    by (auto simp: key_free_def)
  from sequence_advances [OF adv q(2)] obtain q' where "sequence_at t sch name = Some q'" "next_value q \<le> next_value q'" by blast
  moreover have "table_at sch m t ids name" using q(1) table_advances [OF adv] by simp
  ultimately show "key_free sch m t" unfolding key_free_def using q(3) order_less_le_trans by blast
qed

lemma update_sequence_run:
  assumes "managed m \<and> auto_key m \<longrightarrow> repairable (cat_path c) m c"
  shows "\<exists>t. update_sequence (cat_path c) m c = (Inr (), t) \<and> advances c t \<and> cat_path t = cat_path c \<and>
    (managed m \<and> auto_key m \<longrightarrow> key_free (cat_path c) m t)"
proof (cases "managed m \<and> auto_key m")
  case False
  then show ?thesis by (auto simp: update_sequence_def advancing.keep)
next
  case True
  with assms obtain ids name q where q: "table_at (cat_path c) m c ids name" "sequence_at c (cat_path c) name = Some q"
    by (auto simp: repairable_def)
  then obtain d where d: "map_of (cat_schemas c) (cat_path c) = Some d" "map_of (cat_keys d) (db_table m) = Some ids"
      "map_of (cat_owned d) (db_table m) = Some name" "map_of (cat_sequences d) name = Some q"
    by (auto simp: table_at_def key_lists_def sequence_at_def)
  then have "name \<in> fst ` set (cat_sequences d)" by (metis domI dom_map_of_conv_image_fst)
  with d True have run: "update_sequence (cat_path c) m c =
      (if last_value q \<le> max_id ids then setval name (max_id ids + 1) c else (Inr (), c))"
    by (simp add: update_sequence_def select_in_run bind_def)
  show ?thesis
  proof (cases "last_value q \<le> max_id ids")
    case True
    with setval_advances [OF q(2), of "max_id ids + 1"] obtain t where
      t: "setval name (max_id ids + 1) c = (Inr (), t)" "advances c t" "cat_path t = cat_path c"
        "sequence_at t (cat_path c) name = Some \<lparr>last_value = max_id ids + 1, is_called = False\<rparr>" by auto
    have "table_at (cat_path c) m t ids name" using q(1) t(2) by (simp add: table_advances)
    then have "key_free (cat_path c) m t" using t(4) by (rule key_freeI) (simp add: next_value_def)
    with True run t show ?thesis by simp
  next
    case False
    then have "key_free (cat_path c) m c" by (intro key_freeI [OF q]) (simp add: next_value_def)
    with False run show ?thesis by (simp add: advancing.keep)
  qed
qed

lemma update_schema_run:
  assumes "\<forall>m \<in> set ms. managed m \<and> auto_key m \<longrightarrow> repairable (cat_path c) m c"
  shows "\<exists>t. for_each ms (update_sequence (cat_path c)) c = (Inr (), t) \<and> advances c t \<and>
    (\<forall>m \<in> set ms. managed m \<and> auto_key m \<longrightarrow> key_free (cat_path c) m t)"
  using assms
proof (induction ms arbitrary: c)
  case (Cons m ms)
  from Cons.prems obtain t where t: "update_sequence (cat_path c) m c = (Inr (), t)" "advances c t" "cat_path t = cat_path c"
      "managed m \<and> auto_key m \<longrightarrow> key_free (cat_path c) m t"
    using update_sequence_run [of m c] by auto
  with Cons.prems have "\<forall>m \<in> set ms. managed m \<and> auto_key m \<longrightarrow> repairable (cat_path t) m t"
    by (auto intro: repairable_advances)
  from Cons.IH [OF this] obtain u where u: "for_each ms (update_sequence (cat_path t)) t = (Inr (), u)" "advances t u"
      "\<forall>m \<in> set ms. managed m \<and> auto_key m \<longrightarrow> key_free (cat_path t) m u" by blast
  with t show ?case by (auto simp: seq_value intro: advancing.step key_free_advances)
qed (simp add: advancing.keep)

lemma update_schemas_run:
  assumes "\<forall>sch \<in> set names. ascii_lower sch = sch"
    and "\<forall>sch \<in> set names. \<forall>m \<in> set ms. managed m \<and> auto_key m \<longrightarrow> repairable sch m c"
  shows "\<exists>t. for_each names (\<lambda>sch. seq (modify (\<lambda>c. c\<lparr>cat_path := ascii_lower sch\<rparr>)) (for_each ms (update_sequence sch))) c = (Inr (), t) \<and>
    advances c t \<and> (\<forall>sch \<in> set names. \<forall>m \<in> set ms. managed m \<and> auto_key m \<longrightarrow> key_free sch m t)"
  using assms
proof (induction names arbitrary: c)
  case (Cons sch names)
  let ?c = "c\<lparr>cat_path := sch\<rparr>"
  have c: "advances c ?c" by (simp add: advances_def key_lists_def sequence_at_def fun_eq_iff)
  with Cons.prems have "\<forall>m \<in> set ms. managed m \<and> auto_key m \<longrightarrow> repairable (cat_path ?c) m ?c"
    by (auto intro: repairable_advances)
  from update_schema_run [OF this] obtain t where t: "for_each ms (update_sequence sch) ?c = (Inr (), t)" "advances ?c t"
      "\<forall>m \<in> set ms. managed m \<and> auto_key m \<longrightarrow> key_free sch m t" by auto
  have ct: "advances c t" using c t(2) by (rule advancing.step)
  with Cons.prems have rep: "\<forall>sch \<in> set names. \<forall>m \<in> set ms. managed m \<and> auto_key m \<longrightarrow> repairable sch m t"
    by (auto intro: repairable_advances)
  have "\<forall>sch \<in> set names. ascii_lower sch = sch" using Cons.prems(1) by simp
  from Cons.IH [OF this rep] obtain u where
    u: "for_each names (\<lambda>sch. seq (modify (\<lambda>c. c\<lparr>cat_path := ascii_lower sch\<rparr>)) (for_each ms (update_sequence sch))) t = (Inr (), u)"
      "advances t u" "\<forall>sch \<in> set names. \<forall>m \<in> set ms. managed m \<and> auto_key m \<longrightarrow> key_free sch m u" by blast
  have "\<forall>m \<in> set ms. managed m \<and> auto_key m \<longrightarrow> key_free sch m u" using t(3) u(2) by (auto intro: key_free_advances)
  with u(3) have free: "\<forall>sch \<in> set (sch # names). \<forall>m \<in> set ms. managed m \<and> auto_key m \<longrightarrow> key_free sch m u" by simp
  let ?f = "\<lambda>sch. seq (modify (\<lambda>c. c\<lparr>cat_path := ascii_lower sch\<rparr>)) (for_each ms (update_sequence sch))"
  have "?f sch c = (Inr (), t)" using t(1) Cons.prems(1) by (simp add: seq_def bind_def)
  then have "seq (?f sch) (for_each names ?f) c = for_each names ?f t" by (rule seq_value)
  with u(1) advancing.step [OF ct u(2)] free show ?case by (simp only: for_each.simps) blast
qed (simp add: advancing.keep)

text \<open>
  C39: when the tables of the managed models and their sequences are in every tenant's schema,
  the command ends without an error, changes no row, moves no sequence back, and afterwards
  the next key of every table of every tenant is greater than all the keys the table has.
\<close>

theorem repaired_sequences_are_free:
  assumes "\<And>sch. sch \<in> tenants c \<Longrightarrow> ascii_lower sch = sch"
    and "\<And>sch m. sch \<in> tenants c \<Longrightarrow> m \<in> set ms \<Longrightarrow> managed m \<Longrightarrow> auto_key m \<Longrightarrow> repairable sch m c"
  shows "\<exists>t. update_sequences ms c = (Inr (), t) \<and> advances c t \<and>
    (\<forall>sch \<in> tenants c. \<forall>m \<in> set ms. managed m \<and> auto_key m \<longrightarrow> key_free sch m t)"
  using update_schemas_run [of "filter is_tenant_schema (map fst (cat_schemas c))" ms c] assms
  by (auto simp: update_sequences_def bind_def tenants_def)

definition sample_catalog :: catalog where
  "sample_catalog = \<lparr>cat_schemas = [(''space0'', \<lparr>cat_keys = [(''workflow_task'', [3, 7, 5])],
      cat_owned = [(''workflow_task'', ''workflow_task_id_seq'')],
      cat_sequences = [(''workflow_task_id_seq'', \<lparr>last_value = 4, is_called = True\<rparr>)]\<rparr>)], cat_path = ''public''\<rparr>"

definition sample_models :: "model_meta list" where
  "sample_models = [\<lparr>managed = False, db_table = ''v'', auto_key = True\<rparr>, \<lparr>managed = True, db_table = ''workflow_task'', auto_key = True\<rparr>]"

lemma sample_tenants: "tenants sample_catalog = {''space0''}"
  by (auto simp: tenants_def sample_catalog_def) code_simp

theorem repaired_sequences_are_free_witness:
  "\<exists>t. update_sequences sample_models sample_catalog = (Inr (), t) \<and>
    key_free ''space0'' \<lparr>managed = True, db_table = ''workflow_task'', auto_key = True\<rparr> t"
proof -
  have "ascii_lower ''space0'' = ''space0''" by code_simp
  moreover have "repairable ''space0'' m sample_catalog" if "m \<in> set sample_models" "managed m" for m
    using that by (auto simp: sample_models_def sample_catalog_def repairable_def table_at_def key_lists_def sequence_at_def)
  ultimately show ?thesis
    using repaired_sequences_are_free [of sample_catalog sample_models] by (auto simp: sample_tenants sample_models_def)
qed

section \<open>Migrations of all tenants, the administrator\<close>

text \<open>
  The command for all schemas applies the migrations once to every tenant's schema and to no
  other, and leaves the connection in the public schema.
\<close>

definition migrated :: "(schema_db \<Rightarrow> schema_db) \<Rightarrow> string set \<Rightarrow> world \<Rightarrow> world" where
  "migrated f names s = s\<lparr>schemas := \<lambda>n. if n \<in> names then map_option f (schemas s n) else schemas s n\<rparr>"

lemma migrate_each:
  assumes "distinct names" and "\<forall>n \<in> set names. ascii_lower n = n \<and> schemas s n \<noteq> None"
  shows "for_each names (\<lambda>n. seq (set_search_path n) (seq (migrate_handle (db_update f) None) (set_search_path ''public''))) s
    = (Inr (), migrated f (set names) (if names = [] then s else s\<lparr>search_path := ''public''\<rparr>))"
  using assms
proof (induction names arbitrary: s)
  case (Cons n ns)
  then obtain d where d: "schemas s n = Some d" by auto
  let ?t = "s\<lparr>search_path := ''public'', schemas := (schemas s)(n \<mapsto> f d)\<rparr>"
  have public: "ascii_lower ''public'' = ''public''" by code_simp
  have one: "seq (set_search_path n) (seq (migrate_handle (db_update f) None) (set_search_path ''public'')) s = (Inr (), ?t)"
    using Cons.prems d public by (simp add: set_search_path_def migrate_handle_def seq_def bind_def db_update_def cur_db_def)
  have rest: "\<forall>m \<in> set ns. ascii_lower m = m \<and> schemas ?t m \<noteq> None" using Cons.prems by auto
  have "migrated f (set ns) ?t = migrated f (set (n # ns)) (s\<lparr>search_path := ''public''\<rparr>)"
    using Cons.prems(1) d by (auto simp: migrated_def fun_eq_iff)
  moreover have "(if ns = [] then ?t else ?t\<lparr>search_path := ''public''\<rparr>) = ?t" by simp
  moreover have "distinct ns" using Cons.prems(1) by simp
  ultimately have "for_each ns (\<lambda>n. seq (set_search_path n) (seq (migrate_handle (db_update f) None) (set_search_path ''public''))) ?t
      = (Inr (), migrated f (set (n # ns)) (s\<lparr>search_path := ''public''\<rparr>))"
    using Cons.IH [OF _ rest] by (simp only:)
  then show ?case by (simp add: seq_value [where m = "seq m k" for m k, OF one])
qed (simp add: migrated_def)

lemma migrate_all_schemes_run:
  assumes "distinct (schema_names s)" and "\<forall>n \<in> set (schema_names s). ascii_lower n = n \<and> schemas s n \<noteq> None"
    and "search_path s = ''public''"
  shows "migrate_all_schemes (db_update f) s = (Inr (), migrated f {n \<in> set (schema_names s). is_tenant_schema n} s)"
proof -
  have "s\<lparr>search_path := ''public''\<rparr> = s" using assms(3) by simp
  then show ?thesis
    using migrate_each [of "filter is_tenant_schema (schema_names s)" s f] assms(1,2)
    by (simp add: migrate_all_schemes_def get_all_tenant_schemas_def bind_def)
qed

text \<open>Running the command for the administrator a second time changes nothing.\<close>

lemma created_user_is_found:
  assumes "create_user acc (JStr n) pw admin s = (Inr u, t)" and "normalize_username acc n = n"
  shows "get_user n t = (Inr u, t)"
proof -
  from assms obtain d where d: "cur_db s = Some d" "n \<notin> username ` set (users d)" "username u = n"
      "t = s\<lparr>schemas := (schemas s)(search_path s \<mapsto> d\<lparr>users := users d @ [u], row_seq := Suc (row_seq d)\<rparr>)\<rparr>"
    by (auto simp: create_user_def bind_def seq_def db_query_def db_update_def Let_def split: option.splits if_splits)
  have "filter (\<lambda>v. username v = n) (users d) = []" using d(2) by (auto simp: filter_empty_conv image_iff)
  with d show ?thesis by (simp add: get_user_def db_query_def cur_db_def objects_get_def)
qed

lemma super_user_generated_once:
  assumes "generate_super_user acc name pw s = (Inr (), t)" and "\<And>n. normalize_username acc n = n"
  shows "generate_super_user acc name pw t = (Inr (), t)"
proof (cases "\<exists>n p. name = Some n \<and> pw = Some p \<and> n \<noteq> [] \<and> p \<noteq> []")
  case True
  then obtain n p where np: "name = Some n" "pw = Some p" "n \<noteq> []" "p \<noteq> []" by blast
  have "\<exists>u. get_user n t = (Inr u, t)"
  proof (cases "fst (get_user n s)")
    case (Inl e)
    have "snd (get_user n s) = s" by (simp add: get_user_def db_query_def split: option.splits)
    with assms(1) np Inl obtain u where "create_user acc (JStr n) p True s = (Inr u, t)"
      by (cases "get_user n s") (auto simp: generate_super_user_def catch_def seq_def bind_def split: if_splits prod.splits sum.splits)
    with created_user_is_found assms(2) show ?thesis by blast
  next
    case (Inr u)
    then have "get_user n s = (Inr u, s)" by (auto simp: get_user_def db_query_def split: option.splits sum.splits)
    with assms(1) np show ?thesis by (auto simp: generate_super_user_def catch_def seq_def bind_def)
  qed
  with np show ?thesis by (auto simp: generate_super_user_def catch_def seq_def bind_def)
next
  case False
  with assms(1) show ?thesis by (auto simp: generate_super_user_def split: option.splits if_splits)
qed

end
