(* ===== verification/Spec2Isabelle.thy ===== *)
theory Spec2Isabelle
  imports Settings Listing Scheduling Monitoring Runs Waiting Health Sessions ErrorSchemas EnumHook Serializers Directories UserModules Migrations Commands
begin

text \<open>
  Finmars Workflow is a Django service that runs the workflows of many tenants.  A tenant is a
  PostgreSQL schema; a workflow is a list of steps (version 1) or a graph of nodes (version 2)
  whose steps are Celery tasks that run user code and call the Finmars platform.  This
  development models the service's own code and proves what it promises.  File names below
  are relative to \<^verbatim>\<open>src/\<close>.

  \<^bold>\<open>How the parts work together.\<close>  A request enters through \<^verbatim>\<open>workflow/middleware.py\<close>, which puts
  the connection into the schema its path names; \<^verbatim>\<open>workflow/authentication.py\<close> finds the user
  and a view of \<^verbatim>\<open>workflow/views.py\<close> runs.  A launch (\<^verbatim>\<open>workflow/workflows.py\<close>) reads the definition
  from the manager (\<^verbatim>\<open>workflow/system.py\<close>), stores a row and publishes a message: for version 1
  the chain the builder (\<^verbatim>\<open>workflow/builder.py\<close>) made, for version 2 the task that reads the graph.
  A worker takes a message, sets the schema of its context (\<^verbatim>\<open>workflow/utils.py\<close>), runs the
  task (\<^verbatim>\<open>workflow/tasks/workflows.py\<close>) between the callbacks of \<^verbatim>\<open>workflow/tasks/base.py\<close>, and
  \<^verbatim>\<open>Task.handle_task_success\<close> in \<^verbatim>\<open>workflow/models.py\<close> publishes the messages of the nodes that
  follow, or completes the workflow and goes on in its parent.  Beat launches schedules; errors
  of views become responses and records (\<^verbatim>\<open>finmars_standardized_errors/\<close>).

  \<^bold>\<open>Foundations.\<close>  \<^verbatim>\<open>Prelude\<close>: exceptions as values, computations \<open>state \<Rightarrow> (exc + 'a) \<times> state\<close> that
  keep what was written before a raise, the locale \<open>frame\<close> whose rules carry every proof of the
  form "this operation changes nothing but", Python's string operations, dictionaries as
  association lists.  \<^verbatim>\<open>Json\<close>: values, \<^verbatim>\<open>json.dumps\<close> and \<^verbatim>\<open>json.loads\<close>, with the locale \<open>json_codec\<close> of
  the round trip for the three ways the program writes them.  \<^verbatim>\<open>Models\<close>: the rows of
  \<^verbatim>\<open>workflow/models.py\<close> and their JSON properties.  \<^verbatim>\<open>World\<close>: the state the handlers share (schemas
  and search path, broker queue, requests and revocations sent, clock, registry, local files),
  the queries of the ORM, the locale \<open>row_store\<close> of a table with its two interpretations, the
  locales of frames, and the tenancy functions of \<^verbatim>\<open>workflow/utils.py\<close>.  \<^verbatim>\<open>Sample\<close>: a small tenant
  on which the witnesses run.

  \<^bold>\<open>The engine.\<close>  \<^verbatim>\<open>Graph\<close>: adjacency, start nodes, conditions and inputs of a graph; that the
  adjacency is right and every node of an acyclic graph is reached.  \<^verbatim>\<open>Platform\<close>
  (\<^verbatim>\<open>workflow/finmars.py\<close>): tokens and calls to the platform, the waiting loops, Vault; \<^verbatim>\<open>Waiting\<close>: a
  bound on their requests and pauses.  \<^verbatim>\<open>Manager\<close> (\<^verbatim>\<open>workflow/system.py\<close>): definitions by user code
  and the copy of the remote storage.  \<^verbatim>\<open>Engine\<close>: \<^verbatim>\<open>Workflow.save\<close>, \<^verbatim>\<open>cancel\<close>, \<^verbatim>\<open>handle_task_success\<close>
  and the callbacks of \<^verbatim>\<open>BaseTask\<close>.  \<^verbatim>\<open>Steps\<close>: the Celery tasks; that a worker stays inside its
  tenant's schema.  \<^verbatim>\<open>Builder\<close>: \<^verbatim>\<open>WorkflowBuilder\<close> and \<^verbatim>\<open>execute_workflow\<close>; that a launch stores one
  row and publishes one message.  \<^verbatim>\<open>Api\<close>: the views that change workflows.  \<^verbatim>\<open>Control\<close>: cancelling
  as a refinement of one update of the tables (locale \<open>task_rewrite\<close>, shared with the clean-ups of
  failed workflows and stopped workers), pausing, parking and resuming, readiness of inputs.
  \<^verbatim>\<open>Continuation\<close>: what the end or failure of a node does with the task, its workflow and all the
  workflows above it.  \<^verbatim>\<open>Scheduling\<close>: schedules, beat, the clean-up of a worker, the export.

  \<^bold>\<open>The whole system.\<close>  \<^verbatim>\<open>Ledger\<close> states the invariant of the tables and a logic of triples over
  the rows an operation knows; \<^verbatim>\<open>Worker\<close> shows that every Celery task keeps it; \<^verbatim>\<open>System\<close> is the
  inductive step relation of workers (any message of the queue, in any order), requests, restarts
  and passing time, and shows the invariant and the success of the lookups in every reachable
  state.  \<^verbatim>\<open>Traversal\<close> is an abstract machine that knows only a graph, the nodes that ran and the nodes
  that wait; \<^verbatim>\<open>Runs\<close> proves that the workers, the tables and the queue of a version 2 workflow refine
  it in both directions, that a workflow without joins is run to its end in every order of
  deliveries, and that a join that is delivered twice stops everything behind it.

  \<^bold>\<open>Around the engine.\<close>  \<^verbatim>\<open>Tenancy\<close>: the middleware, the signals of Celery and the bootstrap of a
  schema (\<^verbatim>\<open>workflow/apps.py\<close>).  \<^verbatim>\<open>Authentication\<close>: the two authentication classes, the Keycloak client and
  that the program's own tokens are accepted until they expire.  \<^verbatim>\<open>Access\<close> (\<^verbatim>\<open>workflow_app/urls.py\<close>): the
  patterns and the router, that no address is shadowed, and who reaches an action, which without a
  permission class is everybody.  \<^verbatim>\<open>Settings\<close> (\<^verbatim>\<open>workflow_app/settings.py\<close>): the settings as they are read from
  the environment, and when they load.  \<^verbatim>\<open>Sessions\<close>
  (\<^verbatim>\<open>workflow/user_sessions.py\<close>): code run for a user, and that it touches only its own context.
  \<^verbatim>\<open>Storage\<close> and \<^verbatim>\<open>Downloads\<close> (\<^verbatim>\<open>workflow/storage.py\<close>, \<^verbatim>\<open>finmars.Storage\<close>): encryption, the round trip of
  saved files, downloads, archives and logs, helpers for user code; \<^verbatim>\<open>Directories\<close>: the directories of the
  four storages, and that an archive holds exactly its directory.  \<^verbatim>\<open>UserModules\<close>: the import of user modules,
  the function they register for a step (\<^verbatim>\<open>workflow/api.py\<close>) and the manager of a process.  \<^verbatim>\<open>Monitoring\<close>: summaries of workers and
  queues.  \<^verbatim>\<open>Filters\<close>: the filters of lists; \<^verbatim>\<open>Listing\<close>: their composition in
  the lists of workflows and templates.  \<^verbatim>\<open>Endpoints\<close>: the remaining views; \<^verbatim>\<open>Serializers\<close>: how rows are
  shown as JSON, and when a workflow can be shown at all.
  \<^verbatim>\<open>Errors\<close>: handler and formatter of errors; \<^verbatim>\<open>OpenApi\<close>: the documented fields, error codes
  and responses, and the settings of that package; \<^verbatim>\<open>ErrorSchemas\<close>: the documented classes of error
  responses, and which responses of the handler conform to them; \<^verbatim>\<open>EnumHook\<close>: the naming of enumerations in a
  generated schema, and that each is found again under its reference.  \<^verbatim>\<open>Health\<close> (\<^verbatim>\<open>healthcheck/\<close>): the checks and the
  status they give.  \<^verbatim>\<open>Support\<close>: log records (\<^verbatim>\<open>logstash/\<close>), the environment, filters and tags of error
  reports, the error middleware.  \<^verbatim>\<open>Commands\<close>: the management commands, and that the repaired
  sequences never give a key that is taken.  \<^verbatim>\<open>Migrations\<close>: the two migrations that run code, and what
  the removal of repeated templates keeps.

  \<^bold>\<open>Parameters.\<close>  Code that is not part of the repository is an argument: the user code of a step
  and the interpreter of a session, the answers of the platform, Keycloak and RabbitMQ, the
  signing and ciphering libraries, the readings of the machine, Celery's check of a crontab, the
  regular expressions of the database, Django's migrations.  Where a theorem relies on them, it
  names the law (\<open>jwt_ok\<close>: a signed payload is read back until it expires; decryption inverts
  encryption) and its witness has a concrete instance.

  \<^bold>\<open>Bounds.\<close>  The recursion over parent workflows, of failures and of the waiting functions carries
  the depth the interpreter still allows, and raises \<^const>\<open>RecursionError\<close> at 0, as Python does; a
  depth above the id of the workflow is enough for the first two, because a parent is older than
  its child, and one above the number of retries for the third.  The parser of JSON has twice as many
  steps as the text has characters and two more, which the round trip shows to be enough.  Integers of
  Python and of the database are \<^typ>\<open>int\<close> or \<^typ>\<open>nat\<close>; times are milliseconds.  Characters are
  code points below 256.

  \<^bold>\<open>Not modelled.\<close>  Admin pages, process entry points and the two commands that copy libraries, which
  only configure or call Django and Celery; table definitions of migrations; the fields of serializers
  that the framework interprets without code of the program; sockets of the log handler and the
  container format of archives; sizes formatted with floating-point logarithms.  Log messages are left
  out throughout.
\<close>

end
